theory Spec2Isabelle
  imports Main "HOL-Library.Word" "HOL-Library.Sublist"
begin

unbundle bit_operations_syntax

section \<open>Data model\<close>

text \<open>
  A beacon block root is a 32-byte digest (\<^verbatim>\<open>phase0.Root\<close>, \<^verbatim>\<open>common.Hash\<close>).
  \<^verbatim>\<open>Root.String()\<close> prints it as \<^verbatim>\<open>0x\<close> followed by 64 lower-case hexadecimal
  digits; that string is the block identifier the archiver sends back to the beacon
  client when it asks for a parent.
\<close>

type_synonym root = "256 word"

definition hex_digit :: "nat \<Rightarrow> char" where
  "hex_digit n = ''0123456789abcdef'' ! n"

definition root_String :: "root \<Rightarrow> string" where
  "root_String r =
     ''0x'' @ map (\<lambda>i. hex_digit (unat (drop_bit (4 * (63 - i)) r AND 15))) [0..<64]"

text \<open>
  \<^verbatim>\<open>v1.BeaconBlockHeader\<close>: the archiver reads \<^verbatim>\<open>Root\<close> and
  \<^verbatim>\<open>Header.Message.ParentRoot\<close> only; the nested path is flattened to one field.
\<close>

record header =
  Root :: root
  ParentRoot :: root

text \<open>\<^verbatim>\<open>deneb.BlobSidecar\<close>: the position index and the blob bytes.\<close>

record blob_sidecar =
  Index :: "64 word"
  Blob :: "8 word list"

text \<open>
  \<^verbatim>\<open>storage.BlobData\<close>: \<^verbatim>\<open>Header.BeaconBlockHash\<close> is the storage key,
  \<^verbatim>\<open>BlobSidecars.Data\<close> the ordered blob entries.
\<close>

record blob_data =
  BeaconBlockHash :: root
  Data :: "blob_sidecar list"

text \<open>
  Go's \<^verbatim>\<open>error\<close> values. The archiver never inspects an error, it only tests
  \<^verbatim>\<open>err != nil\<close>; two values are kept apart because the retrieval API answers
  "not found" differently from a backend failure.
\<close>

datatype err = Unavailable | NotFound

datatype block_source = BlockSourceBackfill | BlockSourceLive

text \<open>
  Every call the service makes on a collaborator (beacon client, data store, metrics,
  \<^verbatim>\<open>time.Sleep\<close>) is appended to a trace, in order.
\<close>

datatype call =
    CallBeaconBlockHeader string
  | CallExists root
  | CallBlobSidecars string
  | CallWrite blob_data
  | CallRead root
  | CallRecordStoredBlobs nat
  | CallRecordProcessedBlock block_source
  | CallSleep int
  | CallStartServer

text \<open>
  The world outside the service. \<open>headers\<close> and \<open>sidecars\<close> are what the beacon client
  answers for a block identifier, \<open>store\<close> is the content of the data store. \<open>faults\<close>
  scripts the failures of the environment: every call on the beacon client, the data
  store or the metrics server takes the next entry, and \<open>True\<close> makes that call fail
  (an exhausted script means no further failure). The answers of the beacon client do
  not change during a run: the chain does not grow while a loop is being followed.
\<close>

record world =
  headers :: "string \<rightharpoonup> header"
  sidecars :: "string \<rightharpoonup> blob_sidecar list"
  store :: "root \<rightharpoonup> blob_data"
  faults :: "bool list"
  trace :: "call list"

text \<open>
  \<^verbatim>\<open>ArchiverService\<close>: the configuration fields the code reads
  (\<^verbatim>\<open>cfg.OriginBlock\<close>, \<^verbatim>\<open>cfg.PollInterval\<close>, \<^verbatim>\<open>cfg.MetricsConfig.Enabled\<close>).
  Its client handles are the \<open>world\<close>.
\<close>

record archiver_service =
  OriginBlock :: root
  PollInterval :: int
  MetricsEnabled :: bool

section \<open>Collaborators\<close>

definition emit :: "world \<Rightarrow> call \<Rightarrow> world" where
  "emit w c = w\<lparr>trace := trace w @ [c]\<rparr>"

definition take_fault :: "world \<Rightarrow> bool \<times> world" where
  "take_fault w = (case faults w of [] \<Rightarrow> (False, w) | f # fs \<Rightarrow> (f, w\<lparr>faults := fs\<rparr>))"

definition fault_at :: "world \<Rightarrow> nat \<Rightarrow> bool" where
  "fault_at w n = (n < length (faults w) \<and> faults w ! n)"

text \<open>\<^verbatim>\<open>beaconClient.BeaconBlockHeader(ctx, {Block: block})\<close>.\<close>

definition BeaconBlockHeader :: "world \<Rightarrow> string \<Rightarrow> (err + header) \<times> world" where
  "BeaconBlockHeader w block =
     (let (failed, w') = take_fault (emit w (CallBeaconBlockHeader block)) in
      if failed then (Inl Unavailable, w')
      else case headers w' block of
             None \<Rightarrow> (Inl NotFound, w')
           | Some h \<Rightarrow> (Inr h, w'))"

text \<open>\<^verbatim>\<open>beaconClient.BlobSidecars(ctx, {Block: block})\<close>.\<close>

definition BlobSidecars :: "world \<Rightarrow> string \<Rightarrow> (err + blob_sidecar list) \<times> world" where
  "BlobSidecars w block =
     (let (failed, w') = take_fault (emit w (CallBlobSidecars block)) in
      if failed then (Inl Unavailable, w')
      else case sidecars w' block of
             None \<Rightarrow> (Inl NotFound, w')
           | Some bs \<Rightarrow> (Inr bs, w'))"

text \<open>
  Modelled from the spec: the storage backends (\<^verbatim>\<open>common/storage\<close>) are not among the
  sources. Section 4.1: \<^verbatim>\<open>Exists(hash)\<close> has no side effect and answers \<open>false\<close>
  for an absent record, failing only on a backend failure; \<^verbatim>\<open>Write(record)\<close> persists or
  overwrites the record for its block hash; \<^verbatim>\<open>Read(hash)\<close> returns the record or
  not-found.
\<close>

definition Exists :: "world \<Rightarrow> root \<Rightarrow> (err + bool) \<times> world" where
  "Exists w hash =
     (let (failed, w') = take_fault (emit w (CallExists hash)) in
      if failed then (Inl Unavailable, w')
      else (Inr (store w' hash \<noteq> None), w'))"

definition Write :: "world \<Rightarrow> blob_data \<Rightarrow> (err + unit) \<times> world" where
  "Write w blobData =
     (let (failed, w') = take_fault (emit w (CallWrite blobData)) in
      if failed then (Inl Unavailable, w')
      else (Inr (), w'\<lparr>store := (store w')(BeaconBlockHash blobData \<mapsto> blobData)\<rparr>))"

definition Read :: "world \<Rightarrow> root \<Rightarrow> (err + blob_data) \<times> world" where
  "Read w hash =
     (let (failed, w') = take_fault (emit w (CallRead hash)) in
      if failed then (Inl Unavailable, w')
      else case store w' hash of
             None \<Rightarrow> (Inl NotFound, w')
           | Some d \<Rightarrow> (Inr d, w'))"

section \<open>The archiver service\<close>

text \<open>
  \<^verbatim>\<open>persistBlobsForBlockToS3\<close>. The Go function returns
  \<^verbatim>\<open>(header, alreadyExisted, err)\<close>, and \<^verbatim>\<open>(nil, false, err)\<close> on every error;
  the model returns \<open>Inl err\<close> or \<open>Inr (header, alreadyExisted)\<close>. Log lines are left out.
\<close>

definition persistBlobsForBlockToS3 ::
  "archiver_service \<Rightarrow> world \<Rightarrow> string \<Rightarrow> (err + header \<times> bool) \<times> world" where
  "persistBlobsForBlockToS3 a w blockIdentifier =
     (case BeaconBlockHeader w blockIdentifier of
        (Inl e, w1) \<Rightarrow> (Inl e, w1)
      | (Inr currentHeader, w1) \<Rightarrow>
          (case Exists w1 (Root currentHeader) of
             (Inl e, w2) \<Rightarrow> (Inl e, w2)
           | (Inr exists, w2) \<Rightarrow>
               if exists then (Inr (currentHeader, True), w2)
               else
                 (case BlobSidecars w2 (root_String (Root currentHeader)) of
                    (Inl e, w3) \<Rightarrow> (Inl e, w3)
                  | (Inr blobSidecars, w3) \<Rightarrow>
                      (let blobData = \<lparr>BeaconBlockHash = Root currentHeader,
                                        Data = blobSidecars\<rparr>
                       in case Write w3 blobData of
                            (Inl e, w4) \<Rightarrow> (Inl e, w4)
                          | (Inr u, w4) \<Rightarrow>
                              (Inr (currentHeader, False),
                               emit w4 (CallRecordStoredBlobs (length blobSidecars)))))))"

text \<open>
  \<^verbatim>\<open>const backfillErrorRetryInterval = 5 * time.Second\<close>; a \<^verbatim>\<open>time.Duration\<close>
  counts nanoseconds.
\<close>

definition Second :: int where
  "Second = 1000000000"

definition backfillErrorRetryInterval :: int where
  "backfillErrorRetryInterval = 5 * Second"

text \<open>
  \<^verbatim>\<open>backfillBlobs\<close>. The loop \<^verbatim>\<open>for !alreadyExists { ... }\<close> may run forever (it retries
  without bound), so it is a partial function: \<open>None\<close> means that it does not return.
  The Go function returns nothing; the model returns which of its two exits was taken
  (the \<^verbatim>\<open>return\<close> after "reached origin block", or the end of the loop followed by
  "backfill complete"), the final \<^verbatim>\<open>current\<close> and the final world.
\<close>

datatype backfill_exit = ReachedOrigin | BackfillComplete

partial_function (option) backfill_loop ::
  "archiver_service \<Rightarrow> world \<Rightarrow> header \<Rightarrow> bool \<Rightarrow> (backfill_exit \<times> header \<times> world) option"
  where
  "backfill_loop a w current alreadyExists =
     (if alreadyExists then Some (BackfillComplete, current, w)
      else if Root current = OriginBlock a then Some (ReachedOrigin, current, w)
      else
        (let previous = current in
         case persistBlobsForBlockToS3 a w (root_String (ParentRoot previous)) of
           (Inl e, w1) \<Rightarrow>
             backfill_loop a (emit w1 (CallSleep backfillErrorRetryInterval)) previous False
         | (Inr (current', alreadyExists'), w1) \<Rightarrow>
             backfill_loop a
               (if \<not> alreadyExists'
                then emit w1 (CallRecordProcessedBlock BlockSourceBackfill)
                else w1)
               current' alreadyExists'))"

definition backfillBlobs ::
  "archiver_service \<Rightarrow> world \<Rightarrow> header \<Rightarrow> (backfill_exit \<times> header \<times> world) option" where
  "backfillBlobs a w latest = backfill_loop a w latest False"

text \<open>
  \<^verbatim>\<open>processBlocksUntilKnownBlock\<close>: the inner loop of one polling tick. It has no bound
  either. \<open>LiveAborted\<close> is the \<^verbatim>\<open>return\<close> on an error, \<open>LiveRefreshed\<close> the
  \<^verbatim>\<open>break\<close> followed by "live data refreshed". \<^verbatim>\<open>start\<close> is only logged.
\<close>

datatype live_exit = LiveAborted | LiveRefreshed

partial_function (option) live_loop ::
  "archiver_service \<Rightarrow> world \<Rightarrow> header option \<Rightarrow> string \<Rightarrow> (live_exit \<times> world) option"
  where
  "live_loop a w start currentBlockId =
     (case persistBlobsForBlockToS3 a w currentBlockId of
        (Inl e, w1) \<Rightarrow> Some (LiveAborted, w1)
      | (Inr (current, alreadyExisted), w1) \<Rightarrow>
          (let start' = (if start = None then Some current else start) in
           if \<not> alreadyExisted
           then live_loop a (emit w1 (CallRecordProcessedBlock BlockSourceLive)) start'
                  (root_String (ParentRoot current))
           else Some (LiveRefreshed, w1)))"

definition processBlocksUntilKnownBlock ::
  "archiver_service \<Rightarrow> world \<Rightarrow> (live_exit \<times> world) option" where
  "processBlocksUntilKnownBlock a w = live_loop a w None ''head''"

text \<open>
  \<^verbatim>\<open>trackLatestBlocks\<close>. \<^verbatim>\<open>time.NewTicker\<close> panics when the interval is not positive, so
  with such a \<^verbatim>\<open>PollInterval\<close> the function neither returns nor polls. Otherwise it is the
  \<^verbatim>\<open>select\<close> loop: the list says which channel is ready at each round, and when it is
  used up the loop stays blocked and does not return. \<open>Returned\<close> carries the returned
  \<^verbatim>\<open>error\<close> (\<open>None\<close> for \<^verbatim>\<open>nil\<close>) and the world at that moment.
\<close>

datatype select_case = CtxDone | StopCh | TickerC

datatype outcome = Panicked | Returned "err option" world

fun select_loop :: "archiver_service \<Rightarrow> world \<Rightarrow> select_case list \<Rightarrow> outcome option" where
  "select_loop a w [] = None"
| "select_loop a w (CtxDone # evs) = Some (Returned None w)"
| "select_loop a w (StopCh # evs) = Some (Returned None w)"
| "select_loop a w (TickerC # evs) =
     (case processBlocksUntilKnownBlock a w of
        None \<Rightarrow> None
      | Some (x, w') \<Rightarrow> select_loop a w' evs)"

definition trackLatestBlocks ::
  "archiver_service \<Rightarrow> world \<Rightarrow> select_case list \<Rightarrow> outcome option" where
  "trackLatestBlocks a w evs =
     (if PollInterval a \<le> 0 then Some Panicked else select_loop a w evs)"

text \<open>\<^verbatim>\<open>opmetrics.StartServer\<close>, which can fail.\<close>

definition StartServer :: "world \<Rightarrow> (err + unit) \<times> world" where
  "StartServer w =
     (let (failed, w') = take_fault (emit w CallStartServer) in
      if failed then (Inl Unavailable, w') else (Inr (), w'))"

subsection \<open>The two goroutines of \<^verbatim>\<open>Start\<close>, call by call\<close>

text \<open>
  \<^verbatim>\<open>Start\<close> launches \<^verbatim>\<open>backfillBlobs\<close> in a goroutine of its own and runs
  \<^verbatim>\<open>trackLatestBlocks\<close> beside it; both work on the same beacon client, the same storage
  and the same metrics. To let their calls interleave, the three functions above are
  given once more as machines that make one move at a time: a move is one call of a
  collaborator, or one test the code makes between two calls. The control state says
  where in the function body the goroutine stands and holds its local variables.

  \<^verbatim>\<open>persistBlobsForBlockToS3\<close>: about to fetch the header; about to ask the store whether
  the root exists; about to fetch the sidecars; about to write; about to record the
  stored blobs; returned.
\<close>

datatype persist_ctl =
    FetchHeader string
  | CheckExists header
  | FetchSidecars header
  | WriteBlobs header "blob_sidecar list"
  | RecordStored header "blob_sidecar list"
  | PersistReturned "err + header \<times> bool"

fun persist_step :: "persist_ctl \<times> world \<Rightarrow> persist_ctl \<times> world" where
  "persist_step (FetchHeader blockIdentifier, w) =
     (case BeaconBlockHeader w blockIdentifier of
        (Inl e, w1) \<Rightarrow> (PersistReturned (Inl e), w1)
      | (Inr currentHeader, w1) \<Rightarrow> (CheckExists currentHeader, w1))"
| "persist_step (CheckExists currentHeader, w) =
     (case Exists w (Root currentHeader) of
        (Inl e, w1) \<Rightarrow> (PersistReturned (Inl e), w1)
      | (Inr exists, w1) \<Rightarrow>
          if exists then (PersistReturned (Inr (currentHeader, True)), w1)
          else (FetchSidecars currentHeader, w1))"
| "persist_step (FetchSidecars currentHeader, w) =
     (case BlobSidecars w (root_String (Root currentHeader)) of
        (Inl e, w1) \<Rightarrow> (PersistReturned (Inl e), w1)
      | (Inr blobSidecars, w1) \<Rightarrow> (WriteBlobs currentHeader blobSidecars, w1))"
| "persist_step (WriteBlobs currentHeader blobSidecars, w) =
     (case Write w \<lparr>BeaconBlockHash = Root currentHeader, Data = blobSidecars\<rparr> of
        (Inl e, w1) \<Rightarrow> (PersistReturned (Inl e), w1)
      | (Inr u, w1) \<Rightarrow> (RecordStored currentHeader blobSidecars, w1))"
| "persist_step (RecordStored currentHeader blobSidecars, w) =
     (PersistReturned (Inr (currentHeader, False)),
      emit w (CallRecordStoredBlobs (length blobSidecars)))"
| "persist_step (PersistReturned r, w) = (PersistReturned r, w)"

text \<open>
  \<^verbatim>\<open>backfillBlobs\<close>: at the head of the loop with \<^verbatim>\<open>current\<close> and \<^verbatim>\<open>alreadyExists\<close>; inside
  the fetch-and-persist of the parent of \<^verbatim>\<open>previous\<close>; about to sleep after an error;
  about to record the processed block; returned.
\<close>

datatype backfill_ctl =
    BackfillTest header bool
  | BackfillPersist header persist_ctl
  | BackfillSleep header
  | BackfillRecord header
  | BackfillReturned backfill_exit header

fun backfill_step ::
  "archiver_service \<Rightarrow> backfill_ctl \<times> world \<Rightarrow> backfill_ctl \<times> world" where
  "backfill_step a (BackfillTest current alreadyExists, w) =
     (if alreadyExists then (BackfillReturned BackfillComplete current, w)
      else if Root current = OriginBlock a then (BackfillReturned ReachedOrigin current, w)
      else (BackfillPersist current (FetchHeader (root_String (ParentRoot current))), w))"
| "backfill_step a (BackfillPersist previous (PersistReturned (Inl e)), w) =
     (BackfillSleep previous, w)"
| "backfill_step a (BackfillPersist previous (PersistReturned (Inr (current, alreadyExists))), w) =
     (if \<not> alreadyExists then (BackfillRecord current, w)
      else (BackfillTest current alreadyExists, w))"
| "backfill_step a (BackfillPersist previous p, w) =
     (let (p', w') = persist_step (p, w) in (BackfillPersist previous p', w'))"
| "backfill_step a (BackfillSleep previous, w) =
     (BackfillTest previous False, emit w (CallSleep backfillErrorRetryInterval))"
| "backfill_step a (BackfillRecord current, w) =
     (BackfillTest current False, emit w (CallRecordProcessedBlock BlockSourceBackfill))"
| "backfill_step a (BackfillReturned x current, w) = (BackfillReturned x current, w)"

text \<open>
  \<^verbatim>\<open>trackLatestBlocks\<close> with \<^verbatim>\<open>processBlocksUntilKnownBlock\<close> inside it: waiting in the
  \<^verbatim>\<open>select\<close>; inside the fetch-and-persist of a poll, with \<^verbatim>\<open>start\<close>; about to record the
  processed block; returned; panicked. A move made while the \<^verbatim>\<open>select\<close> has no ready
  channel changes nothing.
\<close>

datatype live_ctl =
    LiveSelect
  | LivePersist "header option" persist_ctl
  | LiveRecord "header option" header
  | LiveReturned "err option"
  | LivePanicked

definition NewTicker :: "archiver_service \<Rightarrow> live_ctl" where
  "NewTicker a = (if PollInterval a \<le> 0 then LivePanicked else LiveSelect)"

fun live_step ::
  "archiver_service \<Rightarrow> live_ctl \<times> world \<times> select_case list \<Rightarrow>
   live_ctl \<times> world \<times> select_case list" where
  "live_step a (LiveSelect, w, []) = (LiveSelect, w, [])"
| "live_step a (LiveSelect, w, CtxDone # evs) = (LiveReturned None, w, evs)"
| "live_step a (LiveSelect, w, StopCh # evs) = (LiveReturned None, w, evs)"
| "live_step a (LiveSelect, w, TickerC # evs) = (LivePersist None (FetchHeader ''head''), w, evs)"
| "live_step a (LivePersist start (PersistReturned (Inl e)), w, evs) = (LiveSelect, w, evs)"
| "live_step a (LivePersist start (PersistReturned (Inr (current, alreadyExisted))), w, evs) =
     (let start' = (if start = None then Some current else start) in
      if \<not> alreadyExisted then (LiveRecord start' current, w, evs)
      else (LiveSelect, w, evs))"
| "live_step a (LivePersist start p, w, evs) =
     (let (p', w') = persist_step (p, w) in (LivePersist start p', w', evs))"
| "live_step a (LiveRecord start current, w, evs) =
     (LivePersist start (FetchHeader (root_String (ParentRoot current))),
      emit w (CallRecordProcessedBlock BlockSourceLive), evs)"
| "live_step a (LiveReturned r, w, evs) = (LiveReturned r, w, evs)"
| "live_step a (LivePanicked, w, evs) = (LivePanicked, w, evs)"

text \<open>
  The schedule says which goroutine makes the next move. The run is over as soon as
  \<^verbatim>\<open>trackLatestBlocks\<close> has returned or panicked, whatever backfill is doing then; a
  schedule that is used up before that gives no outcome.
\<close>

datatype goroutine = BackfillGoroutine | MainGoroutine

fun interleave ::
  "archiver_service \<Rightarrow> goroutine list \<Rightarrow> select_case list \<Rightarrow>
   backfill_ctl \<times> live_ctl \<times> world \<Rightarrow> outcome option" where
  "interleave a sched evs (b, LiveReturned r, w) = Some (Returned r w)"
| "interleave a sched evs (b, LivePanicked, w) = Some Panicked"
| "interleave a [] evs (b, l, w) = None"
| "interleave a (BackfillGoroutine # sched) evs (b, l, w) =
     (let (b', w') = backfill_step a (b, w) in interleave a sched evs (b', l, w'))"
| "interleave a (MainGoroutine # sched) evs (b, l, w) =
     (let (l', w', evs') = live_step a (l, w, evs) in interleave a sched evs' (b, l', w'))"

text \<open>
  \<^verbatim>\<open>Start\<close>: the metrics server if it is enabled, the seed fetch-and-persist of \<open>head\<close>,
  then \<^verbatim>\<open>go a.backfillBlobs(ctx, currentBlob)\<close> and \<^verbatim>\<open>return a.trackLatestBlocks(ctx)\<close>, the
  two running under the schedule.
\<close>

definition Start ::
  "archiver_service \<Rightarrow> world \<Rightarrow> select_case list \<Rightarrow> goroutine list \<Rightarrow> outcome option" where
  "Start a w evs sched =
     (case (if MetricsEnabled a then StartServer w else (Inr (), w)) of
        (Inl e, w0) \<Rightarrow> Some (Returned (Some e) w0)
      | (Inr u, w0) \<Rightarrow>
          (case persistBlobsForBlockToS3 a w0 ''head'' of
             (Inl e, w1) \<Rightarrow> Some (Returned (Some e) w1)
           | (Inr (currentBlob, alreadyExisted), w1) \<Rightarrow>
               interleave a sched evs (BackfillTest currentBlob False, NewTicker a, w1)))"

section \<open>The retrieval API\<close>

text \<open>
  Modelled from the spec: the API service (\<^verbatim>\<open>api/service/api.go\<close>) is not among the
  sources, only its tests are. The classification follows section 4.3, in its priority
  order; the names \<open>isHash\<close>, \<open>isSlot\<close> and \<open>isKnownIdentifier\<close> are the ones the tests
  call.
\<close>

definition is_hex_char :: "char \<Rightarrow> bool" where
  "is_hex_char c = (c \<in> set ''0123456789abcdefABCDEF'')"

definition is_digit_char :: "char \<Rightarrow> bool" where
  "is_digit_char c = (c \<in> set ''0123456789'')"

definition isHash :: "string \<Rightarrow> bool" where
  "isHash s = (length s = 66 \<and> take 2 s = ''0x'' \<and> list_all is_hex_char (drop 2 s))"

definition isSlot :: "string \<Rightarrow> bool" where
  "isSlot s = (s \<noteq> [] \<and> list_all is_digit_char s)"

definition isKnownIdentifier :: "string \<Rightarrow> bool" where
  "isKnownIdentifier s = (s \<in> set [''genesis'', ''finalized'', ''head''])"

datatype identifier_kind = ContentHash | Position | NamedAlias | InvalidIdentifier

definition classify :: "string \<Rightarrow> identifier_kind" where
  "classify s =
     (if isHash s then ContentHash
      else if isSlot s then Position
      else if isKnownIdentifier s then NamedAlias
      else InvalidIdentifier)"

text \<open>
  Modelled from the spec: the request handler of section 4.4 and the HTTP surface of
  section 6. A request carries the identifier path segment, the optional \<^verbatim>\<open>indices\<close>
  parameter and the optional \<^verbatim>\<open>Accept\<close> header. The byte layouts of the two encodings
  belong to an external codec; a 200 body is the blob sequence tagged with the encoding
  that was negotiated. The spec leaves the status of a backend failure at "5xx-class";
  500 stands for it here.
\<close>

record request =
  block_id :: string
  indices :: "64 word list option"
  accept :: "string option"

datatype encoding = BinaryEncoding | TextualEncoding

datatype body =
    BlobSidecarsBody encoding "blob_sidecar list"
  | HttpErrorBody nat string

record response =
  status :: nat
  body :: body

definition httpError :: "nat \<Rightarrow> string \<Rightarrow> response" where
  "httpError code message = \<lparr>status = code, body = HttpErrorBody code message\<rparr>"

definition negotiate :: "string option \<Rightarrow> encoding" where
  "negotiate acc =
     (if acc = Some ''application/octet-stream'' then BinaryEncoding else TextualEncoding)"

fun filterBlobs :: "blob_sidecar list \<Rightarrow> 64 word list \<Rightarrow> blob_sidecar list" where
  "filterBlobs [] ids = []"
| "filterBlobs (b # bs) ids =
     (if Index b \<in> set ids then b # filterBlobs bs ids else filterBlobs bs ids)"

text \<open>
  Modelled from the spec: the resolution of the identifier and the handler of section
  4.4, and from the test where the two differ. Section 4.4 sends every valid identifier
  to the chain client, but \<^verbatim>\<open>TestAPIService\<close> asks for the content hash of a stored
  block, with a stub client that has headers for \<open>finalized\<close>, \<open>head\<close> and \<open>1234\<close> only,
  and expects status 200 and the stored blobs. So a content hash is turned into the root
  it spells (\<^verbatim>\<open>common.HexToHash\<close>, as the test does for its own roots) and used as the
  storage key; the chain client is asked for positions and named aliases only.
\<close>

definition hex_value :: "char \<Rightarrow> nat" where
  "hex_value c =
     (if c \<in> set ''ABCDEF''
      then length (takeWhile (\<lambda>d. d \<noteq> c) ''0123456789ABCDEF'')
      else length (takeWhile (\<lambda>d. d \<noteq> c) ''0123456789abcdef''))"

definition HexToHash :: "string \<Rightarrow> root" where
  "HexToHash s = foldl (\<lambda>n c. 16 * n + of_nat (hex_value c)) 0 (drop 2 s)"

definition resolveBlockId :: "world \<Rightarrow> string \<Rightarrow> (response + root) \<times> world" where
  "resolveBlockId w b =
     (case classify b of
        InvalidIdentifier \<Rightarrow> (Inl (httpError 400 (''invalid block id: '' @ b)), w)
      | ContentHash \<Rightarrow> (Inr (HexToHash b), w)
      | _ \<Rightarrow>
          (case BeaconBlockHeader w b of
             (Inl NotFound, w1) \<Rightarrow> (Inl (httpError 404 ''Block not found''), w1)
           | (Inl Unavailable, w1) \<Rightarrow> (Inl (httpError 500 ''Internal server error''), w1)
           | (Inr h, w1) \<Rightarrow> (Inr (Root h), w1)))"

definition blobSidecarHandler :: "world \<Rightarrow> request \<Rightarrow> response \<times> world" where
  "blobSidecarHandler w req =
     (case resolveBlockId w (block_id req) of
        (Inl failure, w1) \<Rightarrow> (failure, w1)
      | (Inr hash, w1) \<Rightarrow>
          (case Read w1 hash of
             (Inl NotFound, w2) \<Rightarrow> (httpError 404 ''Block not found'', w2)
           | (Inl Unavailable, w2) \<Rightarrow> (httpError 500 ''Internal server error'', w2)
           | (Inr d, w2) \<Rightarrow>
               (let blobs = (case indices req of
                               None \<Rightarrow> Data d
                             | Some ids \<Rightarrow> filterBlobs (Data d) ids)
                in (\<lparr>status = 200,
                     body = BlobSidecarsBody (negotiate (accept req)) blobs\<rparr>, w2))))"

section \<open>Observations used in the statements\<close>

text \<open>
  An ancestor chain as the beacon client serves it: asked for \<open>b\<close> it answers the first
  header, asked for that header's parent root it answers the second, and so on; the
  blob sidecars of each block are available under the block's own root.
\<close>

type_synonym chain = "(header \<times> blob_sidecar list) list"

fun chain_from :: "world \<Rightarrow> string \<Rightarrow> chain \<Rightarrow> bool" where
  "chain_from w b [] = True"
| "chain_from w b ((h, bs) # c) =
     (headers w b = Some h \<and> sidecars w (root_String (Root h)) = Some bs \<and>
      chain_from w (root_String (ParentRoot h)) c)"

definition record_of :: "header \<Rightarrow> blob_sidecar list \<Rightarrow> blob_data" where
  "record_of h bs = \<lparr>BeaconBlockHash = Root h, Data = bs\<rparr>"

text \<open>The calls of one fetch-and-persist that finds a new block and stores it.\<close>

definition persist_calls :: "string \<Rightarrow> header \<Rightarrow> blob_sidecar list \<Rightarrow> call list" where
  "persist_calls b h bs =
     [CallBeaconBlockHeader b, CallExists (Root h), CallBlobSidecars (root_String (Root h)),
      CallWrite (record_of h bs), CallRecordStoredBlobs (length bs)]"

text \<open>The calls of a walk that stores every block of a chain, and the store after it.\<close>

fun walk_trace :: "block_source \<Rightarrow> string \<Rightarrow> chain \<Rightarrow> call list" where
  "walk_trace src b [] = []"
| "walk_trace src b ((h, bs) # c) =
     persist_calls b h bs @ [CallRecordProcessedBlock src] @
     walk_trace src (root_String (ParentRoot h)) c"

fun walk_store :: "(root \<rightharpoonup> blob_data) \<Rightarrow> chain \<Rightarrow> (root \<rightharpoonup> blob_data)" where
  "walk_store s [] = s"
| "walk_store s ((h, bs) # c) = walk_store (s(Root h \<mapsto> record_of h bs)) c"

text \<open>The identifier a walk asks for next, after it has stored the whole chain.\<close>

fun walk_end :: "string \<Rightarrow> chain \<Rightarrow> string" where
  "walk_end b [] = b"
| "walk_end b ((h, bs) # c) = walk_end (root_String (ParentRoot h)) c"

text \<open>
  The calls of a fetch-and-persist whose call number \<open>k\<close> (from 0) fails, the sleep, and
  the calls of the second, successful attempt on the same block.
\<close>

definition retry_trace :: "nat \<Rightarrow> string \<Rightarrow> header \<Rightarrow> blob_sidecar list \<Rightarrow> call list" where
  "retry_trace k b p bs =
     take (Suc k) (persist_calls b p bs) @ [CallSleep backfillErrorRetryInterval] @
     persist_calls b p bs @ [CallRecordProcessedBlock BlockSourceBackfill]"

text \<open>
  Counting on a trace. Every fetch-and-persist makes exactly one header request, and
  nothing else does in the archiver, so the header requests count the fetch-and-persist
  calls; the writes count the records persisted.
\<close>

fun is_header_request :: "call \<Rightarrow> bool" where
  "is_header_request (CallBeaconBlockHeader b) = True"
| "is_header_request c = False"

fun is_write :: "call \<Rightarrow> bool" where
  "is_write (CallWrite d) = True"
| "is_write c = False"

fun sleep_of :: "call \<Rightarrow> int" where
  "sleep_of (CallSleep d) = d"
| "sleep_of c = 0"

definition header_requests :: "call list \<Rightarrow> nat" where
  "header_requests t = length (filter is_header_request t)"

definition writes :: "call list \<Rightarrow> nat" where
  "writes t = length (filter is_write t)"

text \<open>The time spent in \<^verbatim>\<open>time.Sleep\<close>, in nanoseconds.\<close>

definition slept :: "call list \<Rightarrow> int" where
  "slept t = sum_list (map sleep_of t)"

section \<open>A small chain for concrete runs\<close>

text \<open>
  Four blocks with roots 4 (the head), 3, 2 and 1, each the parent of the one before,
  and the stub beacon client that serves them.
\<close>

definition block :: "nat \<Rightarrow> header" where
  "block n = \<lparr>Root = of_nat n, ParentRoot = of_nat (n - 1)\<rparr>"

definition blobs_of :: "nat \<Rightarrow> blob_sidecar list" where
  "blobs_of n = map (\<lambda>i. \<lparr>Index = of_nat i, Blob = [of_nat n, of_nat i]\<rparr>) [0..<2]"

definition stub_headers :: "string \<rightharpoonup> header" where
  "stub_headers =
     map_of [(''head'', block 4), (root_String 4, block 4), (root_String 3, block 3),
             (root_String 2, block 2), (root_String 1, block 1)]"

definition stub_sidecars :: "string \<rightharpoonup> blob_sidecar list" where
  "stub_sidecars =
     map_of [(root_String 4, blobs_of 4), (root_String 3, blobs_of 3),
             (root_String 2, blobs_of 2), (root_String 1, blobs_of 1)]"

definition stub_world :: "(root \<rightharpoonup> blob_data) \<Rightarrow> bool list \<Rightarrow> world" where
  "stub_world s fs =
     \<lparr>headers = stub_headers, sidecars = stub_sidecars, store = s, faults = fs, trace = []\<rparr>"

definition stored :: "nat list \<Rightarrow> (root \<rightharpoonup> blob_data)" where
  "stored ns = map_of (map (\<lambda>n. (of_nat n, record_of (block n) (blobs_of n))) ns)"

definition archiver :: "root \<Rightarrow> archiver_service" where
  "archiver origin = \<lparr>OriginBlock = origin, PollInterval = 12 * Second, MetricsEnabled = False\<rparr>"

definition chain_3_1 :: chain where
  "chain_3_1 = [(block 3, blobs_of 3), (block 2, blobs_of 2), (block 1, blobs_of 1)]"

definition chain_4_1 :: chain where
  "chain_4_1 = (block 4, blobs_of 4) # chain_3_1"

section \<open>The world of the API test\<close>

text \<open>
  \<^verbatim>\<open>TestAPIService\<close>: two stored records of two blobs each, and a stub beacon client that
  resolves \<open>finalized\<close> to the first root, \<open>head\<close> and \<open>1234\<close> to the second.
\<close>

definition rootOne :: root where
  "rootOne = 0x1234567890abcdef1234567890abcdef1234567890abcdef1234567890abcdef"

definition rootTwo :: root where
  "rootTwo = 0x1234567890abcdef1234567890abcdef1234567890abcdef1234567890222222"

definition blockOne :: blob_data where
  "blockOne = \<lparr>BeaconBlockHash = rootOne, Data = blobs_of 1\<rparr>"

definition blockTwo :: blob_data where
  "blockTwo = \<lparr>BeaconBlockHash = rootTwo, Data = blobs_of 2\<rparr>"

definition test_headers :: "string \<rightharpoonup> header" where
  "test_headers =
     map_of [(''finalized'', \<lparr>Root = rootOne, ParentRoot = 0\<rparr>),
             (''head'', \<lparr>Root = rootTwo, ParentRoot = 0\<rparr>),
             (''1234'', \<lparr>Root = rootTwo, ParentRoot = 0\<rparr>)]"

definition test_world :: world where
  "test_world =
     \<lparr>headers = test_headers, sidecars = Map.empty,
      store = [rootOne \<mapsto> blockOne, rootTwo \<mapsto> blockTwo], faults = [], trace = []\<rparr>"

definition get :: "string \<Rightarrow> 64 word list option \<Rightarrow> string \<Rightarrow> request" where
  "get b ids acc = \<lparr>block_id = b, indices = ids, accept = Some acc\<rparr>"

section \<open>The collaborators, call by call\<close>

lemma take_fault_eq:
  "take_fault w = (fault_at w 0, w\<lparr>faults := tl (faults w)\<rparr>)"
  by (cases "faults w") (simp_all add: take_fault_def fault_at_def)

lemma fault_at_upd [simp]:
  "fault_at (w\<lparr>trace := t\<rparr>) n = fault_at w n"
  "fault_at (w\<lparr>store := s\<rparr>) n = fault_at w n"
  "fault_at (w\<lparr>faults := tl fs\<rparr>) n = fault_at (w\<lparr>faults := fs\<rparr>) (Suc n)"
  "fault_at (w\<lparr>faults := faults w\<rparr>) n = fault_at w n"
  by (cases fs; simp add: fault_at_def)+

lemma fault_at_Nil [simp]: "faults w = [] \<Longrightarrow> fault_at w n = False"
  by (simp add: fault_at_def)

lemma BeaconBlockHeader_eq:
  "BeaconBlockHeader w b =
     (if fault_at w 0 then Inl Unavailable
      else case headers w b of None \<Rightarrow> Inl NotFound | Some h \<Rightarrow> Inr h,
      w\<lparr>trace := trace w @ [CallBeaconBlockHeader b], faults := tl (faults w)\<rparr>)"
  by (simp add: BeaconBlockHeader_def take_fault_eq emit_def fault_at_def split: option.splits)

lemma Exists_eq:
  "Exists w r =
     (if fault_at w 0 then Inl Unavailable else Inr (store w r \<noteq> None),
      w\<lparr>trace := trace w @ [CallExists r], faults := tl (faults w)\<rparr>)"
  by (simp add: Exists_def take_fault_eq emit_def fault_at_def)

lemma BlobSidecars_eq:
  "BlobSidecars w b =
     (if fault_at w 0 then Inl Unavailable
      else case sidecars w b of None \<Rightarrow> Inl NotFound | Some bs \<Rightarrow> Inr bs,
      w\<lparr>trace := trace w @ [CallBlobSidecars b], faults := tl (faults w)\<rparr>)"
  by (simp add: BlobSidecars_def take_fault_eq emit_def fault_at_def split: option.splits)

lemma Write_eq:
  "Write w d =
     (if fault_at w 0
      then (Inl Unavailable, w\<lparr>trace := trace w @ [CallWrite d], faults := tl (faults w)\<rparr>)
      else (Inr (), w\<lparr>trace := trace w @ [CallWrite d], faults := tl (faults w),
                      store := (store w)(BeaconBlockHash d \<mapsto> d)\<rparr>))"
  by (simp add: Write_def take_fault_eq emit_def fault_at_def)

lemma Read_eq:
  "Read w r =
     (if fault_at w 0 then Inl Unavailable
      else case store w r of None \<Rightarrow> Inl NotFound | Some d \<Rightarrow> Inr d,
      w\<lparr>trace := trace w @ [CallRead r], faults := tl (faults w)\<rparr>)"
  by (simp add: Read_def take_fault_eq emit_def fault_at_def split: option.splits)

lemmas persist_unfold =
  persistBlobsForBlockToS3_def BeaconBlockHeader_eq Exists_eq BlobSidecars_eq Write_eq
  emit_def Let_def

lemma persist_new_block:
  assumes "faults w = []" "headers w b = Some h" "store w (Root h) = None"
    "sidecars w (root_String (Root h)) = Some bs"
  shows "persistBlobsForBlockToS3 a w b =
    (Inr (h, False),
     w\<lparr>trace := trace w @ persist_calls b h bs,
       store := (store w)(Root h \<mapsto> record_of h bs)\<rparr>)"
  using assms by (simp add: persist_unfold persist_calls_def record_of_def)

lemma persist_known_block:
  assumes "faults w = []" "headers w b = Some h" "store w (Root h) \<noteq> None"
  shows "persistBlobsForBlockToS3 a w b =
    (Inr (h, True), w\<lparr>trace := trace w @ [CallBeaconBlockHeader b, CallExists (Root h)]\<rparr>)"
  using assms by (auto simp add: persist_unfold)

section \<open>The stub chain, evaluated\<close>

lemma root_String_0:
  "root_String 0 = ''0x0000000000000000000000000000000000000000000000000000000000000000''"
  by code_simp

lemma root_String_1:
  "root_String 1 = ''0x0000000000000000000000000000000000000000000000000000000000000001''"
  by code_simp

lemma root_String_2:
  "root_String 2 = ''0x0000000000000000000000000000000000000000000000000000000000000002''"
  by code_simp

lemma root_String_3:
  "root_String 3 = ''0x0000000000000000000000000000000000000000000000000000000000000003''"
  by code_simp

lemma root_String_4:
  "root_String 4 = ''0x0000000000000000000000000000000000000000000000000000000000000004''"
  by code_simp

lemmas root_String_small =
  root_String_0 root_String_1 root_String_2 root_String_3 root_String_4

lemma stub_headers_simps:
  "stub_headers ''head'' = Some (block 4)"
  "stub_headers (root_String 4) = Some (block 4)"
  "stub_headers (root_String 3) = Some (block 3)"
  "stub_headers (root_String 2) = Some (block 2)"
  "stub_headers (root_String 1) = Some (block 1)"
  "stub_headers (root_String 0) = None"
  by (simp_all add: stub_headers_def root_String_small)

lemma stub_sidecars_simps:
  "stub_sidecars (root_String 4) = Some (blobs_of 4)"
  "stub_sidecars (root_String 3) = Some (blobs_of 3)"
  "stub_sidecars (root_String 2) = Some (blobs_of 2)"
  "stub_sidecars (root_String 1) = Some (blobs_of 1)"
  by (simp_all add: stub_sidecars_def root_String_small)

lemma block_simps:
  "Root (block n) = of_nat n" "ParentRoot (block n) = of_nat (n - 1)"
  by (simp_all add: block_def)

lemma blobs_of_eq:
  "blobs_of n = [\<lparr>Index = 0, Blob = [of_nat n, 0]\<rparr>, \<lparr>Index = 1, Blob = [of_nat n, 1]\<rparr>]"
proof -
  have "[0..<2] = [0, Suc 0]" by (simp add: numeral_2_eq_2)
  then show ?thesis by (simp add: blobs_of_def)
qed

lemma stub_world_simps:
  "headers (stub_world s fs) = stub_headers"
  "sidecars (stub_world s fs) = stub_sidecars"
  "store (stub_world s fs) = s"
  "faults (stub_world s fs) = fs"
  "trace (stub_world s fs) = []"
  by (simp_all add: stub_world_def)

lemmas stub_simps =
  stub_world_simps stub_headers_simps stub_sidecars_simps block_simps

section \<open>Fetch-and-persist\<close>

text \<open>
  C1. Whatever the block identifier and the world, fetch-and-persist begins with the header
  request for that identifier. When the header \<open>h\<close> arrives and the existence check
  answers, there are two cases. If a record for \<open>Root h\<close> is stored, the result is
  \<open>(h, True)\<close> and the only calls made are the header request and the existence check:
  no blob request, no write, the store unchanged. If no record is stored (and the blob
  request and the write succeed), the calls are the header request, the existence check,
  the blob request for \<open>Root h\<close>, the write of the record keyed by \<open>Root h\<close> and the
  metric; the result is \<open>(h, False)\<close> and the store holds the record under \<open>Root h\<close>.
\<close>

theorem persist_fetches_header_then_checks_exists:
  "(\<exists>rest. trace (snd (persistBlobsForBlockToS3 a w b)) =
            trace w @ CallBeaconBlockHeader b # rest)
   \<and> (headers w b = Some h \<and> \<not> fault_at w 0 \<and> \<not> fault_at w 1 \<and>
      store w (Root h) \<noteq> None \<longrightarrow>
        persistBlobsForBlockToS3 a w b =
          (Inr (h, True),
           w\<lparr>trace := trace w @ [CallBeaconBlockHeader b, CallExists (Root h)],
             faults := drop 2 (faults w)\<rparr>))
   \<and> (headers w b = Some h \<and> \<not> fault_at w 0 \<and> \<not> fault_at w 1 \<and>
      store w (Root h) = None \<and> sidecars w (root_String (Root h)) = Some bs \<and>
      \<not> fault_at w 2 \<and> \<not> fault_at w 3 \<longrightarrow>
        persistBlobsForBlockToS3 a w b =
          (Inr (h, False),
           w\<lparr>trace := trace w @
                [CallBeaconBlockHeader b, CallExists (Root h),
                 CallBlobSidecars (root_String (Root h)),
                 CallWrite \<lparr>BeaconBlockHash = Root h, Data = bs\<rparr>,
                 CallRecordStoredBlobs (length bs)],
             faults := drop 4 (faults w),
             store := (store w)(Root h \<mapsto> \<lparr>BeaconBlockHash = Root h, Data = bs\<rparr>)\<rparr>))"
proof (intro conjI impI)
  show "\<exists>rest. trace (snd (persistBlobsForBlockToS3 a w b)) =
          trace w @ CallBeaconBlockHeader b # rest"
    by (simp add: persist_unfold split: option.splits)
next
  assume "headers w b = Some h \<and> \<not> fault_at w 0 \<and> \<not> fault_at w 1 \<and>
    store w (Root h) \<noteq> None"
  then show "persistBlobsForBlockToS3 a w b =
          (Inr (h, True),
           w\<lparr>trace := trace w @ [CallBeaconBlockHeader b, CallExists (Root h)],
             faults := drop 2 (faults w)\<rparr>)"
    by (auto simp add: persist_unfold eval_nat_numeral drop_Suc)
next
  assume "headers w b = Some h \<and> \<not> fault_at w 0 \<and> \<not> fault_at w 1 \<and>
    store w (Root h) = None \<and> sidecars w (root_String (Root h)) = Some bs \<and>
    \<not> fault_at w 2 \<and> \<not> fault_at w 3"
  then show "persistBlobsForBlockToS3 a w b =
          (Inr (h, False),
           w\<lparr>trace := trace w @
                [CallBeaconBlockHeader b, CallExists (Root h),
                 CallBlobSidecars (root_String (Root h)),
                 CallWrite \<lparr>BeaconBlockHash = Root h, Data = bs\<rparr>,
                 CallRecordStoredBlobs (length bs)],
             faults := drop 4 (faults w),
             store := (store w)(Root h \<mapsto> \<lparr>BeaconBlockHash = Root h, Data = bs\<rparr>)\<rparr>)"
    by (auto simp add: persist_unfold eval_nat_numeral drop_Suc)
qed

theorem persist_fetches_header_then_checks_exists_witness:
  "fst (persistBlobsForBlockToS3 (archiver 1) (stub_world (stored [4]) []) ''head'')
     = Inr (block 4, True)
   \<and> trace (snd (persistBlobsForBlockToS3 (archiver 1) (stub_world (stored [4]) []) ''head''))
     = [CallBeaconBlockHeader ''head'', CallExists 4]
   \<and> fst (persistBlobsForBlockToS3 (archiver 1) (stub_world (stored []) []) ''head'')
     = Inr (block 4, False)
   \<and> trace (snd (persistBlobsForBlockToS3 (archiver 1) (stub_world (stored []) []) ''head''))
     = [CallBeaconBlockHeader ''head'', CallExists 4, CallBlobSidecars (root_String 4),
        CallWrite (record_of (block 4) (blobs_of 4)), CallRecordStoredBlobs 2]
   \<and> store (snd (persistBlobsForBlockToS3 (archiver 1) (stub_world (stored []) []) ''head'')) 4
     = Some (record_of (block 4) (blobs_of 4))"
  using persist_fetches_header_then_checks_exists
          [of "archiver 1" "stub_world (stored [4]) []" "''head''" "block 4" "blobs_of 4"]
        persist_fetches_header_then_checks_exists
          [of "archiver 1" "stub_world (stored []) []" "''head''" "block 4" "blobs_of 4"]
  by (simp add: stub_simps stored_def record_of_def blobs_of_def)

section \<open>Walking a chain\<close>

lemma chain_from_upd [simp]:
  "chain_from (w\<lparr>trace := t\<rparr>) b c = chain_from w b c"
  "chain_from (w\<lparr>store := s\<rparr>) b c = chain_from w b c"
  by (induction w b c rule: chain_from.induct; simp)+

lemma walk_store_other: "r \<notin> Root ` fst ` set c \<Longrightarrow> walk_store s c r = s r"
  by (induction s c rule: walk_store.induct) auto

lemma dom_walk_store: "dom (walk_store s c) = dom s \<union> Root ` fst ` set c"
proof (induction c arbitrary: s)
  case Nil
  then show ?case by simp
next
  case (Cons x c)
  obtain h bs where x: "x = (h, bs)" by (cases x)
  have "dom (walk_store (s(Root h \<mapsto> record_of h bs)) c) =
        dom (s(Root h \<mapsto> record_of h bs)) \<union> Root ` fst ` set c"
    by (rule Cons.IH)
  then show ?case using x by simp
qed

lemma backfill_walk:
  assumes "faults w = []"
    and "chain_from w (root_String (ParentRoot cur)) c"
    and "distinct (map (\<lambda>x. Root (fst x)) c)"
    and "\<forall>x\<in>set c. store w (Root (fst x)) = None"
    and "\<forall>h\<in>set (butlast (cur # map fst c)). Root h \<noteq> OriginBlock a"
    and "Root (last (cur # map fst c)) = OriginBlock a"
  shows "backfill_loop a w cur False =
    Some (ReachedOrigin, last (cur # map fst c),
          w\<lparr>trace := trace w @ walk_trace BlockSourceBackfill (root_String (ParentRoot cur)) c,
            store := walk_store (store w) c\<rparr>)"
  using assms
proof (induction c arbitrary: w cur)
  case Nil
  then show ?case by (subst backfill_loop.simps) simp
next
  case (Cons x c)
  obtain h bs where x: "x = (h, bs)" by (cases x)
  let ?b = "root_String (ParentRoot cur)"
  let ?w1 = "w\<lparr>trace := trace w @ persist_calls ?b h bs,
       store := (store w)(Root h \<mapsto> record_of h bs)\<rparr>"
  let ?w2 = "emit ?w1 (CallRecordProcessedBlock BlockSourceBackfill)"
  from Cons.prems x have hd: "headers w ?b = Some h" "sidecars w (root_String (Root h)) = Some bs"
    and tl: "chain_from w (root_String (ParentRoot h)) c" by simp_all
  from Cons.prems x have new: "store w (Root h) = None" by simp
  from Cons.prems have notorigin: "Root cur \<noteq> OriginBlock a" by simp
  have p: "persistBlobsForBlockToS3 a w ?b = (Inr (h, False), ?w1)"
    using persist_new_block[OF Cons.prems(1) hd(1) new hd(2)] .
  have step: "backfill_loop a w cur False = backfill_loop a ?w2 h False"
    by (subst backfill_loop.simps) (simp add: notorigin p)
  have "backfill_loop a ?w2 h False =
    Some (ReachedOrigin, last (h # map fst c),
          ?w2\<lparr>trace := trace ?w2 @ walk_trace BlockSourceBackfill (root_String (ParentRoot h)) c,
            store := walk_store (store ?w2) c\<rparr>)"
  proof (rule Cons.IH)
    show "faults ?w2 = []" using Cons.prems(1) by (simp add: emit_def)
    show "chain_from ?w2 (root_String (ParentRoot h)) c" using tl by (simp add: emit_def)
    show "distinct (map (\<lambda>x. Root (fst x)) c)" using Cons.prems(3) by simp
    show "\<forall>x\<in>set c. store ?w2 (Root (fst x)) = None"
      using Cons.prems(3,4) x by (force simp add: emit_def)
    show "\<forall>h\<in>set (butlast (h # map fst c)). Root h \<noteq> OriginBlock a"
      using Cons.prems(5) x by (simp split: if_splits)
    show "Root (last (h # map fst c)) = OriginBlock a"
      using Cons.prems(6) x by simp
  qed
  then show ?case unfolding step using x by (simp add: emit_def)
qed

lemma backfill_loop_exits:
  "backfill_loop a w cur ex = Some y \<Longrightarrow>
     (fst y = ReachedOrigin \<and> Root (fst (snd y)) = OriginBlock a) \<or>
     (fst y = BackfillComplete \<and>
        (ex \<and> snd y = (cur, w) \<or>
         (\<exists>w0 b. persistBlobsForBlockToS3 a w0 b = (Inr (fst (snd y), True), snd (snd y)))))"
proof (induction a w cur ex y rule: backfill_loop.raw_induct[rotated 1, consumes 1])
  case (1 f a w cur ex y)
  show ?case
  proof (cases "ex \<or> Root cur = OriginBlock a")
    case True
    show ?thesis
    proof (cases ex)
      case True
      with 1(2) have "y = (BackfillComplete, cur, w)" by simp
      with True show ?thesis by simp
    next
      case False
      with 1(2) \<open>ex \<or> Root cur = OriginBlock a\<close> have "y = (ReachedOrigin, cur, w)" by simp
      with False \<open>ex \<or> Root cur = OriginBlock a\<close> show ?thesis by simp
    qed
  next
    case False
    let ?b = "root_String (ParentRoot cur)"
    obtain r w1 where p: "persistBlobsForBlockToS3 a w ?b = (r, w1)"
      by (cases "persistBlobsForBlockToS3 a w ?b")
    show ?thesis
    proof (cases r)
      case (Inl e)
      with 1(2) False p
      have "f a (emit w1 (CallSleep backfillErrorRetryInterval)) cur False = Some y"
        by simp
      from 1(1)[OF this] show ?thesis by blast
    next
      case (Inr hx)
      obtain h' ex' where hx: "hx = (h', ex')" by (cases hx)
      let ?w2 = "if \<not> ex' then emit w1 (CallRecordProcessedBlock BlockSourceBackfill) else w1"
      from 1(2) False p Inr hx have call: "f a ?w2 h' ex' = Some y"
        by simp
      from 1(1)[OF call] show ?thesis
      proof (elim disjE conjE)
        assume "ex'" "snd y = (h', ?w2)" "fst y = BackfillComplete"
        then have "persistBlobsForBlockToS3 a w ?b = (Inr (fst (snd y), True), snd (snd y))"
          using p Inr hx by simp
        then show ?thesis using \<open>fst y = BackfillComplete\<close> by blast
      qed blast+
    qed
  qed
qed

lemma header_requests_walk_trace [simp]:
  "header_requests (walk_trace src b c) = length c"
  by (induction src b c rule: walk_trace.induct) (simp_all add: header_requests_def persist_calls_def)

lemma writes_walk_trace [simp]:
  "writes (walk_trace src b c) = length c"
  by (induction src b c rule: walk_trace.induct) (simp_all add: writes_def persist_calls_def)

lemma header_requests_append [simp]:
  "header_requests (t @ u) = header_requests t + header_requests u"
  by (simp add: header_requests_def)

lemma writes_append [simp]: "writes (t @ u) = writes t + writes u"
  by (simp add: writes_def)

lemma new_roots_card:
  assumes "distinct (map (\<lambda>x. Root (fst x)) c)" "\<forall>x\<in>set c. s (Root (fst x)) = None"
  shows "dom (walk_store s c) - dom s = Root ` fst ` set c"
    and "card (dom (walk_store s c) - dom s) = length c"
proof -
  have disj: "Root ` fst ` set c \<inter> dom s = {}" using assms(2) by auto
  show eq: "dom (walk_store s c) - dom s = Root ` fst ` set c"
    using disj by (auto simp add: dom_walk_store)
  have "Root ` fst ` set c = set (map (\<lambda>x. Root (fst x)) c)" by auto
  then show "card (dom (walk_store s c) - dom s) = length c"
    using distinct_card[OF assms(1)] eq by simp
qed

section \<open>Backfill\<close>

text \<open>
  C2. Let the ancestor chain of the seed, as the beacon client serves it, be \<open>c\<close> with
  \<open>N\<close> blocks, none of them stored yet, the last one carrying the configured origin
  hash and no earlier block (nor the seed, unless \<open>N = 0\<close>) carrying it. Then an
  error-free backfill returns, through the "reached origin" exit at the last block of the
  chain; it has made exactly \<open>N\<close> fetch-and-persist calls, one per ancestor in order, each
  ending in a write, and nothing after them; the store has gained exactly the \<open>N\<close>
  ancestors. Moreover, whenever backfill returns at all, for any world and seed, it is
  either because the current block carries the origin hash or because the last
  fetch-and-persist reported that the block already existed.
\<close>

theorem backfill_persists_chain_to_origin:
  "(faults w = [] \<and> chain_from w (root_String (ParentRoot seed)) c \<and> length c = N \<and>
    distinct (map (\<lambda>x. Root (fst x)) c) \<and> (\<forall>x\<in>set c. store w (Root (fst x)) = None) \<and>
    (\<forall>h\<in>set (butlast (seed # map fst c)). Root h \<noteq> OriginBlock a) \<and>
    Root (last (seed # map fst c)) = OriginBlock a \<longrightarrow>
      backfillBlobs a w seed =
        Some (ReachedOrigin, last (seed # map fst c),
              w\<lparr>trace := trace w @
                          walk_trace BlockSourceBackfill (root_String (ParentRoot seed)) c,
                store := walk_store (store w) c\<rparr>) \<and>
      header_requests (walk_trace BlockSourceBackfill (root_String (ParentRoot seed)) c) = N \<and>
      writes (walk_trace BlockSourceBackfill (root_String (ParentRoot seed)) c) = N \<and>
      dom (walk_store (store w) c) - dom (store w) = Root ` fst ` set c \<and>
      card (dom (walk_store (store w) c) - dom (store w)) = N)
   \<and> (\<forall>w0 seed0 x cur w'.
        backfillBlobs a w0 seed0 = Some (x, cur, w') \<longrightarrow>
          (x = ReachedOrigin \<and> Root cur = OriginBlock a) \<or>
          (x = BackfillComplete \<and>
             (\<exists>w1 b. persistBlobsForBlockToS3 a w1 b = (Inr (cur, True), w'))))"
proof (intro conjI impI allI)
  assume h: "faults w = [] \<and> chain_from w (root_String (ParentRoot seed)) c \<and> length c = N \<and>
    distinct (map (\<lambda>x. Root (fst x)) c) \<and> (\<forall>x\<in>set c. store w (Root (fst x)) = None) \<and>
    (\<forall>h\<in>set (butlast (seed # map fst c)). Root h \<noteq> OriginBlock a) \<and>
    Root (last (seed # map fst c)) = OriginBlock a"
  then show "backfillBlobs a w seed =
        Some (ReachedOrigin, last (seed # map fst c),
              w\<lparr>trace := trace w @
                          walk_trace BlockSourceBackfill (root_String (ParentRoot seed)) c,
                store := walk_store (store w) c\<rparr>)"
    unfolding backfillBlobs_def by (intro backfill_walk) simp_all
  show "header_requests (walk_trace BlockSourceBackfill (root_String (ParentRoot seed)) c) = N"
    using h by simp
  show "writes (walk_trace BlockSourceBackfill (root_String (ParentRoot seed)) c) = N"
    using h by simp
  show "dom (walk_store (store w) c) - dom (store w) = Root ` fst ` set c"
    and "card (dom (walk_store (store w) c) - dom (store w)) = N"
    using new_roots_card[of c "store w"] h by simp_all
next
  fix w0 seed0 x cur w'
  assume "backfillBlobs a w0 seed0 = Some (x, cur, w')"
  then have "backfill_loop a w0 seed0 False = Some (x, cur, w')"
    by (simp add: backfillBlobs_def)
  from backfill_loop_exits[OF this]
  show "(x = ReachedOrigin \<and> Root cur = OriginBlock a) \<or>
          (x = BackfillComplete \<and>
             (\<exists>w1 b. persistBlobsForBlockToS3 a w1 b = (Inr (cur, True), w')))"
    by simp
qed

lemma backfill_stops_on_known:
  "\<lbrakk>Root current \<noteq> OriginBlock a;
    persistBlobsForBlockToS3 a w (root_String (ParentRoot current)) = (Inr (h, True), w1)\<rbrakk> \<Longrightarrow>
   backfill_loop a w current False = Some (BackfillComplete, h, w1)"
  by (subst backfill_loop.simps, simp, subst backfill_loop.simps, simp)

lemma backfill_meets_stored_block:
  "backfillBlobs (archiver 1) (stub_world (stored [4, 2]) []) (block 4) =
     Some (BackfillComplete, block 2,
           (stub_world (stored [4, 2]) [])
             \<lparr>trace := persist_calls (root_String 3) (block 3) (blobs_of 3) @
                        [CallRecordProcessedBlock BlockSourceBackfill,
                         CallBeaconBlockHeader (root_String 2), CallExists 2],
               store := (stored [4, 2])(3 \<mapsto> record_of (block 3) (blobs_of 3))\<rparr>)"
  apply (simp add: backfillBlobs_def)
  apply (subst backfill_loop.simps)
  apply (simp add: archiver_def block_simps)
  apply (subst persist_new_block[where h = "block 3" and bs = "blobs_of 3"])
  apply (simp_all add: stub_simps stored_def emit_def)
  apply (subst backfill_loop.simps)
  apply (simp add: archiver_def block_simps)
  apply (subst persist_known_block[where h = "block 2"])
  apply (simp_all add: stub_simps stored_def emit_def)
  apply (subst backfill_loop.simps)
  apply (simp add: Let_def)
  done

theorem backfill_persists_chain_to_origin_witness:
  "backfillBlobs (archiver 1) (stub_world (stored [4]) []) (block 4) =
     Some (ReachedOrigin, block 1,
           (stub_world (stored [4]) [])
             \<lparr>trace := walk_trace BlockSourceBackfill (root_String 3) chain_3_1,
               store := walk_store (stored [4]) chain_3_1\<rparr>)
   \<and> header_requests (walk_trace BlockSourceBackfill (root_String 3) chain_3_1) = 3
   \<and> writes (walk_trace BlockSourceBackfill (root_String 3) chain_3_1) = 3
   \<and> dom (walk_store (stored [4]) chain_3_1) - dom (stored [4]) = {3, 2, 1}
   \<and> (\<exists>w'. backfillBlobs (archiver 1) (stub_world (stored [4, 2]) []) (block 4) =
           Some (BackfillComplete, block 2, w') \<and>
         (\<exists>w1 b. persistBlobsForBlockToS3 (archiver 1) w1 b = (Inr (block 2, True), w')))"
proof -
  note T = backfill_persists_chain_to_origin
      [of "stub_world (stored [4]) []" "block 4" chain_3_1 3 "archiver 1"]
  have 1: "backfillBlobs (archiver 1) (stub_world (stored [4]) []) (block 4) =
     Some (ReachedOrigin, block 1,
           (stub_world (stored [4]) [])
             \<lparr>trace := walk_trace BlockSourceBackfill (root_String 3) chain_3_1,
               store := walk_store (stored [4]) chain_3_1\<rparr>)
   \<and> header_requests (walk_trace BlockSourceBackfill (root_String 3) chain_3_1) = 3
   \<and> writes (walk_trace BlockSourceBackfill (root_String 3) chain_3_1) = 3
   \<and> dom (walk_store (stored [4]) chain_3_1) - dom (stored [4]) = {3, 2, 1}"
    using T[THEN conjunct1]
    by (simp add: chain_3_1_def stub_simps stored_def archiver_def insert_commute)
  have 2: "\<exists>w'. backfillBlobs (archiver 1) (stub_world (stored [4, 2]) []) (block 4) =
           Some (BackfillComplete, block 2, w') \<and>
         (\<exists>w1 b. persistBlobsForBlockToS3 (archiver 1) w1 b = (Inr (block 2, True), w'))"
    using T[THEN conjunct2] backfill_meets_stored_block by blast
  from 1 2 show ?thesis by simp
qed

section \<open>Live tracking\<close>

lemma live_loop_error:
  "persistBlobsForBlockToS3 a w b = (Inl e, w1) \<Longrightarrow>
   live_loop a w start b = Some (LiveAborted, w1)"
  by (subst live_loop.simps) simp

lemma live_loop_known:
  "persistBlobsForBlockToS3 a w b = (Inr (h, True), w1) \<Longrightarrow>
   live_loop a w start b = Some (LiveRefreshed, w1)"
  by (subst live_loop.simps) (simp add: Let_def)

lemma live_loop_new:
  "persistBlobsForBlockToS3 a w b = (Inr (h, False), w1) \<Longrightarrow>
   live_loop a w start b =
   live_loop a (emit w1 (CallRecordProcessedBlock BlockSourceLive))
     (if start = None then Some h else start) (root_String (ParentRoot h))"
  by (subst live_loop.simps) (simp add: Let_def)

lemma live_walk:
  assumes "faults w = []"
    and "chain_from w b c"
    and "distinct (map (\<lambda>x. Root (fst x)) c)"
    and "\<forall>x\<in>set c. store w (Root (fst x)) = None"
  shows "\<exists>start'. live_loop a w start b =
    live_loop a
      (w\<lparr>trace := trace w @ walk_trace BlockSourceLive b c,
         store := walk_store (store w) c\<rparr>) start' (walk_end b c)"
  using assms
proof (induction c arbitrary: w b start)
  case Nil
  then show ?case by (intro exI[of _ start]) simp
next
  case (Cons x c)
  obtain h bs where x: "x = (h, bs)" by (cases x)
  let ?w1 = "w\<lparr>trace := trace w @ persist_calls b h bs,
       store := (store w)(Root h \<mapsto> record_of h bs)\<rparr>"
  let ?w2 = "emit ?w1 (CallRecordProcessedBlock BlockSourceLive)"
  let ?s = "if start = None then Some h else start"
  from Cons.prems x have hd: "headers w b = Some h" "sidecars w (root_String (Root h)) = Some bs"
    and tl: "chain_from w (root_String (ParentRoot h)) c" by simp_all
  from Cons.prems x have new: "store w (Root h) = None" by simp
  have p: "persistBlobsForBlockToS3 a w b = (Inr (h, False), ?w1)"
    using persist_new_block[OF Cons.prems(1) hd(1) new hd(2)] .
  have step: "live_loop a w start b = live_loop a ?w2 ?s (root_String (ParentRoot h))"
    by (rule live_loop_new[OF p])
  have "\<exists>start'. live_loop a ?w2 ?s (root_String (ParentRoot h)) =
    live_loop a
      (?w2\<lparr>trace := trace ?w2 @ walk_trace BlockSourceLive (root_String (ParentRoot h)) c,
         store := walk_store (store ?w2) c\<rparr>) start' (walk_end (root_String (ParentRoot h)) c)"
  proof (rule Cons.IH)
    show "faults ?w2 = []" using Cons.prems(1) by (simp add: emit_def)
    show "chain_from ?w2 (root_String (ParentRoot h)) c" using tl by (simp add: emit_def)
    show "distinct (map (\<lambda>x. Root (fst x)) c)" using Cons.prems(3) by simp
    show "\<forall>x\<in>set c. store ?w2 (Root (fst x)) = None"
      using Cons.prems(3,4) x by (force simp add: emit_def)
  qed
  then show ?case unfolding step using x by (simp add: emit_def)
qed

lemma live_walk_then_known:
  assumes "faults w = []"
    and "chain_from w b c"
    and "distinct (map (\<lambda>x. Root (fst x)) c)"
    and "\<forall>x\<in>set c. store w (Root (fst x)) = None"
    and "headers w (walk_end b c) = Some k"
    and "store w (Root k) \<noteq> None"
  shows "live_loop a w start b =
    Some (LiveRefreshed,
      w\<lparr>trace := trace w @ walk_trace BlockSourceLive b c @
                  [CallBeaconBlockHeader (walk_end b c), CallExists (Root k)],
        store := walk_store (store w) c\<rparr>)"
proof -
  let ?w' = "w\<lparr>trace := trace w @ walk_trace BlockSourceLive b c,
         store := walk_store (store w) c\<rparr>"
  from live_walk[OF assms(1-4)] obtain start' where
    run: "live_loop a w start b = live_loop a ?w' start' (walk_end b c)" by blast
  have "Root k \<notin> Root ` fst ` set c" using assms(4,6) by auto
  then have "store ?w' (Root k) \<noteq> None" using assms(6) by (simp add: walk_store_other)
  then have "persistBlobsForBlockToS3 a ?w' (walk_end b c) =
    (Inr (k, True),
     ?w'\<lparr>trace := trace ?w' @ [CallBeaconBlockHeader (walk_end b c), CallExists (Root k)]\<rparr>)"
    using assms(1,5) by (intro persist_known_block) simp_all
  from live_loop_known[OF this] run show ?thesis by simp
qed

lemma live_walk_then_unresolved:
  assumes "faults w = []"
    and "chain_from w b c"
    and "distinct (map (\<lambda>x. Root (fst x)) c)"
    and "\<forall>x\<in>set c. store w (Root (fst x)) = None"
    and "headers w (walk_end b c) = None"
  shows "live_loop a w start b =
    Some (LiveAborted,
      w\<lparr>trace := trace w @ walk_trace BlockSourceLive b c @
                  [CallBeaconBlockHeader (walk_end b c)],
        store := walk_store (store w) c\<rparr>)"
proof -
  let ?w' = "w\<lparr>trace := trace w @ walk_trace BlockSourceLive b c,
         store := walk_store (store w) c\<rparr>"
  from live_walk[OF assms(1-4)] obtain start' where
    run: "live_loop a w start b = live_loop a ?w' start' (walk_end b c)" by blast
  have "persistBlobsForBlockToS3 a ?w' (walk_end b c) =
    (Inl NotFound, ?w'\<lparr>trace := trace ?w' @ [CallBeaconBlockHeader (walk_end b c)]\<rparr>)"
    using assms(1,5) by (simp add: persist_unfold)
  from live_loop_error[OF this] run show ?thesis by simp
qed

lemma live_loop_exits:
  "live_loop a w start b = Some y \<Longrightarrow>
     (fst y = LiveAborted \<and>
        (\<exists>w0 b0 e. persistBlobsForBlockToS3 a w0 b0 = (Inl e, snd y))) \<or>
     (fst y = LiveRefreshed \<and>
        (\<exists>w0 b0 h. persistBlobsForBlockToS3 a w0 b0 = (Inr (h, True), snd y)))"
proof (induction a w start b y rule: live_loop.raw_induct[rotated 1, consumes 1])
  case (1 f a w start b y)
  obtain r w1 where p: "persistBlobsForBlockToS3 a w b = (r, w1)"
    by (cases "persistBlobsForBlockToS3 a w b")
  show ?case
  proof (cases r)
    case (Inl e)
    with 1(2) p have "y = (LiveAborted, w1)" by simp
    with p Inl show ?thesis by auto
  next
    case (Inr hx)
    obtain h ex where hx: "hx = (h, ex)" by (cases hx)
    show ?thesis
    proof (cases ex)
      case True
      with 1(2) p Inr hx have "y = (LiveRefreshed, w1)" by (simp add: Let_def)
      with p Inr hx True show ?thesis by auto
    next
      case False
      with 1(2) p Inr hx
      have "f a (emit w1 (CallRecordProcessedBlock BlockSourceLive))
              (if start = None then Some h else start) (root_String (ParentRoot h)) = Some y"
        by (simp add: Let_def)
      from 1(1)[OF this] show ?thesis .
    qed
  qed
qed

lemma live_loop_origin_mono:
  "live_loop a w start b = Some y \<Longrightarrow> live_loop (a\<lparr>OriginBlock := origin\<rparr>) w start b = Some y"
proof (induction a w start b y rule: live_loop.raw_induct[rotated 1, consumes 1])
  case (1 f a w start b y)
  have same: "persistBlobsForBlockToS3 (a\<lparr>OriginBlock := origin\<rparr>) w b =
              persistBlobsForBlockToS3 a w b"
    by (simp add: persistBlobsForBlockToS3_def)
  obtain r w1 where p: "persistBlobsForBlockToS3 a w b = (r, w1)"
    by (cases "persistBlobsForBlockToS3 a w b")
  show ?case
  proof (cases r)
    case (Inl e)
    with 1(2) p same show ?thesis by (subst live_loop.simps) simp
  next
    case (Inr hx)
    obtain h ex where hx: "hx = (h, ex)" by (cases hx)
    show ?thesis
    proof (cases ex)
      case True
      with 1(2) p Inr hx same show ?thesis by (subst live_loop.simps) (simp add: Let_def)
    next
      case False
      with 1(2) p Inr hx
      have "f a (emit w1 (CallRecordProcessedBlock BlockSourceLive))
              (if start = None then Some h else start) (root_String (ParentRoot h)) = Some y"
        by (simp add: Let_def)
      from 1(1)[OF this] False p Inr hx same show ?thesis
        by (subst live_loop.simps) (simp add: Let_def)
    qed
  qed
qed

lemma live_loop_origin_irrelevant:
  "live_loop (a\<lparr>OriginBlock := origin\<rparr>) w start b = live_loop a w start b"
proof (cases "live_loop a w start b")
  case (Some y)
  then show ?thesis by (simp add: live_loop_origin_mono)
next
  case None
  show ?thesis
  proof (cases "live_loop (a\<lparr>OriginBlock := origin\<rparr>) w start b")
    case (Some y)
    from live_loop_origin_mono[OF this, of "OriginBlock a"] None show ?thesis by simp
  next
    case None
    with \<open>live_loop a w start b = None\<close> show ?thesis by simp
  qed
qed

text \<open>
  C3. One polling tick runs the inner loop from the identifier \<open>head\<close>. When the blocks
  of a chain \<open>c\<close> served from \<open>head\<close> are new and the block \<open>k\<close> after them is stored, an
  error-free poll stores exactly the blocks of \<open>c\<close>, in order, asks for \<open>k\<close>, finds it
  stored and stops there. In particular, when the parent of the head is stored and the
  head is not, the poll writes exactly one record, the head's, and its last calls are the
  header request and the existence check for the parent. Step by step: a fetch-and-persist
  that reports an existing block ends the loop; one that stored a new block is followed
  by the fetch-and-persist of that block's parent root; one that fails ends the loop at
  once, in the world the failed call left (no sleep, no second attempt), and the next
  tick of the ticker is what runs the loop again.
\<close>

theorem live_poll_walks_until_known_block:
  "processBlocksUntilKnownBlock a w = live_loop a w None ''head''
   \<and> (faults w = [] \<and> chain_from w ''head'' c \<and>
    distinct (map (\<lambda>x. Root (fst x)) c) \<and> (\<forall>x\<in>set c. store w (Root (fst x)) = None) \<and>
    headers w (walk_end ''head'' c) = Some k \<and> store w (Root k) \<noteq> None \<longrightarrow>
      processBlocksUntilKnownBlock a w =
        Some (LiveRefreshed,
              w\<lparr>trace := trace w @ walk_trace BlockSourceLive ''head'' c @
                          [CallBeaconBlockHeader (walk_end ''head'' c), CallExists (Root k)],
                store := walk_store (store w) c\<rparr>))
   \<and> (faults w = [] \<and> headers w ''head'' = Some h \<and> store w (Root h) = None \<and>
      sidecars w (root_String (Root h)) = Some bs \<and>
      headers w (root_String (ParentRoot h)) = Some p \<and> store w (Root p) \<noteq> None \<longrightarrow>
        (\<exists>w'. processBlocksUntilKnownBlock a w = Some (LiveRefreshed, w') \<and>
              trace w' = trace w @ persist_calls ''head'' h bs @
                         [CallRecordProcessedBlock BlockSourceLive,
                          CallBeaconBlockHeader (root_String (ParentRoot h)),
                          CallExists (Root p)] \<and>
              store w' = (store w)(Root h \<mapsto> record_of h bs) \<and>
              writes (trace w') = writes (trace w) + 1))
   \<and> (persistBlobsForBlockToS3 a w b = (Inr (h, True), w1) \<longrightarrow>
        live_loop a w start b = Some (LiveRefreshed, w1))
   \<and> (persistBlobsForBlockToS3 a w b = (Inr (h, False), w1) \<longrightarrow>
        live_loop a w start b =
          live_loop a (emit w1 (CallRecordProcessedBlock BlockSourceLive))
            (if start = None then Some h else start) (root_String (ParentRoot h)))
   \<and> (persistBlobsForBlockToS3 a w b = (Inl e, w1) \<longrightarrow>
        live_loop a w start b = Some (LiveAborted, w1))
   \<and> (processBlocksUntilKnownBlock a w = Some (x, w2) \<longrightarrow>
        trackLatestBlocks a w (TickerC # evs) = trackLatestBlocks a w2 evs)"
proof (intro conjI impI)
  show "processBlocksUntilKnownBlock a w = live_loop a w None ''head''"
    by (simp add: processBlocksUntilKnownBlock_def)
next
  assume "faults w = [] \<and> chain_from w ''head'' c \<and>
    distinct (map (\<lambda>x. Root (fst x)) c) \<and> (\<forall>x\<in>set c. store w (Root (fst x)) = None) \<and>
    headers w (walk_end ''head'' c) = Some k \<and> store w (Root k) \<noteq> None"
  then show "processBlocksUntilKnownBlock a w =
        Some (LiveRefreshed,
              w\<lparr>trace := trace w @ walk_trace BlockSourceLive ''head'' c @
                          [CallBeaconBlockHeader (walk_end ''head'' c), CallExists (Root k)],
                store := walk_store (store w) c\<rparr>)"
    unfolding processBlocksUntilKnownBlock_def by (intro live_walk_then_known) simp_all
next
  assume h: "faults w = [] \<and> headers w ''head'' = Some h \<and> store w (Root h) = None \<and>
      sidecars w (root_String (Root h)) = Some bs \<and>
      headers w (root_String (ParentRoot h)) = Some p \<and> store w (Root p) \<noteq> None"
  have "live_loop a w None ''head'' =
    Some (LiveRefreshed,
      w\<lparr>trace := trace w @ walk_trace BlockSourceLive ''head'' [(h, bs)] @
                  [CallBeaconBlockHeader (walk_end ''head'' [(h, bs)]), CallExists (Root p)],
        store := walk_store (store w) [(h, bs)]\<rparr>)"
    using h by (intro live_walk_then_known) simp_all
  then show "\<exists>w'. processBlocksUntilKnownBlock a w = Some (LiveRefreshed, w') \<and>
              trace w' = trace w @ persist_calls ''head'' h bs @
                         [CallRecordProcessedBlock BlockSourceLive,
                          CallBeaconBlockHeader (root_String (ParentRoot h)),
                          CallExists (Root p)] \<and>
              store w' = (store w)(Root h \<mapsto> record_of h bs) \<and>
              writes (trace w') = writes (trace w) + 1"
    by (simp add: processBlocksUntilKnownBlock_def writes_def persist_calls_def)
next
  assume "persistBlobsForBlockToS3 a w b = (Inr (h, True), w1)"
  then show "live_loop a w start b = Some (LiveRefreshed, w1)" by (rule live_loop_known)
next
  assume "persistBlobsForBlockToS3 a w b = (Inr (h, False), w1)"
  then show "live_loop a w start b =
          live_loop a (emit w1 (CallRecordProcessedBlock BlockSourceLive))
            (if start = None then Some h else start) (root_String (ParentRoot h))"
    by (rule live_loop_new)
next
  assume "persistBlobsForBlockToS3 a w b = (Inl e, w1)"
  then show "live_loop a w start b = Some (LiveAborted, w1)" by (rule live_loop_error)
next
  assume "processBlocksUntilKnownBlock a w = Some (x, w2)"
  then show "trackLatestBlocks a w (TickerC # evs) = trackLatestBlocks a w2 evs"
    by (simp add: trackLatestBlocks_def)
qed

theorem live_poll_walks_until_known_block_witness:
  "processBlocksUntilKnownBlock (archiver 1) (stub_world (stored [3]) []) =
     Some (LiveRefreshed,
           (stub_world (stored [3]) [])
             \<lparr>trace := persist_calls ''head'' (block 4) (blobs_of 4) @
                        [CallRecordProcessedBlock BlockSourceLive,
                         CallBeaconBlockHeader (root_String 3), CallExists 3],
               store := (stored [3])(4 \<mapsto> record_of (block 4) (blobs_of 4))\<rparr>)
   \<and> (\<exists>w'. processBlocksUntilKnownBlock (archiver 1) (stub_world (stored [3]) []) =
             Some (LiveRefreshed, w') \<and>
           store w' = (stored [3])(4 \<mapsto> record_of (block 4) (blobs_of 4)) \<and>
           writes (trace w') = 1)
   \<and> processBlocksUntilKnownBlock (archiver 1) (stub_world (stored []) [True]) =
     Some (LiveAborted,
           (stub_world (stored []) [True])
             \<lparr>trace := [CallBeaconBlockHeader ''head''], faults := []\<rparr>)
   \<and> trackLatestBlocks (archiver 1) (stub_world (stored []) [True]) [TickerC, StopCh] =
     Some (Returned None
           ((stub_world (stored []) [True])
             \<lparr>trace := [CallBeaconBlockHeader ''head''], faults := []\<rparr>))
   \<and> live_loop (archiver 1) (stub_world (stored [4]) []) None ''head'' =
     Some (LiveRefreshed,
           (stub_world (stored [4]) [])
             \<lparr>trace := [CallBeaconBlockHeader ''head'', CallExists 4]\<rparr>)
   \<and> live_loop (archiver 1) (stub_world (stored [3]) []) None ''head'' =
     live_loop (archiver 1)
       (emit ((stub_world (stored [3]) [])
                \<lparr>trace := persist_calls ''head'' (block 4) (blobs_of 4),
                  store := (stored [3])(4 \<mapsto> record_of (block 4) (blobs_of 4))\<rparr>)
             (CallRecordProcessedBlock BlockSourceLive))
       (Some (block 4)) (root_String 3)"
proof -
  let ?A = "archiver 1"
  let ?W = "stub_world (stored [3]) []"
  let ?W1 = "?W\<lparr>trace := persist_calls ''head'' (block 4) (blobs_of 4),
                 store := (stored [3])(4 \<mapsto> record_of (block 4) (blobs_of 4))\<rparr>"
  let ?K = "stub_world (stored [4]) []"
  let ?K1 = "?K\<lparr>trace := [CallBeaconBlockHeader ''head'', CallExists 4]\<rparr>"
  let ?F = "stub_world (stored []) [True]"
  have known: "persistBlobsForBlockToS3 ?A ?K ''head'' = (Inr (block 4, True), ?K1)"
    using persist_known_block[of ?K "''head''" "block 4" ?A]
    by (simp add: stub_simps stored_def)
  have new: "persistBlobsForBlockToS3 ?A ?W ''head'' = (Inr (block 4, False), ?W1)"
    using persist_new_block[of ?W "''head''" "block 4" "blobs_of 4" ?A]
    by (simp add: stub_simps stored_def)
  note K = live_poll_walks_until_known_block
    [where a = ?A and w = ?K and b = "''head''" and h = "block 4" and start = None
       and ?w1.0 = ?K1]
  note N = live_poll_walks_until_known_block
    [where a = ?A and w = ?W and b = "''head''" and h = "block 4" and start = None
       and ?w1.0 = ?W1]
  have 5: "live_loop ?A ?K None ''head'' = Some (LiveRefreshed, ?K1)"
    using K[THEN conjunct2, THEN conjunct2, THEN conjunct2, THEN conjunct1] known by simp
  have 6: "live_loop ?A ?W None ''head'' =
     live_loop ?A (emit ?W1 (CallRecordProcessedBlock BlockSourceLive))
       (Some (block 4)) (root_String 3)"
    using N[THEN conjunct2, THEN conjunct2, THEN conjunct2, THEN conjunct2, THEN conjunct1]
      new by (simp add: block_simps)
  let ?F1 = "?F\<lparr>trace := [CallBeaconBlockHeader ''head''], faults := []\<rparr>"
  have fail: "persistBlobsForBlockToS3 ?A ?F ''head'' = (Inl Unavailable, ?F1)"
    by (simp add: persist_unfold stub_simps fault_at_def)
  note T = live_poll_walks_until_known_block
    [where a = ?A and w = ?W and c = "[(block 4, blobs_of 4)]" and k = "block 3"]
  note U = live_poll_walks_until_known_block
    [where a = ?A and w = ?F and b = "''head''" and start = None and e = Unavailable
       and ?w1.0 = ?F1 and x = LiveAborted and ?w2.0 = ?F1 and evs = "[StopCh]"]
  have 1: "processBlocksUntilKnownBlock ?A ?W =
     Some (LiveRefreshed,
           ?W\<lparr>trace := persist_calls ''head'' (block 4) (blobs_of 4) @
                        [CallRecordProcessedBlock BlockSourceLive,
                         CallBeaconBlockHeader (root_String 3), CallExists 3],
               store := (stored [3])(4 \<mapsto> record_of (block 4) (blobs_of 4))\<rparr>)"
    using T[THEN conjunct2, THEN conjunct1]
    by (simp add: stub_simps stored_def)
  note V = live_poll_walks_until_known_block
    [where a = ?A and w = ?W and h = "block 4" and bs = "blobs_of 4" and p = "block 3"]
  have 2: "\<exists>w'. processBlocksUntilKnownBlock ?A ?W = Some (LiveRefreshed, w') \<and>
           store w' = (stored [3])(4 \<mapsto> record_of (block 4) (blobs_of 4)) \<and>
           writes (trace w') = 1"
    using V[THEN conjunct2, THEN conjunct2, THEN conjunct1]
    by (auto simp add: stub_simps stored_def writes_def)
  note U0 = U[THEN conjunct1]
  note U5 = U[THEN conjunct2, THEN conjunct2, THEN conjunct2, THEN conjunct2,
              THEN conjunct2, THEN conjunct1]
  note U6 = U[THEN conjunct2, THEN conjunct2, THEN conjunct2, THEN conjunct2,
              THEN conjunct2, THEN conjunct2]
  have 3: "processBlocksUntilKnownBlock ?A ?F = Some (LiveAborted, ?F1)"
    using U0 U5 fail by simp
  have "trackLatestBlocks ?A ?F1 [StopCh] = Some (Returned None ?F1)"
    by (simp add: trackLatestBlocks_def archiver_def Second_def)
  with U6 3 have 4: "trackLatestBlocks ?A ?F [TickerC, StopCh] = Some (Returned None ?F1)"
    by simp
  from 1 2 3 4 5 6 show ?thesis by blast
qed

text \<open>
  C10. The inner loop of a poll never looks at the configured origin hash: changing
  \<open>OriginBlock\<close> changes nothing in what a poll does, and a poll that returns does so
  only after a fetch-and-persist that failed or one that reported an existing block.
  So when none of the blocks of the chain \<open>c\<close> served from \<open>head\<close> is stored, an
  error-free poll stores all of \<open>c\<close>, however long \<open>c\<close> is and wherever the origin hash
  lies in it, and goes on with the parent of its last block; if the beacon client cannot
  resolve that parent, the poll ends there with every block of \<open>c\<close> stored. Backfill, in
  contrast, returns at once on a block that carries the origin hash.
\<close>

theorem live_poll_ignores_origin:
  "processBlocksUntilKnownBlock (a\<lparr>OriginBlock := origin\<rparr>) w =
     processBlocksUntilKnownBlock a w
   \<and> (processBlocksUntilKnownBlock a w = Some (x, w') \<longrightarrow>
        (x = LiveAborted \<and>
           (\<exists>w0 b e. persistBlobsForBlockToS3 a w0 b = (Inl e, w'))) \<or>
        (x = LiveRefreshed \<and>
           (\<exists>w0 b h. persistBlobsForBlockToS3 a w0 b = (Inr (h, True), w'))))
   \<and> (faults w = [] \<and> chain_from w ''head'' c \<and>
      distinct (map (\<lambda>x. Root (fst x)) c) \<and> (\<forall>x\<in>set c. store w (Root (fst x)) = None) \<longrightarrow>
        (\<exists>start'. processBlocksUntilKnownBlock a w =
           live_loop a
             (w\<lparr>trace := trace w @ walk_trace BlockSourceLive ''head'' c,
                store := walk_store (store w) c\<rparr>)
             start' (walk_end ''head'' c)) \<and>
        (headers w (walk_end ''head'' c) = None \<longrightarrow>
           processBlocksUntilKnownBlock a w =
             Some (LiveAborted,
                   w\<lparr>trace := trace w @ walk_trace BlockSourceLive ''head'' c @
                               [CallBeaconBlockHeader (walk_end ''head'' c)],
                     store := walk_store (store w) c\<rparr>)))
   \<and> (Root seed = OriginBlock a \<longrightarrow> backfillBlobs a w seed = Some (ReachedOrigin, seed, w))"
proof (intro conjI impI)
  show "processBlocksUntilKnownBlock (a\<lparr>OriginBlock := origin\<rparr>) w =
     processBlocksUntilKnownBlock a w"
    by (simp add: processBlocksUntilKnownBlock_def live_loop_origin_irrelevant)
next
  assume "processBlocksUntilKnownBlock a w = Some (x, w')"
  then have "live_loop a w None ''head'' = Some (x, w')"
    by (simp add: processBlocksUntilKnownBlock_def)
  from live_loop_exits[OF this]
  show "(x = LiveAborted \<and>
           (\<exists>w0 b e. persistBlobsForBlockToS3 a w0 b = (Inl e, w'))) \<or>
        (x = LiveRefreshed \<and>
           (\<exists>w0 b h. persistBlobsForBlockToS3 a w0 b = (Inr (h, True), w')))"
    by simp
next
  assume h: "faults w = [] \<and> chain_from w ''head'' c \<and>
      distinct (map (\<lambda>x. Root (fst x)) c) \<and> (\<forall>x\<in>set c. store w (Root (fst x)) = None)"
  then show "\<exists>start'. processBlocksUntilKnownBlock a w =
           live_loop a
             (w\<lparr>trace := trace w @ walk_trace BlockSourceLive ''head'' c,
                store := walk_store (store w) c\<rparr>)
             start' (walk_end ''head'' c)"
    unfolding processBlocksUntilKnownBlock_def by (intro live_walk) simp_all
  assume "headers w (walk_end ''head'' c) = None"
  with h show "processBlocksUntilKnownBlock a w =
             Some (LiveAborted,
                   w\<lparr>trace := trace w @ walk_trace BlockSourceLive ''head'' c @
                               [CallBeaconBlockHeader (walk_end ''head'' c)],
                     store := walk_store (store w) c\<rparr>)"
    unfolding processBlocksUntilKnownBlock_def by (intro live_walk_then_unresolved) simp_all
next
  assume "Root seed = OriginBlock a"
  then show "backfillBlobs a w seed = Some (ReachedOrigin, seed, w)"
    unfolding backfillBlobs_def by (subst backfill_loop.simps) simp
qed

theorem live_poll_ignores_origin_witness:
  "processBlocksUntilKnownBlock (archiver 3) (stub_world (stored []) []) =
     Some (LiveAborted,
           (stub_world (stored []) [])
             \<lparr>trace := walk_trace BlockSourceLive ''head'' chain_4_1 @
                        [CallBeaconBlockHeader (root_String 0)],
               store := walk_store (stored []) chain_4_1\<rparr>)
   \<and> dom (walk_store (stored []) chain_4_1) = {4, 3, 2, 1}
   \<and> backfillBlobs (archiver 3) (stub_world (stored []) []) (block 3) =
       Some (ReachedOrigin, block 3, stub_world (stored []) [])
   \<and> processBlocksUntilKnownBlock (archiver 1) (stub_world (stored []) []) =
     processBlocksUntilKnownBlock (archiver 3) (stub_world (stored []) [])
   \<and> (\<exists>w0 b e. persistBlobsForBlockToS3 (archiver 3) w0 b =
         (Inl e,
          (stub_world (stored []) [])
             \<lparr>trace := walk_trace BlockSourceLive ''head'' chain_4_1 @
                        [CallBeaconBlockHeader (root_String 0)],
               store := walk_store (stored []) chain_4_1\<rparr>))"
proof -
  let ?W = "stub_world (stored []) []"
  note T = live_poll_ignores_origin
    [where a = "archiver 3" and w = ?W and c = chain_4_1 and seed = "block 3" and origin = 1]
  have 1: "processBlocksUntilKnownBlock (archiver 3) ?W =
     Some (LiveAborted,
           ?W\<lparr>trace := walk_trace BlockSourceLive ''head'' chain_4_1 @
                        [CallBeaconBlockHeader (root_String 0)],
               store := walk_store (stored []) chain_4_1\<rparr>)"
    using T[THEN conjunct2, THEN conjunct2, THEN conjunct1]
    by (simp add: chain_4_1_def chain_3_1_def stub_simps stored_def)
  have 2: "dom (walk_store (stored []) chain_4_1) = {4, 3, 2, 1}"
    by (auto simp add: dom_walk_store chain_4_1_def chain_3_1_def block_simps stored_def)
  have 3: "backfillBlobs (archiver 3) ?W (block 3) = Some (ReachedOrigin, block 3, ?W)"
    using T[THEN conjunct2, THEN conjunct2, THEN conjunct2]
    by (simp add: archiver_def block_simps)
  have 4: "processBlocksUntilKnownBlock (archiver 1) ?W =
           processBlocksUntilKnownBlock (archiver 3) ?W"
    using T[THEN conjunct1] by (simp add: archiver_def)
  let ?W' = "?W\<lparr>trace := walk_trace BlockSourceLive ''head'' chain_4_1 @
                        [CallBeaconBlockHeader (root_String 0)],
               store := walk_store (stored []) chain_4_1\<rparr>"
  note E = live_poll_ignores_origin
    [where a = "archiver 3" and w = ?W and x = LiveAborted and w' = ?W']
  have 5: "\<exists>w0 b e. persistBlobsForBlockToS3 (archiver 3) w0 b = (Inl e, ?W')"
    using E[THEN conjunct2, THEN conjunct1] 1 by simp
  from 1 2 3 4 5 show ?thesis by blast
qed

section \<open>Backfill after an error\<close>

lemma slept_append [simp]: "slept (t @ u) = slept t + slept u"
  by (simp add: slept_def)

lemma slept_zero: "\<forall>c\<in>set t. sleep_of c = 0 \<Longrightarrow> slept t = 0"
  by (induction t) (simp_all add: slept_def)

lemma slept_persist_calls [simp]: "slept (take n (persist_calls b h bs)) = 0"
proof (rule slept_zero)
  have "\<forall>c\<in>set (persist_calls b h bs). sleep_of c = 0"
    by (simp add: persist_calls_def)
  then show "\<forall>c\<in>set (take n (persist_calls b h bs)). sleep_of c = 0"
    by (meson in_set_takeD)
qed

lemma slept_Cons [simp]: "slept (c # t) = sleep_of c + slept t"
  by (simp add: slept_def)

lemma slept_Nil [simp]: "slept [] = 0"
  by (simp add: slept_def)

lemma slept_persist_calls_all [simp]: "slept (persist_calls b h bs) = 0"
  by (simp add: persist_calls_def)

lemma persist_fails_at:
  assumes "k < 4" "faults w = replicate k False @ [True]"
    "headers w b = Some p" "store w (Root p) = None"
    "sidecars w (root_String (Root p)) = Some bs"
  shows "persistBlobsForBlockToS3 a w b =
    (Inl Unavailable,
     w\<lparr>trace := trace w @ take (Suc k) (persist_calls b p bs), faults := []\<rparr>)"
proof -
  from assms(1) consider "k = 0" | "k = 1" | "k = 2" | "k = 3" by linarith
  then show ?thesis
  proof cases
    case 1
    with assms show ?thesis
      by (simp add: persist_unfold fault_at_def persist_calls_def)
  next
    case 2
    with assms show ?thesis
      by (simp add: persist_unfold fault_at_def persist_calls_def)
  next
    case 3
    with assms show ?thesis
      by (simp add: persist_unfold fault_at_def persist_calls_def eval_nat_numeral)
  next
    case 4
    with assms show ?thesis
      by (simp add: persist_unfold fault_at_def persist_calls_def eval_nat_numeral record_of_def)
  qed
qed

lemma backfill_loop_error:
  assumes "Root cur \<noteq> OriginBlock a"
    and "persistBlobsForBlockToS3 a w (root_String (ParentRoot cur)) = (Inl e, w1)"
  shows "backfill_loop a w cur False =
    backfill_loop a (emit w1 (CallSleep backfillErrorRetryInterval)) cur False"
  using assms by (subst backfill_loop.simps) simp

lemma backfill_loop_new:
  assumes "Root cur \<noteq> OriginBlock a"
    and "persistBlobsForBlockToS3 a w (root_String (ParentRoot cur)) = (Inr (h, False), w1)"
  shows "backfill_loop a w cur False =
    backfill_loop a (emit w1 (CallRecordProcessedBlock BlockSourceBackfill)) h False"
  using assms by (subst backfill_loop.simps) simp

lemma backfill_retry_once:
  assumes "k < 4" "faults w = replicate k False @ [True]"
    and "Root cur \<noteq> OriginBlock a"
    and "headers w (root_String (ParentRoot cur)) = Some p"
    and "store w (Root p) = None"
    and "sidecars w (root_String (Root p)) = Some bs"
  shows "backfill_loop a w cur False =
    backfill_loop a
      (w\<lparr>trace := trace w @ take (Suc k) (persist_calls (root_String (ParentRoot cur)) p bs) @
                  [CallSleep backfillErrorRetryInterval] @
                  persist_calls (root_String (ParentRoot cur)) p bs @
                  [CallRecordProcessedBlock BlockSourceBackfill],
         store := (store w)(Root p \<mapsto> record_of p bs),
         faults := []\<rparr>) p False"
proof -
  let ?b = "root_String (ParentRoot cur)"
  let ?w1 = "w\<lparr>trace := trace w @ take (Suc k) (persist_calls ?b p bs), faults := []\<rparr>"
  let ?w2 = "emit ?w1 (CallSleep backfillErrorRetryInterval)"
  let ?w3 = "?w2\<lparr>trace := trace ?w2 @ persist_calls ?b p bs,
                  store := (store ?w2)(Root p \<mapsto> record_of p bs)\<rparr>"
  have 1: "persistBlobsForBlockToS3 a w ?b = (Inl Unavailable, ?w1)"
    using assms by (intro persist_fails_at) simp_all
  have 2: "persistBlobsForBlockToS3 a ?w2 ?b = (Inr (p, False), ?w3)"
    using assms by (intro persist_new_block) (simp_all add: emit_def)
  have eq: "emit ?w3 (CallRecordProcessedBlock BlockSourceBackfill) =
    w\<lparr>trace := trace w @ take (Suc k) (persist_calls ?b p bs) @
                  [CallSleep backfillErrorRetryInterval] @ persist_calls ?b p bs @
                  [CallRecordProcessedBlock BlockSourceBackfill],
         store := (store w)(Root p \<mapsto> record_of p bs),
         faults := []\<rparr>"
    by (simp add: emit_def)
  have "backfill_loop a w cur False = backfill_loop a ?w2 cur False"
    by (rule backfill_loop_error[OF assms(3) 1])
  also have "\<dots> = backfill_loop a (emit ?w3 (CallRecordProcessedBlock BlockSourceBackfill)) p False"
    by (rule backfill_loop_new[OF assms(3) 2])
  finally show ?thesis unfolding eq .
qed

lemma chain_from_faults [simp]:
  "chain_from (w\<lparr>faults := fs\<rparr>) b c = chain_from w b c"
  by (induction w b c rule: chain_from.induct) simp_all

lemma persist_new_block_gen:
  assumes "\<forall>i<4. \<not> fault_at w i" "headers w b = Some h" "store w (Root h) = None"
    "sidecars w (root_String (Root h)) = Some bs"
  shows "persistBlobsForBlockToS3 a w b =
    (Inr (h, False),
     w\<lparr>trace := trace w @ persist_calls b h bs,
       store := (store w)(Root h \<mapsto> record_of h bs),
       faults := drop 4 (faults w)\<rparr>)"
proof -
  from assms(1) have "\<not> fault_at w 0" "\<not> fault_at w (Suc 0)" "\<not> fault_at w (Suc (Suc 0))"
    "\<not> fault_at w (Suc (Suc (Suc 0)))" by simp_all
  with assms(2-4) show ?thesis
    by (simp add: persist_unfold persist_calls_def record_of_def eval_nat_numeral drop_Suc)
qed

lemma chain_from_append:
  "chain_from w b (c1 @ c2) \<longleftrightarrow> chain_from w b c1 \<and> chain_from w (walk_end b c1) c2"
  by (induction w b c1 rule: chain_from.induct) auto

lemma walk_end_last:
  "walk_end (root_String (ParentRoot cur)) c =
   root_String (ParentRoot (last (cur # map fst c)))"
  by (induction c arbitrary: cur) auto

lemma walk_store_append:
  "walk_store s (c1 @ c2) = walk_store (walk_store s c1) c2"
  by (induction c1 arbitrary: s) auto

lemma walk_trace_append:
  "walk_trace src b (c1 @ c2) = walk_trace src b c1 @ walk_trace src (walk_end b c1) c2"
  by (induction src b c1 rule: walk_trace.induct) simp_all

lemma backfill_prefix_walk:
  assumes "\<forall>i<4 * length c. \<not> fault_at w i"
    and "chain_from w (root_String (ParentRoot cur)) c"
    and "distinct (map (\<lambda>x. Root (fst x)) c)"
    and "\<forall>x\<in>set c. store w (Root (fst x)) = None"
    and "\<forall>h\<in>set (butlast (cur # map fst c)). Root h \<noteq> OriginBlock a"
  shows "backfill_loop a w cur False =
    backfill_loop a
      (w\<lparr>trace := trace w @ walk_trace BlockSourceBackfill (root_String (ParentRoot cur)) c,
         store := walk_store (store w) c,
         faults := drop (4 * length c) (faults w)\<rparr>)
      (last (cur # map fst c)) False"
  using assms
proof (induction c arbitrary: w cur)
  case Nil
  then show ?case by simp
next
  case (Cons x c)
  obtain h bs where x: "x = (h, bs)" by (cases x)
  let ?b = "root_String (ParentRoot cur)"
  let ?w1 = "w\<lparr>trace := trace w @ persist_calls ?b h bs,
       store := (store w)(Root h \<mapsto> record_of h bs),
       faults := drop 4 (faults w)\<rparr>"
  let ?w2 = "emit ?w1 (CallRecordProcessedBlock BlockSourceBackfill)"
  from Cons.prems x have hd: "headers w ?b = Some h" "sidecars w (root_String (Root h)) = Some bs"
    and tl: "chain_from w (root_String (ParentRoot h)) c" by simp_all
  from Cons.prems x have new: "store w (Root h) = None" by simp
  from Cons.prems have notorigin: "Root cur \<noteq> OriginBlock a" by simp
  from Cons.prems(1) have nofault: "\<forall>i<4. \<not> fault_at w i" by simp
  have p: "persistBlobsForBlockToS3 a w ?b = (Inr (h, False), ?w1)"
    using persist_new_block_gen[OF nofault hd(1) new hd(2)] .
  have step: "backfill_loop a w cur False = backfill_loop a ?w2 h False"
    by (subst backfill_loop.simps) (simp add: notorigin p)
  have ih: "backfill_loop a ?w2 h False =
    backfill_loop a
      (?w2\<lparr>trace := trace ?w2 @ walk_trace BlockSourceBackfill (root_String (ParentRoot h)) c,
         store := walk_store (store ?w2) c,
         faults := drop (4 * length c) (faults ?w2)\<rparr>)
      (last (h # map fst c)) False"
  proof (rule Cons.IH)
    show "\<forall>i<4 * length c. \<not> fault_at ?w2 i"
    proof (intro allI impI)
      fix i assume "i < 4 * length c"
      then have "4 + i < 4 * length (x # c)" by simp
      with Cons.prems(1) have "\<not> fault_at w (4 + i)" by blast
      then show "\<not> fault_at ?w2 i" by (auto simp add: emit_def fault_at_def)
    qed
    show "chain_from ?w2 (root_String (ParentRoot h)) c"
      using tl by (simp add: emit_def)
    show "distinct (map (\<lambda>x. Root (fst x)) c)" using Cons.prems(3) by simp
    show "\<forall>x\<in>set c. store ?w2 (Root (fst x)) = None"
      using Cons.prems(3,4) x by (force simp add: emit_def)
    show "\<forall>h\<in>set (butlast (h # map fst c)). Root h \<noteq> OriginBlock a"
      using Cons.prems(5) x by (simp split: if_splits)
  qed
  have eq: "?w2\<lparr>trace := trace ?w2 @ walk_trace BlockSourceBackfill (root_String (ParentRoot h)) c,
         store := walk_store (store ?w2) c,
         faults := drop (4 * length c) (faults ?w2)\<rparr> =
    w\<lparr>trace := trace w @ walk_trace BlockSourceBackfill ?b (x # c),
         store := walk_store (store w) (x # c),
         faults := drop (4 * length (x # c)) (faults w)\<rparr>"
    using x by (simp add: emit_def add.commute)
  show ?case unfolding step ih eq using x by simp
qed


lemma backfill_one_fault_run:
  assumes "k < 4"
    and "faults w = replicate (4 * length c1 + k) False @ [True]"
    and "chain_from w (root_String (ParentRoot seed)) (c1 @ (p, bs) # c2)"
    and "distinct (map (\<lambda>x. Root (fst x)) (c1 @ (p, bs) # c2))"
    and "\<forall>x\<in>set (c1 @ (p, bs) # c2). store w (Root (fst x)) = None"
    and "\<forall>h\<in>set (butlast (seed # map fst (c1 @ (p, bs) # c2))). Root h \<noteq> OriginBlock a"
    and "Root (last (seed # map fst (c1 @ (p, bs) # c2))) = OriginBlock a"
  shows "backfillBlobs a w seed =
    Some (ReachedOrigin, last (p # map fst c2),
      w\<lparr>trace := trace w @
           walk_trace BlockSourceBackfill (root_String (ParentRoot seed)) c1 @
           retry_trace k (walk_end (root_String (ParentRoot seed)) c1) p bs @
           walk_trace BlockSourceBackfill (root_String (ParentRoot p)) c2,
        store := walk_store (store w) (c1 @ (p, bs) # c2),
        faults := []\<rparr>)"
proof -
  let ?b = "root_String (ParentRoot seed)"
  let ?cur = "last (seed # map fst c1)"
  let ?w1 = "w\<lparr>trace := trace w @ walk_trace BlockSourceBackfill ?b c1,
         store := walk_store (store w) c1,
         faults := drop (4 * length c1) (faults w)\<rparr>"
  let ?w2 = "?w1\<lparr>trace := trace ?w1 @ retry_trace k (root_String (ParentRoot ?cur)) p bs,
         store := (store ?w1)(Root p \<mapsto> record_of p bs),
         faults := []\<rparr>"
  let ?w3 = "?w2\<lparr>trace := trace ?w2 @
                      walk_trace BlockSourceBackfill (root_String (ParentRoot p)) c2,
                  store := walk_store (store ?w2) c2\<rparr>"
  have we: "walk_end ?b c1 = root_String (ParentRoot ?cur)" by (rule walk_end_last)
  from assms(3) have ch1: "chain_from w ?b c1"
    and chp: "headers w (root_String (ParentRoot ?cur)) = Some p"
             "sidecars w (root_String (Root p)) = Some bs"
    and ch2: "chain_from w (root_String (ParentRoot p)) c2"
    by (simp_all add: chain_from_append we)
  have split: "butlast (seed # map fst (c1 @ (p, bs) # c2)) =
               (seed # map fst c1) @ butlast (p # map fst c2)"
    by (simp add: butlast_append)
  have before: "\<forall>h\<in>set (seed # map fst c1). Root h \<noteq> OriginBlock a"
    using assms(6) unfolding split by auto
  have origin1: "\<forall>h\<in>set (butlast (seed # map fst c1)). Root h \<noteq> OriginBlock a"
    using before by (meson in_set_butlastD)
  have "?cur \<in> set (seed # map fst c1)" by (rule last_in_set) simp
  with before have origin_cur: "Root ?cur \<noteq> OriginBlock a" by blast
  have origin2: "\<forall>h\<in>set (butlast (p # map fst c2)). Root h \<noteq> OriginBlock a"
    using assms(6) unfolding split by auto
  have origin_last: "Root (last (p # map fst c2)) = OriginBlock a"
    using assms(7) by simp
  have nofault: "\<forall>i<4 * length c1. \<not> fault_at w i"
    using assms(2) by (simp add: fault_at_def nth_append)
  have 1: "backfill_loop a w seed False = backfill_loop a ?w1 ?cur False"
    using nofault ch1 assms(4,5) origin1 by (intro backfill_prefix_walk) simp_all
  have f1: "faults ?w1 = replicate k False @ [True]"
    using assms(2) by simp
  have notin: "Root p \<notin> Root ` fst ` set c1" using assms(4) by force
  have 2: "backfill_loop a ?w1 ?cur False = backfill_loop a ?w2 p False"
    using assms(1) f1 origin_cur chp assms(5) notin
    unfolding retry_trace_def
    by (intro backfill_retry_once) (simp_all add: walk_store_other)
  have 3: "backfill_loop a ?w2 p False = Some (ReachedOrigin, last (p # map fst c2), ?w3)"
  proof (rule backfill_walk)
    show "faults ?w2 = []" by simp
    show "chain_from ?w2 (root_String (ParentRoot p)) c2" using ch2 by simp
    show "distinct (map (\<lambda>x. Root (fst x)) c2)" using assms(4) by simp
    show "\<forall>x\<in>set c2. store ?w2 (Root (fst x)) = None"
    proof
      fix x assume x: "x \<in> set c2"
      with assms(4) have "Root (fst x) \<noteq> Root p" "Root (fst x) \<notin> Root ` fst ` set c1"
        by force+
      moreover from x assms(5) have "store w (Root (fst x)) = None" by simp
      ultimately show "store ?w2 (Root (fst x)) = None" by (simp add: walk_store_other)
    qed
    show "\<forall>h\<in>set (butlast (p # map fst c2)). Root h \<noteq> OriginBlock a" by (rule origin2)
    show "Root (last (p # map fst c2)) = OriginBlock a" by (rule origin_last)
  qed
  have eq: "?w3 = w\<lparr>trace := trace w @
           walk_trace BlockSourceBackfill ?b c1 @
           retry_trace k (walk_end ?b c1) p bs @
           walk_trace BlockSourceBackfill (root_String (ParentRoot p)) c2,
        store := walk_store (store w) (c1 @ (p, bs) # c2),
        faults := []\<rparr>"
    by (simp add: we walk_store_append)
  show ?thesis unfolding backfillBlobs_def 1 2 3 eq ..
qed
lemma slept_walk_trace [simp]: "slept (walk_trace src b c) = 0"
  by (induction src b c rule: walk_trace.induct) simp_all

lemma slept_retry_trace [simp]: "slept (retry_trace k b p bs) = 5000000000"
  by (simp add: retry_trace_def backfillErrorRetryInterval_def Second_def)

text \<open>
  C4. When the fetch-and-persist of the parent of \<open>cur\<close> fails, the backfill loop goes on
  from the same \<open>cur\<close> after one \<^verbatim>\<open>time.Sleep\<close> of 5 seconds, and what it does next is
  the fetch-and-persist of the same parent root. Now let the ancestor chain up to the
  origin be \<open>c1\<close>, then the block \<open>p\<close>, then \<open>c2\<close>, none of it stored, and let exactly
  one call of the environment fail, during the first attempt on \<open>p\<close> (call \<open>k\<close> of that
  attempt: the header request is call 0, the blob request call 2). Then backfill returns
  at the origin with every block of the chain stored, \<open>p\<close> included; its calls are the
  walk over \<open>c1\<close>, the failed attempt on \<open>p\<close>, one sleep, the successful attempt on \<open>p\<close>
  and the walk over \<open>c2\<close>, and the time slept is exactly 5 seconds.
\<close>

theorem backfill_retries_same_parent:
  "(Root cur \<noteq> OriginBlock a \<and>
    persistBlobsForBlockToS3 a w (root_String (ParentRoot cur)) = (Inl e, w1) \<longrightarrow>
      backfill_loop a w cur False =
        backfill_loop a (emit w1 (CallSleep backfillErrorRetryInterval)) cur False \<and>
      backfill_loop a w cur False =
        (case persistBlobsForBlockToS3 a (emit w1 (CallSleep backfillErrorRetryInterval))
                (root_String (ParentRoot cur)) of
           (Inl e', w2) \<Rightarrow>
             backfill_loop a (emit w2 (CallSleep backfillErrorRetryInterval)) cur False
         | (Inr (current', alreadyExists'), w2) \<Rightarrow>
             backfill_loop a
               (if \<not> alreadyExists'
                then emit w2 (CallRecordProcessedBlock BlockSourceBackfill) else w2)
               current' alreadyExists'))
   \<and> backfillErrorRetryInterval = 5 * 1000000000
   \<and> (k < 4 \<and> faults w = replicate (4 * length c1 + k) False @ [True] \<and>
      chain_from w (root_String (ParentRoot seed)) (c1 @ (p, bs) # c2) \<and>
      distinct (map (\<lambda>x. Root (fst x)) (c1 @ (p, bs) # c2)) \<and>
      (\<forall>x\<in>set (c1 @ (p, bs) # c2). store w (Root (fst x)) = None) \<and>
      (\<forall>h\<in>set (butlast (seed # map fst (c1 @ (p, bs) # c2))). Root h \<noteq> OriginBlock a) \<and>
      Root (last (seed # map fst (c1 @ (p, bs) # c2))) = OriginBlock a \<longrightarrow>
        backfillBlobs a w seed =
          Some (ReachedOrigin, last (p # map fst c2),
                w\<lparr>trace := trace w @
                     walk_trace BlockSourceBackfill (root_String (ParentRoot seed)) c1 @
                     retry_trace k (walk_end (root_String (ParentRoot seed)) c1) p bs @
                     walk_trace BlockSourceBackfill (root_String (ParentRoot p)) c2,
                  store := walk_store (store w) (c1 @ (p, bs) # c2),
                  faults := []\<rparr>) \<and>
        walk_store (store w) (c1 @ (p, bs) # c2) (Root p) = Some (record_of p bs) \<and>
        dom (walk_store (store w) (c1 @ (p, bs) # c2)) - dom (store w) =
          Root ` fst ` set (c1 @ (p, bs) # c2) \<and>
        slept (walk_trace BlockSourceBackfill (root_String (ParentRoot seed)) c1 @
               retry_trace k (walk_end (root_String (ParentRoot seed)) c1) p bs @
               walk_trace BlockSourceBackfill (root_String (ParentRoot p)) c2) = 5000000000)"
proof (intro conjI impI)
  assume h: "Root cur \<noteq> OriginBlock a \<and>
    persistBlobsForBlockToS3 a w (root_String (ParentRoot cur)) = (Inl e, w1)"
  then show 1: "backfill_loop a w cur False =
        backfill_loop a (emit w1 (CallSleep backfillErrorRetryInterval)) cur False"
    by (intro backfill_loop_error) simp_all
  show "backfill_loop a w cur False =
        (case persistBlobsForBlockToS3 a (emit w1 (CallSleep backfillErrorRetryInterval))
                (root_String (ParentRoot cur)) of
           (Inl e', w2) \<Rightarrow>
             backfill_loop a (emit w2 (CallSleep backfillErrorRetryInterval)) cur False
         | (Inr (current', alreadyExists'), w2) \<Rightarrow>
             backfill_loop a
               (if \<not> alreadyExists'
                then emit w2 (CallRecordProcessedBlock BlockSourceBackfill) else w2)
               current' alreadyExists')"
    unfolding 1 using h by (subst backfill_loop.simps) simp
next
  show "backfillErrorRetryInterval = 5 * 1000000000"
    by (simp add: backfillErrorRetryInterval_def Second_def)
next
  assume h: "k < 4 \<and> faults w = replicate (4 * length c1 + k) False @ [True] \<and>
      chain_from w (root_String (ParentRoot seed)) (c1 @ (p, bs) # c2) \<and>
      distinct (map (\<lambda>x. Root (fst x)) (c1 @ (p, bs) # c2)) \<and>
      (\<forall>x\<in>set (c1 @ (p, bs) # c2). store w (Root (fst x)) = None) \<and>
      (\<forall>h\<in>set (butlast (seed # map fst (c1 @ (p, bs) # c2))). Root h \<noteq> OriginBlock a) \<and>
      Root (last (seed # map fst (c1 @ (p, bs) # c2))) = OriginBlock a"
  then show "backfillBlobs a w seed =
          Some (ReachedOrigin, last (p # map fst c2),
                w\<lparr>trace := trace w @
                     walk_trace BlockSourceBackfill (root_String (ParentRoot seed)) c1 @
                     retry_trace k (walk_end (root_String (ParentRoot seed)) c1) p bs @
                     walk_trace BlockSourceBackfill (root_String (ParentRoot p)) c2,
                  store := walk_store (store w) (c1 @ (p, bs) # c2),
                  faults := []\<rparr>)"
    by (intro backfill_one_fault_run) blast+
  from h have "Root p \<notin> Root ` fst ` set c2" by force
  then show "walk_store (store w) (c1 @ (p, bs) # c2) (Root p) = Some (record_of p bs)"
    by (simp add: walk_store_append walk_store_other)
  show "dom (walk_store (store w) (c1 @ (p, bs) # c2)) - dom (store w) =
          Root ` fst ` set (c1 @ (p, bs) # c2)"
    using h by (intro new_roots_card(1)) blast+
  show "slept (walk_trace BlockSourceBackfill (root_String (ParentRoot seed)) c1 @
               retry_trace k (walk_end (root_String (ParentRoot seed)) c1) p bs @
               walk_trace BlockSourceBackfill (root_String (ParentRoot p)) c2) = 5000000000"
    by simp
qed

theorem backfill_retries_same_parent_witness:
  "backfillBlobs (archiver 1)
     (stub_world (stored [4]) (replicate 6 False @ [True])) (block 4) =
     Some (ReachedOrigin, block 1,
           (stub_world (stored [4]) (replicate 6 False @ [True]))
             \<lparr>trace := walk_trace BlockSourceBackfill (root_String 3) [(block 3, blobs_of 3)] @
                        [CallBeaconBlockHeader (root_String 2), CallExists 2,
                         CallBlobSidecars (root_String 2),
                         CallSleep 5000000000] @
                        walk_trace BlockSourceBackfill (root_String 2)
                          [(block 2, blobs_of 2), (block 1, blobs_of 1)],
               store := walk_store (stored [4]) chain_3_1,
               faults := []\<rparr>)
   \<and> walk_store (stored [4]) chain_3_1 2 = Some (record_of (block 2) (blobs_of 2))
   \<and> dom (walk_store (stored [4]) chain_3_1) - dom (stored [4]) = {3, 2, 1}
   \<and> backfill_loop (archiver 1) (stub_world (stored [4]) [True]) (block 4) False =
     backfill_loop (archiver 1)
       (emit ((stub_world (stored [4]) [True])
                 \<lparr>trace := [CallBeaconBlockHeader (root_String 3)], faults := []\<rparr>)
             (CallSleep backfillErrorRetryInterval))
       (block 4) False"
proof -
  let ?A = "archiver 1"
  let ?W = "stub_world (stored [4]) [True]"
  let ?W1 = "?W\<lparr>trace := [CallBeaconBlockHeader (root_String 3)], faults := []\<rparr>"
  let ?V = "stub_world (stored [4]) (replicate 6 False @ [True])"
  have fail: "persistBlobsForBlockToS3 ?A ?W (root_String (ParentRoot (block 4))) =
      (Inl Unavailable, ?W1)"
    by (simp add: persist_unfold stub_simps fault_at_def)
  note T = backfill_retries_same_parent
    [where a = ?A and w = ?W and cur = "block 4" and e = Unavailable and ?w1.0 = ?W1]
  note R = backfill_retries_same_parent
    [where a = ?A and w = ?V and seed = "block 4" and k = 2
       and ?c1.0 = "[(block 3, blobs_of 3)]" and p = "block 2" and bs = "blobs_of 2"
       and ?c2.0 = "[(block 1, blobs_of 1)]"]
  have 1: "backfillBlobs ?A ?V (block 4) =
     Some (ReachedOrigin, block 1,
           ?V\<lparr>trace := walk_trace BlockSourceBackfill (root_String 3) [(block 3, blobs_of 3)] @
                        [CallBeaconBlockHeader (root_String 2), CallExists 2,
                         CallBlobSidecars (root_String 2),
                         CallSleep 5000000000] @
                        walk_trace BlockSourceBackfill (root_String 2)
                          [(block 2, blobs_of 2), (block 1, blobs_of 1)],
               store := walk_store (stored [4]) chain_3_1,
               faults := []\<rparr>)
   \<and> walk_store (stored [4]) chain_3_1 2 = Some (record_of (block 2) (blobs_of 2))
   \<and> dom (walk_store (stored [4]) chain_3_1) - dom (stored [4]) = {3, 2, 1}"
    using R[THEN conjunct2, THEN conjunct2]
    by (simp add: chain_3_1_def stub_simps stored_def archiver_def retry_trace_def
        persist_calls_def backfillErrorRetryInterval_def Second_def insert_commute)
  have 2: "backfill_loop ?A ?W (block 4) False =
     backfill_loop ?A (emit ?W1 (CallSleep backfillErrorRetryInterval)) (block 4) False"
    using T[THEN conjunct1] fail by (simp add: archiver_def block_simps)
  from 1 2 show ?thesis by simp
qed

section \<open>The goroutines, move by move\<close>

lemma interleave_backfill_move:
  "\<lbrakk>\<forall>r. l \<noteq> LiveReturned r; l \<noteq> LivePanicked\<rbrakk> \<Longrightarrow>
   interleave a (BackfillGoroutine # sched) evs (b, l, w) =
     interleave a sched evs (fst (backfill_step a (b, w)), l, snd (backfill_step a (b, w)))"
  by (cases l) (simp_all add: case_prod_unfold Let_def)

lemma interleave_main_move:
  "\<lbrakk>\<forall>r. l \<noteq> LiveReturned r; l \<noteq> LivePanicked\<rbrakk> \<Longrightarrow>
   interleave a (MainGoroutine # sched) evs (b, l, w) =
     interleave a sched (snd (snd (live_step a (l, w, evs))))
       (b, fst (live_step a (l, w, evs)), fst (snd (live_step a (l, w, evs))))"
  by (cases l) (simp_all add: case_prod_unfold Let_def)

lemma interleave_blocked:
  "\<lbrakk>\<forall>r. l \<noteq> LiveReturned r; l \<noteq> LivePanicked\<rbrakk> \<Longrightarrow> interleave a [] evs (b, l, w) = None"
  by (cases l) simp_all

lemma live_step_returns_nil:
  "fst (live_step a (l, w, evs)) = LiveReturned r \<Longrightarrow> r = None \<or> l = LiveReturned r"
  by (cases "(a, (l, w, evs))" rule: live_step.cases)
     (auto simp add: Let_def case_prod_unfold split: if_splits)

lemma live_step_no_panic:
  "fst (live_step a (l, w, evs)) = LivePanicked \<Longrightarrow> l = LivePanicked"
  by (cases "(a, (l, w, evs))" rule: live_step.cases)
     (auto simp add: Let_def case_prod_unfold split: if_splits)

lemma interleave_returns_nil:
  "interleave a sched evs (b, l, w) = Some (Returned r w') \<Longrightarrow> r = None \<or> l = LiveReturned r"
proof (induction sched arbitrary: b l w evs)
  case Nil
  then show ?case by (cases l) simp_all
next
  case (Cons g sched)
  show ?case
  proof (cases "(\<forall>r. l \<noteq> LiveReturned r) \<and> l \<noteq> LivePanicked")
    case False
    with Cons.prems show ?thesis by (cases l) simp_all
  next
    case True
    show ?thesis
    proof (cases g)
      case BackfillGoroutine
      with Cons.prems True
      have "interleave a sched evs
              (fst (backfill_step a (b, w)), l, snd (backfill_step a (b, w))) =
            Some (Returned r w')"
        by (simp add: interleave_backfill_move)
      from Cons.IH[OF this] True show ?thesis by simp
    next
      case MainGoroutine
      with Cons.prems True
      have "interleave a sched (snd (snd (live_step a (l, w, evs))))
              (b, fst (live_step a (l, w, evs)), fst (snd (live_step a (l, w, evs)))) =
            Some (Returned r w')"
        by (simp add: interleave_main_move)
      from Cons.IH[OF this]
      have "r = None \<or> fst (live_step a (l, w, evs)) = LiveReturned r" .
      with live_step_returns_nil[of a l w evs r] True show ?thesis by auto
    qed
  qed
qed

lemma interleave_no_panic:
  "interleave a sched evs (b, l, w) = Some Panicked \<Longrightarrow> l = LivePanicked"
proof (induction sched arbitrary: b l w evs)
  case Nil
  then show ?case by (cases l) simp_all
next
  case (Cons g sched)
  show ?case
  proof (cases "(\<forall>r. l \<noteq> LiveReturned r) \<and> l \<noteq> LivePanicked")
    case False
    with Cons.prems show ?thesis by (cases l) simp_all
  next
    case True
    show ?thesis
    proof (cases g)
      case BackfillGoroutine
      with Cons.prems True
      have "interleave a sched evs
              (fst (backfill_step a (b, w)), l, snd (backfill_step a (b, w))) = Some Panicked"
        by (simp add: interleave_backfill_move)
      from Cons.IH[OF this] show ?thesis .
    next
      case MainGoroutine
      with Cons.prems True
      have "interleave a sched (snd (snd (live_step a (l, w, evs))))
              (b, fst (live_step a (l, w, evs)), fst (snd (live_step a (l, w, evs)))) =
            Some Panicked"
        by (simp add: interleave_main_move)
      from Cons.IH[OF this] show ?thesis by (rule live_step_no_panic)
    qed
  qed
qed

lemma select_loop_returns_nil:
  "select_loop a w evs = Some (Returned r w') \<Longrightarrow> r = None"
proof (induction a w evs rule: select_loop.induct)
  case (4 a w evs)
  then show ?case by (auto split: option.splits)
qed simp_all

lemma select_loop_no_panic:
  "select_loop a w evs \<noteq> Some Panicked"
proof (induction a w evs rule: select_loop.induct)
  case (4 a w evs)
  then show ?case by (auto split: option.splits)
qed simp_all

lemma trackLatestBlocks_returns_nil:
  "trackLatestBlocks a w evs = Some (Returned r w') \<Longrightarrow> r = None"
  by (auto simp add: trackLatestBlocks_def select_loop_returns_nil split: if_splits)

lemma moves_first: "\<exists>k. (f ^^ k) (f s) = t \<Longrightarrow> \<exists>k. (f ^^ k) s = t"
proof -
  assume "\<exists>k. (f ^^ k) (f s) = t"
  then obtain k where "(f ^^ k) (f s) = t" ..
  then have "(f ^^ Suc k) s = t" by (simp add: funpow_swap1)
  then show ?thesis ..
qed

lemma moves_none: "\<exists>k. (f ^^ k) s = s"
  by (rule exI[of _ 0]) simp

lemma moves_trans:
  "\<exists>k. (f ^^ k) s = t \<Longrightarrow> \<exists>k. (f ^^ k) t = u \<Longrightarrow> \<exists>k. (f ^^ k) s = u"
proof -
  assume "\<exists>k. (f ^^ k) s = t" "\<exists>k. (f ^^ k) t = u"
  then obtain k j where "(f ^^ k) s = t" "(f ^^ j) t = u" by blast
  then have "(f ^^ (j + k)) s = u" by (simp add: funpow_add)
  then show ?thesis ..
qed

lemma persist_moves:
  assumes E: "\<And>p w. (\<forall>r. p \<noteq> PersistReturned r) \<Longrightarrow>
               f (E p w) = E (fst (persist_step (p, w))) (snd (persist_step (p, w)))"
    and P: "persistBlobsForBlockToS3 a w b = (r, w1)"
  shows "\<exists>k. (f ^^ k) (E (FetchHeader b) w) = E (PersistReturned r) w1"
proof -
  note step = moves_first[where f = f]
  note stop = moves_none[where f = f]
  obtain r0 w0 where h: "BeaconBlockHeader w b = (r0, w0)" by (cases "BeaconBlockHeader w b")
  show ?thesis
  proof (cases r0)
    case (Inl e)
    with h P have "r = Inl e" "w1 = w0" by (simp_all add: persistBlobsForBlockToS3_def)
    with h Inl show ?thesis
      apply -
      apply (rule step, simp add: E)
      apply (rule stop)
      done
  next
    case (Inr hd)
    note hd = this
    obtain r1 w1' where x: "Exists w0 (Root hd) = (r1, w1')" by (cases "Exists w0 (Root hd)")
    show ?thesis
    proof (cases r1)
      case (Inl e)
      with h hd x P have "r = Inl e" "w1 = w1'" by (simp_all add: persistBlobsForBlockToS3_def)
      with h hd x Inl show ?thesis
        apply -
        apply (rule step, simp add: E)
        apply (rule step, simp add: E)
        apply (rule stop)
        done
    next
      case (Inr ex)
      note ex = this
      show ?thesis
      proof (cases ex)
        case True
        with h hd x ex P have "r = Inr (hd, True)" "w1 = w1'"
          by (simp_all add: persistBlobsForBlockToS3_def)
        with h hd x ex True show ?thesis
          apply -
          apply (rule step, simp add: E)
          apply (rule step, simp add: E)
          apply (rule stop)
          done
      next
        case False
        obtain r2 w2 where s: "BlobSidecars w1' (root_String (Root hd)) = (r2, w2)"
          by (cases "BlobSidecars w1' (root_String (Root hd))")
        show ?thesis
        proof (cases r2)
          case (Inl e)
          with h hd x ex False s P have "r = Inl e" "w1 = w2"
            by (simp_all add: persistBlobsForBlockToS3_def)
          with h hd x ex False s Inl show ?thesis
            apply -
            apply (rule step, simp add: E)
            apply (rule step, simp add: E)
            apply (rule step, simp add: E)
            apply (rule stop)
            done
        next
          case (Inr bs)
          note bs = this
          obtain r3 w3 where wr:
            "Write w2 \<lparr>BeaconBlockHash = Root hd, Data = bs\<rparr> = (r3, w3)"
            by (cases "Write w2 \<lparr>BeaconBlockHash = Root hd, Data = bs\<rparr>")
          show ?thesis
          proof (cases r3)
            case (Inl e)
            with h hd x ex False s bs wr P have "r = Inl e" "w1 = w3"
              by (simp_all add: persistBlobsForBlockToS3_def)
            with h hd x ex False s bs wr Inl show ?thesis
              apply -
              apply (rule step, simp add: E)
              apply (rule step, simp add: E)
              apply (rule step, simp add: E)
              apply (rule step, simp add: E)
              apply (rule stop)
              done
          next
            case (Inr u)
            with h hd x ex False s bs wr P
            have "r = Inr (hd, False)" "w1 = emit w3 (CallRecordStoredBlobs (length bs))"
              by (simp_all add: persistBlobsForBlockToS3_def)
            with h hd x ex False s bs wr Inr show ?thesis
              apply -
              apply (rule step, simp add: E)
              apply (rule step, simp add: E)
              apply (rule step, simp add: E)
              apply (rule step, simp add: E)
              apply (rule step, simp add: E)
              apply (rule stop)
              done
          qed
        qed
      qed
    qed
  qed
qed

lemma backfill_step_inside_persist:
  "(\<forall>r. p \<noteq> PersistReturned r) \<Longrightarrow>
   backfill_step a (BackfillPersist previous p, w) =
     (BackfillPersist previous (fst (persist_step (p, w))), snd (persist_step (p, w)))"
  by (cases p) (simp_all add: case_prod_unfold Let_def)

lemma live_step_inside_persist:
  "(\<forall>r. p \<noteq> PersistReturned r) \<Longrightarrow>
   live_step a (LivePersist start p, w, evs) =
     (LivePersist start (fst (persist_step (p, w))), snd (persist_step (p, w)), evs)"
  by (cases p) (simp_all add: case_prod_unfold Let_def)

lemma backfill_persist_moves:
  assumes "persistBlobsForBlockToS3 a w b = (r, w1)"
  shows "\<exists>k. (backfill_step a ^^ k) (BackfillPersist previous (FetchHeader b), w) =
              (BackfillPersist previous (PersistReturned r), w1)"
  using persist_moves[where f = "backfill_step a" and E = "\<lambda>p w. (BackfillPersist previous p, w)",
      OF _ assms]
  by (simp add: backfill_step_inside_persist)

lemma live_persist_moves:
  assumes "persistBlobsForBlockToS3 a w b = (r, w1)"
  shows "\<exists>k. (live_step a ^^ k) (LivePersist start (FetchHeader b), w, evs) =
              (LivePersist start (PersistReturned r), w1, evs)"
  using persist_moves[where f = "live_step a" and E = "\<lambda>p w. (LivePersist start p, w, evs)",
      OF _ assms]
  by (simp add: live_step_inside_persist)

lemma backfill_loop_moves:
  assumes "backfill_loop a w current alreadyExists = Some (x, current', w')"
  shows "\<exists>k. (backfill_step a ^^ k) (BackfillTest current alreadyExists, w) =
              (BackfillReturned x current', w')"
  using assms
proof (induction a w current alreadyExists "(x, current', w')"
       rule: backfill_loop.raw_induct[rotated 1, consumes 1])
  case (1 backfill_loop a w current alreadyExists)
  note step = moves_first[where f = "backfill_step a"]
  show ?case
  proof (cases "alreadyExists \<or> Root current = OriginBlock a")
    case True
    with 1(2) show ?thesis
      by - (rule step, auto simp add: moves_none split: if_splits)
  next
    case False
    let ?b = "root_String (ParentRoot current)"
    obtain r w1 where p: "persistBlobsForBlockToS3 a w ?b = (r, w1)"
      by (cases "persistBlobsForBlockToS3 a w ?b")
    have first: "\<exists>k. (backfill_step a ^^ k) (BackfillTest current alreadyExists, w) =
                     (BackfillPersist current (PersistReturned r), w1)"
      using False backfill_persist_moves[OF p, of current] by - (rule step, simp)
    show ?thesis
    proof (cases r)
      case (Inl e)
      with 1(2) False p
      have "backfill_loop a (emit w1 (CallSleep backfillErrorRetryInterval)) current False =
              Some (x, current', w')"
        by simp
      from 1(1)[OF this]
      have "\<exists>k. (backfill_step a ^^ k) (BackfillPersist current (PersistReturned r), w1) =
                 (BackfillReturned x current', w')"
        using Inl by - (rule step, simp, rule step, simp)
      with first show ?thesis by (rule moves_trans)
    next
      case (Inr hx)
      obtain h ex where hx: "hx = (h, ex)" by (cases hx)
      with 1(2) False p Inr
      have "backfill_loop a
              (if \<not> ex then emit w1 (CallRecordProcessedBlock BlockSourceBackfill) else w1)
              h ex = Some (x, current', w')"
        by simp
      from 1(1)[OF this]
      have ih: "\<exists>k. (backfill_step a ^^ k)
                (BackfillTest h ex,
                 if \<not> ex then emit w1 (CallRecordProcessedBlock BlockSourceBackfill) else w1) =
              (BackfillReturned x current', w')" .
      have "\<exists>k. (backfill_step a ^^ k) (BackfillPersist current (PersistReturned r), w1) =
                 (BackfillReturned x current', w')"
      proof (cases ex)
        case True
        with ih Inr hx show ?thesis by - (rule step, simp)
      next
        case False
        with ih Inr hx show ?thesis by - (rule step, simp, rule step, simp)
      qed
      with first show ?thesis by (rule moves_trans)
    qed
  qed
qed

lemma live_loop_moves:
  assumes "live_loop a w start currentBlockId = Some (x, w')"
  shows "\<exists>k. (live_step a ^^ k) (LivePersist start (FetchHeader currentBlockId), w, evs) =
              (LiveSelect, w', evs)"
  using assms
proof (induction a w start currentBlockId "(x, w')"
       rule: live_loop.raw_induct[rotated 1, consumes 1])
  case (1 live_loop a w start b)
  note step = moves_first[where f = "live_step a"]
  obtain r w1 where p: "persistBlobsForBlockToS3 a w b = (r, w1)"
    by (cases "persistBlobsForBlockToS3 a w b")
  note first = live_persist_moves[OF p, of start evs]
  show ?case
  proof (cases r)
    case (Inl e)
    with 1(2) p have "w' = w1" by simp
    then have "\<exists>k. (live_step a ^^ k) (LivePersist start (PersistReturned r), w1, evs) =
                 (LiveSelect, w', evs)"
      using Inl by - (rule step, simp add: moves_none)
    with first show ?thesis by (rule moves_trans)
  next
    case (Inr hx)
    obtain h ex where hx: "hx = (h, ex)" by (cases hx)
    show ?thesis
    proof (cases ex)
      case True
      with 1(2) p Inr hx have "w' = w1" by simp
      then have "\<exists>k. (live_step a ^^ k) (LivePersist start (PersistReturned r), w1, evs) =
                   (LiveSelect, w', evs)"
        using Inr hx True by - (rule step, simp add: moves_none)
      with first show ?thesis by (rule moves_trans)
    next
      case False
      let ?start = "if start = None then Some h else start"
      from False 1(2) p Inr hx
      have "live_loop a (emit w1 (CallRecordProcessedBlock BlockSourceLive)) ?start
              (root_String (ParentRoot h)) = Some (x, w')"
        by simp
      from 1(1)[OF this]
      have "\<exists>k. (live_step a ^^ k) (LivePersist start (PersistReturned r), w1, evs) =
                   (LiveSelect, w', evs)"
        using Inr hx False
        by - (rule step, simp split del: if_split, rule step, simp split del: if_split)
      with first show ?thesis by (rule moves_trans)
    qed
  qed
qed

lemma live_step_done:
  "(live_step a ^^ k) (LiveReturned r, w, evs) = (LiveReturned r, w, evs)"
  "(live_step a ^^ k) (LivePanicked, w, evs) = (LivePanicked, w, evs)"
  by (induction k) simp_all

lemma interleave_main_moves:
  "interleave a (replicate k MainGoroutine @ s) evs (b, l, w) =
     (case (live_step a ^^ k) (l, w, evs) of (l', w', evs') \<Rightarrow> interleave a s evs' (b, l', w'))"
proof (induction k arbitrary: l w evs)
  case 0
  show ?case by simp
next
  case (Suc k)
  show ?case
  proof (cases "(\<forall>r. l \<noteq> LiveReturned r) \<and> l \<noteq> LivePanicked")
    case False
    then show ?thesis by (cases l) (simp_all only: live_step_done, simp_all)
  next
    case True
    obtain l1 w1 evs1 where s: "live_step a (l, w, evs) = (l1, w1, evs1)"
      by (cases "live_step a (l, w, evs)")
    from True have "interleave a (replicate (Suc k) MainGoroutine @ s) evs (b, l, w) =
      interleave a (replicate k MainGoroutine @ s) evs1 (b, l1, w1)"
      by (simp add: interleave_main_move s)
    also have "\<dots> = (case (live_step a ^^ k) (l1, w1, evs1) of
                      (l', w', evs') \<Rightarrow> interleave a s evs' (b, l', w'))"
      by (rule Suc.IH)
    finally show ?thesis by (simp add: funpow_swap1 s)
  qed
qed

lemma interleave_backfill_moves:
  assumes "\<forall>r. l \<noteq> LiveReturned r" "l \<noteq> LivePanicked"
  shows "interleave a (replicate k BackfillGoroutine @ s) evs (b, l, w) =
     (case (backfill_step a ^^ k) (b, w) of (b', w') \<Rightarrow> interleave a s evs (b', l, w'))"
proof (induction k arbitrary: b w)
  case 0
  show ?case by simp
next
  case (Suc k)
  obtain b1 w1 where s: "backfill_step a (b, w) = (b1, w1)"
    by (cases "backfill_step a (b, w)")
  from assms have "interleave a (replicate (Suc k) BackfillGoroutine @ s) evs (b, l, w) =
      interleave a (replicate k BackfillGoroutine @ s) evs (b1, l, w1)"
    by (simp add: interleave_backfill_move s)
  also have "\<dots> = (case (backfill_step a ^^ k) (b1, w1) of
                      (b', w') \<Rightarrow> interleave a s evs (b', l, w'))"
    by (rule Suc.IH)
  finally show ?case by (simp add: funpow_swap1 s)
qed

lemma select_loop_moves:
  "select_loop a w evs = Some r \<Longrightarrow>
   \<exists>k. interleave a (replicate k MainGoroutine) evs (b, LiveSelect, w) = Some r"
proof (induction a w evs rule: select_loop.induct)
  case (1 a w)
  then show ?case by simp
next
  case (2 a w evs)
  then have "interleave a (replicate 1 MainGoroutine) (CtxDone # evs) (b, LiveSelect, w) = Some r"
    by simp
  then show ?case ..
next
  case (3 a w evs)
  then have "interleave a (replicate 1 MainGoroutine) (StopCh # evs) (b, LiveSelect, w) = Some r"
    by simp
  then show ?case ..
next
  case (4 a w evs)
  from 4(2) obtain x w1 where poll: "processBlocksUntilKnownBlock a w = Some (x, w1)"
    and rest: "select_loop a w1 evs = Some r"
    by (auto split: option.splits)
  from 4(1)[OF poll refl rest] obtain k2 where
    k2: "interleave a (replicate k2 MainGoroutine) evs (b, LiveSelect, w1) = Some r" ..
  from poll live_loop_moves[of a w None "''head''" x w1 evs] obtain k1 where
    k1: "(live_step a ^^ k1) (LivePersist None (FetchHeader ''head''), w, evs) =
           (LiveSelect, w1, evs)"
    by (auto simp add: processBlocksUntilKnownBlock_def)
  have "interleave a (replicate (Suc k1 + k2) MainGoroutine) (TickerC # evs) (b, LiveSelect, w) =
        interleave a (replicate (Suc k1) MainGoroutine @ replicate k2 MainGoroutine)
          (TickerC # evs) (b, LiveSelect, w)"
    by (simp only: replicate_add)
  also have "\<dots> = interleave a (replicate k2 MainGoroutine) evs (b, LiveSelect, w1)"
    by (simp only: interleave_main_moves) (simp add: funpow_swap1 k1)
  finally show ?case using k2 by metis
qed

lemma trackLatestBlocks_moves:
  assumes "trackLatestBlocks a w evs = Some r"
  shows "\<exists>k. interleave a (replicate k MainGoroutine) evs (b, NewTicker a, w) = Some r"
proof (cases "PollInterval a \<le> 0")
  case True
  with assms have "interleave a (replicate 0 MainGoroutine) evs (b, NewTicker a, w) = Some r"
    by (simp add: trackLatestBlocks_def NewTicker_def)
  then show ?thesis ..
next
  case False
  with assms select_loop_moves[of a w evs r b] show ?thesis
    by (simp add: trackLatestBlocks_def NewTicker_def)
qed

lemma backfill_then_track:
  assumes b: "backfillBlobs a w latest = Some (x, current, w')"
    and t: "trackLatestBlocks a w' evs = Some r"
  shows "\<exists>sched. interleave a sched evs (BackfillTest latest False, NewTicker a, w) = Some r"
proof (cases "PollInterval a \<le> 0")
  case True
  with t have "interleave a [] evs (BackfillTest latest False, NewTicker a, w) = Some r"
    by (simp add: trackLatestBlocks_def NewTicker_def)
  then show ?thesis ..
next
  case False
  from b backfill_loop_moves[of a w latest False x current w'] obtain k where
    k: "(backfill_step a ^^ k) (BackfillTest latest False, w) = (BackfillReturned x current, w')"
    by (auto simp add: backfillBlobs_def)
  from trackLatestBlocks_moves[OF t, of "BackfillReturned x current"] obtain j where
    j: "interleave a (replicate j MainGoroutine) evs
          (BackfillReturned x current, NewTicker a, w') = Some r" ..
  from False j have "interleave a (replicate j MainGoroutine) evs
          (BackfillReturned x current, LiveSelect, w') = Some r"
    by (simp add: NewTicker_def)
  with False have
    "interleave a (replicate k BackfillGoroutine @ replicate j MainGoroutine) evs
       (BackfillTest latest False, NewTicker a, w) = Some r"
    by (simp add: interleave_backfill_moves NewTicker_def k)
  then show ?thesis ..
qed

section \<open>Startup\<close>

lemma start_seed_known:
  "persistBlobsForBlockToS3 (archiver 3) (stub_world (stored []) []) ''head'' =
     (Inr (block 4, False),
      (stub_world (stored []) [])
        \<lparr>trace := persist_calls ''head'' (block 4) (blobs_of 4),
          store := (stored [])(4 \<mapsto> record_of (block 4) (blobs_of 4))\<rparr>)"
  by (simp add: persist_new_block[where h = "block 4" and bs = "blobs_of 4"] stub_simps
      stored_def)

lemma start_backfill_known:
  "backfillBlobs (archiver 3)
     ((stub_world (stored []) [])
        \<lparr>trace := persist_calls ''head'' (block 4) (blobs_of 4),
          store := (stored [])(4 \<mapsto> record_of (block 4) (blobs_of 4))\<rparr>)
     (block 4) =
   Some (ReachedOrigin, block 3,
     (stub_world (stored []) [])
        \<lparr>trace := persist_calls ''head'' (block 4) (blobs_of 4) @
                   persist_calls (root_String 3) (block 3) (blobs_of 3) @
                   [CallRecordProcessedBlock BlockSourceBackfill],
          store := (stored [])(4 \<mapsto> record_of (block 4) (blobs_of 4),
                               3 \<mapsto> record_of (block 3) (blobs_of 3))\<rparr>)"
  apply (simp add: backfillBlobs_def)
  apply (subst backfill_loop.simps)
  apply (simp add: archiver_def block_simps)
  apply (subst persist_new_block[where h = "block 3" and bs = "blobs_of 3"])
  apply (simp_all add: stub_simps stored_def emit_def)
  apply (subst backfill_loop.simps)
  apply (simp add: archiver_def block_simps Let_def)
  done

lemma start_track_known:
  "trackLatestBlocks (archiver 3)
     ((stub_world (stored []) [])
        \<lparr>trace := persist_calls ''head'' (block 4) (blobs_of 4) @
                   persist_calls (root_String 3) (block 3) (blobs_of 3) @
                   [CallRecordProcessedBlock BlockSourceBackfill],
          store := (stored [])(4 \<mapsto> record_of (block 4) (blobs_of 4),
                               3 \<mapsto> record_of (block 3) (blobs_of 3))\<rparr>)
     [TickerC, StopCh] =
   Some (Returned None
     ((stub_world (stored []) [])
        \<lparr>trace := persist_calls ''head'' (block 4) (blobs_of 4) @
                   persist_calls (root_String 3) (block 3) (blobs_of 3) @
                   [CallRecordProcessedBlock BlockSourceBackfill,
                    CallBeaconBlockHeader ''head'', CallExists 4],
          store := (stored [])(4 \<mapsto> record_of (block 4) (blobs_of 4),
                               3 \<mapsto> record_of (block 3) (blobs_of 3))\<rparr>))"
  apply (simp add: trackLatestBlocks_def archiver_def Second_def processBlocksUntilKnownBlock_def)
  apply (subst live_loop_known[where h = "block 4"])
  apply (subst persist_known_block[where h = "block 4"])
  apply (simp_all add: stub_simps stored_def)
  done

lemma start_interleaved_run:
  "Start (archiver 3) (stub_world (stored []) [False, False, False, False, True, True])
     [TickerC, TickerC, StopCh]
     [BackfillGoroutine, MainGoroutine, BackfillGoroutine, MainGoroutine,
      BackfillGoroutine, MainGoroutine, BackfillGoroutine, BackfillGoroutine,
      BackfillGoroutine, BackfillGoroutine, BackfillGoroutine, MainGoroutine,
      BackfillGoroutine, MainGoroutine, BackfillGoroutine, MainGoroutine,
      BackfillGoroutine, MainGoroutine, BackfillGoroutine, BackfillGoroutine,
      MainGoroutine] =
   Some (Returned None
     ((stub_world (stored []) [False, False, False, False, True, True])
        \<lparr>trace := persist_calls ''head'' (block 4) (blobs_of 4) @
           [CallBeaconBlockHeader (root_String 3), CallBeaconBlockHeader ''head'',
            CallSleep backfillErrorRetryInterval,
            CallBeaconBlockHeader (root_String 3), CallExists 3,
            CallBlobSidecars (root_String 3), CallWrite (record_of (block 3) (blobs_of 3)),
            CallBeaconBlockHeader ''head'', CallRecordStoredBlobs 2, CallExists 4,
            CallRecordProcessedBlock BlockSourceBackfill],
          store := (stored [])(4 \<mapsto> record_of (block 4) (blobs_of 4),
                               3 \<mapsto> record_of (block 3) (blobs_of 3)),
          faults := []\<rparr>))"
  by (simp add: Start_def archiver_def persist_unfold stub_simps fault_at_def stored_def
      persist_calls_def record_of_def NewTicker_def Second_def eval_nat_numeral blobs_of_eq)

text \<open>
  C5, as the code has it. \<^verbatim>\<open>Start\<close> returns an error in two cases only, both before
  the two goroutines exist. When the metrics server is enabled and does not start, that
  error is returned. When the first fetch-and-persist of \<open>head\<close>, the one that seeds the
  archiver, fails, that error is returned, with the metrics server enabled or not;
  the world \<^verbatim>\<open>Start\<close> leaves is the one the failed fetch-and-persist left, so backfill
  was not launched and live tracking did not begin. Every error \<^verbatim>\<open>Start\<close> returns is one
  of these two.

  Once the seed is stored, backfill and live tracking run side by side, and whatever the
  schedule, the ticks and the failures of the beacon client and the store, \<^verbatim>\<open>Start\<close>
  returns no error; the only crash is the panic of \<^verbatim>\<open>time.NewTicker\<close> on a poll
  interval that is not positive, which no failure causes. When backfill runs to its end
  before the first tick, \<^verbatim>\<open>Start\<close> ends as \<^verbatim>\<open>trackLatestBlocks\<close> does in the world
  backfill left. \<^verbatim>\<open>trackLatestBlocks\<close> only ever returns \<^verbatim>\<open>nil\<close>: a fetch-and-persist that
  fails during a poll ends that poll, and one that fails during backfill is retried
  after the sleep, from the same block.
\<close>

theorem start_error_only_from_startup:
  "(MetricsEnabled a \<and> StartServer w = (Inl e, w0) \<longrightarrow>
      Start a w evs sched = Some (Returned (Some e) w0))
   \<and> ((if MetricsEnabled a then StartServer w else (Inr (), w)) = (Inr u, w0) \<and>
      persistBlobsForBlockToS3 a w0 ''head'' = (Inl e, w1) \<longrightarrow>
        Start a w evs sched = Some (Returned (Some e) w1))
   \<and> (Start a w evs sched = Some (Returned (Some e) w') \<longrightarrow>
        (MetricsEnabled a \<and> StartServer w = (Inl e, w')) \<or>
        (\<exists>w0. (if MetricsEnabled a then StartServer w else (Inr (), w)) = (Inr (), w0) \<and>
              persistBlobsForBlockToS3 a w0 ''head'' = (Inl e, w')))
   \<and> (Start a w evs sched = Some Panicked \<longrightarrow> PollInterval a \<le> 0)
   \<and> ((if MetricsEnabled a then StartServer w else (Inr (), w)) = (Inr u, w0) \<and>
      persistBlobsForBlockToS3 a w0 ''head'' = (Inr (h, ex), w1) \<and>
      backfillBlobs a w1 h = Some (x, current, w2) \<and>
      trackLatestBlocks a w2 evs = Some r \<longrightarrow>
        (\<exists>s. Start a w evs s = Some r))
   \<and> (trackLatestBlocks a w evs = Some (Returned r' w') \<longrightarrow> r' = None)
   \<and> (persistBlobsForBlockToS3 a w b = (Inl e, w1) \<longrightarrow>
        live_loop a w start b = Some (LiveAborted, w1))
   \<and> (Root cur \<noteq> OriginBlock a \<and>
      persistBlobsForBlockToS3 a w (root_String (ParentRoot cur)) = (Inl e, w1) \<longrightarrow>
        backfill_loop a w cur False =
          backfill_loop a (emit w1 (CallSleep backfillErrorRetryInterval)) cur False)"
proof (intro conjI impI)
  assume "MetricsEnabled a \<and> StartServer w = (Inl e, w0)"
  then show "Start a w evs sched = Some (Returned (Some e) w0)" by (simp add: Start_def)
next
  assume "(if MetricsEnabled a then StartServer w else (Inr (), w)) = (Inr u, w0) \<and>
      persistBlobsForBlockToS3 a w0 ''head'' = (Inl e, w1)"
  then show "Start a w evs sched = Some (Returned (Some e) w1)" by (simp add: Start_def)
next
  assume s: "Start a w evs sched = Some (Returned (Some e) w')"
  obtain m w0 where m: "(if MetricsEnabled a then StartServer w else (Inr (), w)) = (m, w0)"
    by (cases "if MetricsEnabled a then StartServer w else (Inr (), w)")
  show "(MetricsEnabled a \<and> StartServer w = (Inl e, w')) \<or>
        (\<exists>w0. (if MetricsEnabled a then StartServer w else (Inr (), w)) = (Inr (), w0) \<and>
              persistBlobsForBlockToS3 a w0 ''head'' = (Inl e, w'))"
  proof (cases m)
    case (Inl e0)
    with s m have "e0 = e" "w0 = w'" by (simp_all add: Start_def)
    with m Inl show ?thesis by (auto split: if_splits)
  next
    case (Inr u)
    obtain p w1 where p: "persistBlobsForBlockToS3 a w0 ''head'' = (p, w1)"
      by (cases "persistBlobsForBlockToS3 a w0 ''head''")
    show ?thesis
    proof (cases p)
      case (Inl e1)
      with s m Inr p have "e1 = e" "w1 = w'" by (simp_all add: Start_def)
      with m \<open>m = Inr u\<close> p Inl show ?thesis by auto
    next
      case (Inr hx)
      obtain h ex where "hx = (h, ex)" by (cases hx)
      with s m \<open>m = Inr u\<close> p Inr
      have "interleave a sched evs (BackfillTest h False, NewTicker a, w1) =
              Some (Returned (Some e) w')"
        by (simp add: Start_def)
      from interleave_returns_nil[OF this] show ?thesis
        by (simp add: NewTicker_def split: if_splits)
    qed
  qed
next
  assume s: "Start a w evs sched = Some Panicked"
  then obtain h w1 where
    "interleave a sched evs (BackfillTest h False, NewTicker a, w1) = Some Panicked"
    by (auto simp add: Start_def split: prod.splits sum.splits)
  from interleave_no_panic[OF this] show "PollInterval a \<le> 0"
    by (simp add: NewTicker_def split: if_splits)
next
  assume h: "(if MetricsEnabled a then StartServer w else (Inr (), w)) = (Inr u, w0) \<and>
      persistBlobsForBlockToS3 a w0 ''head'' = (Inr (h, ex), w1) \<and>
      backfillBlobs a w1 h = Some (x, current, w2) \<and>
      trackLatestBlocks a w2 evs = Some r"
  then obtain s where
    "interleave a s evs (BackfillTest h False, NewTicker a, w1) = Some r"
    using backfill_then_track[of a w1 h x current w2 evs r] by blast
  with h have "Start a w evs s = Some r" by (simp add: Start_def)
  then show "\<exists>s. Start a w evs s = Some r" ..
next
  assume "trackLatestBlocks a w evs = Some (Returned r' w')"
  then show "r' = None" by (rule trackLatestBlocks_returns_nil)
next
  assume "persistBlobsForBlockToS3 a w b = (Inl e, w1)"
  then show "live_loop a w start b = Some (LiveAborted, w1)" by (rule live_loop_error)
next
  assume "Root cur \<noteq> OriginBlock a \<and>
      persistBlobsForBlockToS3 a w (root_String (ParentRoot cur)) = (Inl e, w1)"
  then show "backfill_loop a w cur False =
          backfill_loop a (emit w1 (CallSleep backfillErrorRetryInterval)) cur False"
    by (intro backfill_loop_error) simp_all
qed

theorem start_error_only_from_startup_witness:
  "Start ((archiver 3)\<lparr>MetricsEnabled := True\<rparr>) (stub_world (stored []) [True])
      [TickerC, StopCh] [BackfillGoroutine, MainGoroutine] =
     Some (Returned (Some Unavailable)
            ((stub_world (stored []) [True])\<lparr>trace := [CallStartServer], faults := []\<rparr>))
   \<and> Start ((archiver 3)\<lparr>MetricsEnabled := True\<rparr>) (stub_world (stored []) [False, True])
      [TickerC, StopCh] [BackfillGoroutine, MainGoroutine] =
     Some (Returned (Some Unavailable)
            ((stub_world (stored []) [False, True])
               \<lparr>trace := [CallStartServer, CallBeaconBlockHeader ''head''], faults := []\<rparr>))
   \<and> Start (archiver 3) (stub_world (stored []) [True])
      [TickerC, StopCh] [BackfillGoroutine, MainGoroutine] =
     Some (Returned (Some Unavailable)
            ((stub_world (stored []) [True])
               \<lparr>trace := [CallBeaconBlockHeader ''head''], faults := []\<rparr>))
   \<and> (\<exists>w0. StartServer (stub_world (stored []) [False, True]) = (Inr (), w0) \<and>
         persistBlobsForBlockToS3 ((archiver 3)\<lparr>MetricsEnabled := True\<rparr>) w0 ''head'' =
           (Inl Unavailable,
            (stub_world (stored []) [False, True])
               \<lparr>trace := [CallStartServer, CallBeaconBlockHeader ''head''], faults := []\<rparr>))
   \<and> Start ((archiver 3)\<lparr>PollInterval := 0\<rparr>) (stub_world (stored []) [])
        [TickerC, StopCh] [BackfillGoroutine, MainGoroutine] = Some Panicked
   \<and> PollInterval ((archiver 3)\<lparr>PollInterval := 0\<rparr>) \<le> 0
   \<and> (\<exists>s. Start (archiver 3) (stub_world (stored []) []) [TickerC, StopCh] s =
         Some (Returned None
           ((stub_world (stored []) [])
              \<lparr>trace := persist_calls ''head'' (block 4) (blobs_of 4) @
                         persist_calls (root_String 3) (block 3) (blobs_of 3) @
                         [CallRecordProcessedBlock BlockSourceBackfill,
                          CallBeaconBlockHeader ''head'', CallExists 4],
                store := (stored [])(4 \<mapsto> record_of (block 4) (blobs_of 4),
                                     3 \<mapsto> record_of (block 3) (blobs_of 3))\<rparr>)))
   \<and> live_loop (archiver 3) (stub_world (stored []) [True]) None ''head'' =
     Some (LiveAborted,
           (stub_world (stored []) [True])
             \<lparr>trace := [CallBeaconBlockHeader ''head''], faults := []\<rparr>)
   \<and> backfill_loop (archiver 3) (stub_world (stored [4]) [True]) (block 4) False =
     backfill_loop (archiver 3)
       (emit ((stub_world (stored [4]) [True])
                 \<lparr>trace := [CallBeaconBlockHeader (root_String 3)], faults := []\<rparr>)
             (CallSleep backfillErrorRetryInterval))
       (block 4) False
   \<and> Start (archiver 3) (stub_world (stored []) [False, False, False, False, True, True])
       [TickerC, TickerC, StopCh]
       [BackfillGoroutine, MainGoroutine, BackfillGoroutine, MainGoroutine,
        BackfillGoroutine, MainGoroutine, BackfillGoroutine, BackfillGoroutine,
        BackfillGoroutine, BackfillGoroutine, BackfillGoroutine, MainGoroutine,
        BackfillGoroutine, MainGoroutine, BackfillGoroutine, MainGoroutine,
        BackfillGoroutine, MainGoroutine, BackfillGoroutine, BackfillGoroutine,
        MainGoroutine] =
     Some (Returned None
       ((stub_world (stored []) [False, False, False, False, True, True])
          \<lparr>trace := persist_calls ''head'' (block 4) (blobs_of 4) @
             [CallBeaconBlockHeader (root_String 3), CallBeaconBlockHeader ''head'',
              CallSleep backfillErrorRetryInterval,
              CallBeaconBlockHeader (root_String 3), CallExists 3,
              CallBlobSidecars (root_String 3), CallWrite (record_of (block 3) (blobs_of 3)),
              CallBeaconBlockHeader ''head'', CallRecordStoredBlobs 2, CallExists 4,
              CallRecordProcessedBlock BlockSourceBackfill],
            store := (stored [])(4 \<mapsto> record_of (block 4) (blobs_of 4),
                                 3 \<mapsto> record_of (block 3) (blobs_of 3)),
            faults := []\<rparr>))"
proof -
  let ?A = "archiver 3"
  let ?M = "(archiver 3)\<lparr>MetricsEnabled := True\<rparr>"
  let ?Z = "(archiver 3)\<lparr>PollInterval := 0\<rparr>"
  let ?evs = "[TickerC, StopCh]"
  let ?sched = "[BackfillGoroutine, MainGoroutine]"
  let ?F = "stub_world (stored []) [True]"
  let ?FS = "?F\<lparr>trace := [CallStartServer], faults := []\<rparr>"
  let ?F1 = "?F\<lparr>trace := [CallBeaconBlockHeader ''head''], faults := []\<rparr>"
  let ?G = "stub_world (stored []) [False, True]"
  let ?GS = "?G\<lparr>trace := [CallStartServer], faults := [True]\<rparr>"
  let ?G1 = "?G\<lparr>trace := [CallStartServer, CallBeaconBlockHeader ''head''], faults := []\<rparr>"
  let ?N = "stub_world (stored []) []"
  let ?N1 = "?N\<lparr>trace := persist_calls ''head'' (block 4) (blobs_of 4),
                store := (stored [])(4 \<mapsto> record_of (block 4) (blobs_of 4))\<rparr>"
  let ?N2 = "?N\<lparr>trace := persist_calls ''head'' (block 4) (blobs_of 4) @
                         persist_calls (root_String 3) (block 3) (blobs_of 3) @
                         [CallRecordProcessedBlock BlockSourceBackfill],
                store := (stored [])(4 \<mapsto> record_of (block 4) (blobs_of 4),
                                     3 \<mapsto> record_of (block 3) (blobs_of 3))\<rparr>"
  let ?N3 = "?N\<lparr>trace := persist_calls ''head'' (block 4) (blobs_of 4) @
                         persist_calls (root_String 3) (block 3) (blobs_of 3) @
                         [CallRecordProcessedBlock BlockSourceBackfill,
                          CallBeaconBlockHeader ''head'', CallExists 4],
                store := (stored [])(4 \<mapsto> record_of (block 4) (blobs_of 4),
                                     3 \<mapsto> record_of (block 3) (blobs_of 3))\<rparr>"
  let ?B = "stub_world (stored [4]) [True]"
  let ?B1 = "?B\<lparr>trace := [CallBeaconBlockHeader (root_String 3)], faults := []\<rparr>"
  note T = start_error_only_from_startup
  have metrics: "StartServer ?F = (Inl Unavailable, ?FS)"
    by (simp add: StartServer_def take_fault_eq emit_def stub_simps fault_at_def)
  have started: "StartServer ?G = (Inr (), ?GS)"
    by (simp add: StartServer_def take_fault_eq emit_def stub_simps fault_at_def)
  have seed_m: "persistBlobsForBlockToS3 ?M ?GS ''head'' = (Inl Unavailable, ?G1)"
    by (simp add: persist_unfold stub_simps fault_at_def)
  have seed: "persistBlobsForBlockToS3 ?A ?F ''head'' = (Inl Unavailable, ?F1)"
    by (simp add: persist_unfold stub_simps fault_at_def)
  have 1: "Start ?M ?F ?evs ?sched = Some (Returned (Some Unavailable) ?FS)"
    using T[where a = ?M and w = ?F and e = Unavailable and ?w0.0 = ?FS
              and evs = ?evs and sched = ?sched, THEN conjunct1]
      metrics by simp
  have 2: "Start ?M ?G ?evs ?sched = Some (Returned (Some Unavailable) ?G1)"
    using T[where a = ?M and w = ?G and e = Unavailable and ?w0.0 = ?GS and ?w1.0 = ?G1
              and u = "()" and evs = ?evs and sched = ?sched, THEN conjunct2, THEN conjunct1]
      started seed_m by simp
  have 3: "Start ?A ?F ?evs ?sched = Some (Returned (Some Unavailable) ?F1)"
    using T[where a = ?A and w = ?F and e = Unavailable and ?w0.0 = ?F and ?w1.0 = ?F1
              and u = "()" and evs = ?evs and sched = ?sched, THEN conjunct2, THEN conjunct1]
      seed by (simp add: archiver_def)
  have 4: "\<exists>w0. StartServer ?G = (Inr (), w0) \<and>
             persistBlobsForBlockToS3 ?M w0 ''head'' = (Inl Unavailable, ?G1)"
    using T[where a = ?M and w = ?G and e = Unavailable and w' = ?G1
              and evs = ?evs and sched = ?sched,
            THEN conjunct2, THEN conjunct2, THEN conjunct1]
      2 started by simp
  have 5: "Start ?Z ?N ?evs ?sched = Some Panicked"
    by (simp add: Start_def archiver_def NewTicker_def stub_simps stored_def
        persist_new_block[where h = "block 4" and bs = "blobs_of 4"])
  have 6: "PollInterval ?Z \<le> 0"
    using T[where a = ?Z and w = ?N and evs = ?evs and sched = ?sched,
            THEN conjunct2, THEN conjunct2, THEN conjunct2, THEN conjunct1]
      5 by simp
  have 7: "\<exists>s. Start ?A ?N ?evs s = Some (Returned None ?N3)"
    using T[where a = ?A and w = ?N and u = "()" and ?w0.0 = ?N and h = "block 4"
              and ex = False and ?w1.0 = ?N1 and x = ReachedOrigin and current = "block 3"
              and ?w2.0 = ?N2 and evs = ?evs and r = "Returned None ?N3",
            THEN conjunct2, THEN conjunct2, THEN conjunct2, THEN conjunct2, THEN conjunct1]
      start_seed_known start_backfill_known start_track_known
    by (simp add: archiver_def)
  have nil: "(None :: err option) = None"
    using T[where a = ?A and w = ?N2 and evs = ?evs and r' = None and w' = ?N3,
            THEN conjunct2, THEN conjunct2, THEN conjunct2, THEN conjunct2, THEN conjunct2,
            THEN conjunct1]
      start_track_known by simp
  have 8: "live_loop ?A ?F None ''head'' = Some (LiveAborted, ?F1)"
    using T[where a = ?A and w = ?F and b = "''head''" and e = Unavailable and ?w1.0 = ?F1
              and start = None,
            THEN conjunct2, THEN conjunct2, THEN conjunct2, THEN conjunct2, THEN conjunct2,
            THEN conjunct2, THEN conjunct1]
      seed by simp
  have retry: "persistBlobsForBlockToS3 ?A ?B (root_String (ParentRoot (block 4))) =
      (Inl Unavailable, ?B1)"
    by (simp add: persist_unfold stub_simps fault_at_def)
  have 9: "backfill_loop ?A ?B (block 4) False =
     backfill_loop ?A (emit ?B1 (CallSleep backfillErrorRetryInterval)) (block 4) False"
    using T[where a = ?A and w = ?B and cur = "block 4" and e = Unavailable and ?w1.0 = ?B1,
            THEN conjunct2, THEN conjunct2, THEN conjunct2, THEN conjunct2, THEN conjunct2,
            THEN conjunct2, THEN conjunct2]
      retry by (simp add: archiver_def block_simps)
  from 1 2 3 4 5 6 7 8 9 start_interleaved_run show ?thesis by simp
qed

text \<open>
  The first fetch-and-persist of \<open>head\<close> fails (the beacon client is unavailable) and
  \<^verbatim>\<open>Start\<close> returns that error; neither goroutine makes a move.
\<close>

theorem start_fails_on_seed_error_counterexample:
  "Start (archiver 1) (stub_world (stored []) [True]) [TickerC, CtxDone]
     [BackfillGoroutine, MainGoroutine, MainGoroutine] =
     Some (Returned (Some Unavailable)
           ((stub_world (stored []) [True])
             \<lparr>trace := [CallBeaconBlockHeader ''head''], faults := []\<rparr>))"
  by (simp add: Start_def archiver_def persist_unfold stub_simps fault_at_def)

section \<open>Identifier classification\<close>

lemma isHash_iff:
  "isHash s \<longleftrightarrow> (\<exists>hex. s = ''0x'' @ hex \<and> length hex = 64 \<and> (\<forall>c\<in>set hex. is_hex_char c))"
proof
  assume h: "isHash s"
  then have "s = ''0x'' @ drop 2 s" 
    by (metis append_take_drop_id isHash_def)
  moreover from h have "length (drop 2 s) = 64" by (simp add: isHash_def)
  moreover from h have "\<forall>c\<in>set (drop 2 s). is_hex_char c"
    by (simp add: isHash_def list_all_iff)
  ultimately show "\<exists>hex. s = ''0x'' @ hex \<and> length hex = 64 \<and> (\<forall>c\<in>set hex. is_hex_char c)"
    by blast
next
  assume "\<exists>hex. s = ''0x'' @ hex \<and> length hex = 64 \<and> (\<forall>c\<in>set hex. is_hex_char c)"
  then show "isHash s" by (auto simp add: isHash_def list_all_iff)
qed

lemma isSlot_iff: "isSlot s \<longleftrightarrow> s \<noteq> [] \<and> (\<forall>c\<in>set s. is_digit_char c)"
  by (simp add: isSlot_def list_all_iff)

lemma isKnownIdentifier_iff:
  "isKnownIdentifier s \<longleftrightarrow> s = ''genesis'' \<or> s = ''finalized'' \<or> s = ''head''"
  by (auto simp add: isKnownIdentifier_def)

lemma is_hex_char_iff: "is_hex_char c \<longleftrightarrow> c \<in> set ''0123456789abcdefABCDEF''"
  by (simp add: is_hex_char_def)

lemma is_digit_char_iff: "is_digit_char c \<longleftrightarrow> c \<in> set ''0123456789''"
  by (simp add: is_digit_char_def)

lemma isHash_not_isSlot: "isHash s \<Longrightarrow> \<not> isSlot s"
proof
  assume "isHash s" "isSlot s"
  then obtain hex where "s = ''0x'' @ hex" by (auto simp add: isHash_iff)
  then have "CHR ''x'' \<in> set s" by simp
  with \<open>isSlot s\<close> have "is_digit_char CHR ''x''" by (simp add: isSlot_iff)
  then show False by (simp add: is_digit_char_iff)
qed

lemma known_not_isHash: "isKnownIdentifier s \<Longrightarrow> \<not> isHash s"
  by (auto simp add: isKnownIdentifier_iff isHash_def)

lemma known_not_isSlot: "isKnownIdentifier s \<Longrightarrow> \<not> isSlot s"
  by (auto simp add: isKnownIdentifier_iff isSlot_def is_digit_char_iff)

text \<open>
  C6. The classification of a raw identifier: it is a content hash exactly when it is
  \<open>0x\<close> followed by 64 hexadecimal characters of either case; a position exactly when it
  is a non-empty string of decimal digits; a named alias exactly when it is \<open>genesis\<close>,
  \<open>finalized\<close> or \<open>head\<close>; and invalid exactly when it is none of these. A request with an
  invalid identifier is answered 400 and leaves the world as it was: the beacon client is
  not called.
\<close>

theorem classify_exact:
  "(classify s = ContentHash \<longleftrightarrow>
      (\<exists>hex. s = ''0x'' @ hex \<and> length hex = 64 \<and>
             (\<forall>c\<in>set hex. c \<in> set ''0123456789abcdefABCDEF'')))
   \<and> (classify s = Position \<longleftrightarrow> s \<noteq> [] \<and> (\<forall>c\<in>set s. c \<in> set ''0123456789''))
   \<and> (classify s = NamedAlias \<longleftrightarrow> s = ''genesis'' \<or> s = ''finalized'' \<or> s = ''head'')
   \<and> (classify s = InvalidIdentifier \<longleftrightarrow>
        \<not> (\<exists>hex. s = ''0x'' @ hex \<and> length hex = 64 \<and>
                  (\<forall>c\<in>set hex. c \<in> set ''0123456789abcdefABCDEF'')) \<and>
        \<not> (s \<noteq> [] \<and> (\<forall>c\<in>set s. c \<in> set ''0123456789'')) \<and>
        \<not> (s = ''genesis'' \<or> s = ''finalized'' \<or> s = ''head''))
   \<and> (classify (block_id req) = InvalidIdentifier \<longrightarrow>
        status (fst (blobSidecarHandler w req)) = 400 \<and>
        snd (blobSidecarHandler w req) = w)"
proof -
  have H: "isHash s \<longleftrightarrow> (\<exists>hex. s = ''0x'' @ hex \<and> length hex = 64 \<and>
             (\<forall>c\<in>set hex. c \<in> set ''0123456789abcdefABCDEF''))"
    unfolding isHash_iff is_hex_char_iff ..
  have S: "isSlot s \<longleftrightarrow> s \<noteq> [] \<and> (\<forall>c\<in>set s. c \<in> set ''0123456789'')"
    unfolding isSlot_iff is_digit_char_iff ..
  note K = isKnownIdentifier_iff[of s]
  have 1: "classify s = ContentHash \<longleftrightarrow> isHash s"
    by (simp add: classify_def)
  have 2: "classify s = Position \<longleftrightarrow> isSlot s"
    using isHash_not_isSlot[of s] by (auto simp add: classify_def)
  have 3: "classify s = NamedAlias \<longleftrightarrow> isKnownIdentifier s"
    using known_not_isHash[of s] known_not_isSlot[of s] by (auto simp add: classify_def)
  have 4: "classify s = InvalidIdentifier \<longleftrightarrow>
    \<not> isHash s \<and> \<not> isSlot s \<and> \<not> isKnownIdentifier s"
    by (simp add: classify_def)
  have 5: "classify (block_id req) = InvalidIdentifier \<longrightarrow>
        status (fst (blobSidecarHandler w req)) = 400 \<and>
        snd (blobSidecarHandler w req) = w"
    by (simp add: blobSidecarHandler_def resolveBlockId_def httpError_def)
  show ?thesis
    unfolding 1 2 3 4 using H S K 5 by blast
qed

theorem classify_exact_witness:
  "classify ''0x1234567890abcdef1234567890abcdef1234567890abcdef1234567890abcdef'' = ContentHash
   \<and> classify ''0x1234567890ABCDEF1234567890abcdef1234567890ABCDEF1234567890abcdef'' = ContentHash
   \<and> classify ''0x1234567890abcdef1234567890abcdef1234567890abcdef1234567890abcdez''
       = InvalidIdentifier
   \<and> classify ''1234567890abcdef1234567890abcdef1234567890abcdef1234567890abcdef''
       = InvalidIdentifier
   \<and> classify ''0x1234567890abcdef123'' = InvalidIdentifier
   \<and> classify ''123'' = Position
   \<and> classify ''genesis'' = NamedAlias
   \<and> classify ''finalized'' = NamedAlias
   \<and> classify ''head'' = NamedAlias
   \<and> classify ''unknown'' = InvalidIdentifier
   \<and> status (fst (blobSidecarHandler test_world (get ''foobar'' None ''application/json'')))
       = 400
   \<and> snd (blobSidecarHandler test_world (get ''foobar'' None ''application/json''))
       = test_world"
proof -
  note T = classify_exact
  have a: "classify ''0x1234567890abcdef1234567890abcdef1234567890abcdef1234567890abcdef'' = ContentHash"
    using T[of "''0x1234567890abcdef1234567890abcdef1234567890abcdef1234567890abcdef''",
            THEN conjunct1] by simp
  have b: "classify ''0x1234567890ABCDEF1234567890abcdef1234567890ABCDEF1234567890abcdef'' = ContentHash"
    using T[of "''0x1234567890ABCDEF1234567890abcdef1234567890ABCDEF1234567890abcdef''",
            THEN conjunct1] by simp
  have c: "classify ''0x1234567890abcdef1234567890abcdef1234567890abcdef1234567890abcdez''
       = InvalidIdentifier"
    using T[of "''0x1234567890abcdef1234567890abcdef1234567890abcdef1234567890abcdez''",
            THEN conjunct2, THEN conjunct2, THEN conjunct2, THEN conjunct1] by simp
  have d: "classify ''1234567890abcdef1234567890abcdef1234567890abcdef1234567890abcdef''
       = InvalidIdentifier"
    using T[of "''1234567890abcdef1234567890abcdef1234567890abcdef1234567890abcdef''",
            THEN conjunct2, THEN conjunct2, THEN conjunct2, THEN conjunct1] by simp
  have e: "classify ''0x1234567890abcdef123'' = InvalidIdentifier"
    using T[of "''0x1234567890abcdef123''",
            THEN conjunct2, THEN conjunct2, THEN conjunct2, THEN conjunct1] by simp
  have f: "classify ''123'' = Position"
    using T[of "''123''", THEN conjunct2, THEN conjunct1] by simp
  have g: "classify ''genesis'' = NamedAlias" "classify ''finalized'' = NamedAlias"
    "classify ''head'' = NamedAlias"
    using T[of "''genesis''", THEN conjunct2, THEN conjunct2, THEN conjunct1]
      T[of "''finalized''", THEN conjunct2, THEN conjunct2, THEN conjunct1]
      T[of "''head''", THEN conjunct2, THEN conjunct2, THEN conjunct1] by simp_all
  have h: "classify ''unknown'' = InvalidIdentifier"
    using T[of "''unknown''",
            THEN conjunct2, THEN conjunct2, THEN conjunct2, THEN conjunct1] by simp
  have i: "classify ''foobar'' = InvalidIdentifier"
    using T[of "''foobar''",
            THEN conjunct2, THEN conjunct2, THEN conjunct2, THEN conjunct1] by simp
  have j: "status (fst (blobSidecarHandler test_world (get ''foobar'' None ''application/json'')))
       = 400
   \<and> snd (blobSidecarHandler test_world (get ''foobar'' None ''application/json''))
       = test_world"
    using T[of _ "get ''foobar'' None ''application/json''" test_world,
            THEN conjunct2, THEN conjunct2, THEN conjunct2, THEN conjunct2] i
    by (simp add: get_def)
  from a b c d e f g h j show ?thesis by simp
qed

section \<open>The retrieval handler\<close>

lemma filterBlobs_eq: "filterBlobs bs ids = filter (\<lambda>b. Index b \<in> set ids) bs"
  by (induction bs) simp_all

lemma handler_invalid:
  "classify (block_id req) = InvalidIdentifier \<Longrightarrow>
   blobSidecarHandler w req = (httpError 400 (''invalid block id: '' @ block_id req), w)"
  by (simp add: blobSidecarHandler_def resolveBlockId_def)

lemma handler_unresolved:
  assumes "classify (block_id req) = Position \<or> classify (block_id req) = NamedAlias"
    "\<not> fault_at w 0" "headers w (block_id req) = None"
  shows "blobSidecarHandler w req =
    (httpError 404 ''Block not found'',
     w\<lparr>trace := trace w @ [CallBeaconBlockHeader (block_id req)], faults := tl (faults w)\<rparr>)"
  using assms by (auto simp add: blobSidecarHandler_def resolveBlockId_def BeaconBlockHeader_eq)

lemma handler_not_stored:
  assumes "classify (block_id req) = Position \<or> classify (block_id req) = NamedAlias"
    "\<not> fault_at w 0" "\<not> fault_at w 1"
    "headers w (block_id req) = Some h" "store w (Root h) = None"
  shows "blobSidecarHandler w req =
    (httpError 404 ''Block not found'',
     w\<lparr>trace := trace w @ [CallBeaconBlockHeader (block_id req), CallRead (Root h)],
       faults := tl (tl (faults w))\<rparr>)"
  using assms
  by (auto simp add: blobSidecarHandler_def resolveBlockId_def BeaconBlockHeader_eq Read_eq)

lemma handler_found:
  assumes "classify (block_id req) = Position \<or> classify (block_id req) = NamedAlias"
    "\<not> fault_at w 0" "\<not> fault_at w 1"
    "headers w (block_id req) = Some h" "store w (Root h) = Some d"
  shows "blobSidecarHandler w req =
    (\<lparr>status = 200,
      body = BlobSidecarsBody (negotiate (accept req))
               (case indices req of None \<Rightarrow> Data d | Some ids \<Rightarrow> filterBlobs (Data d) ids)\<rparr>,
     w\<lparr>trace := trace w @ [CallBeaconBlockHeader (block_id req), CallRead (Root h)],
       faults := tl (tl (faults w))\<rparr>)"
  using assms
  by (auto simp add: blobSidecarHandler_def resolveBlockId_def BeaconBlockHeader_eq Read_eq)

lemma handler_hash_not_stored:
  assumes "classify (block_id req) = ContentHash" "\<not> fault_at w 0"
    "store w (HexToHash (block_id req)) = None"
  shows "blobSidecarHandler w req =
    (httpError 404 ''Block not found'',
     w\<lparr>trace := trace w @ [CallRead (HexToHash (block_id req))], faults := tl (faults w)\<rparr>)"
  using assms by (simp add: blobSidecarHandler_def resolveBlockId_def Read_eq)

lemma handler_hash_found:
  assumes "classify (block_id req) = ContentHash" "\<not> fault_at w 0"
    "store w (HexToHash (block_id req)) = Some d"
  shows "blobSidecarHandler w req =
    (\<lparr>status = 200,
      body = BlobSidecarsBody (negotiate (accept req))
               (case indices req of None \<Rightarrow> Data d | Some ids \<Rightarrow> filterBlobs (Data d) ids)\<rparr>,
     w\<lparr>trace := trace w @ [CallRead (HexToHash (block_id req))], faults := tl (faults w)\<rparr>)"
  using assms by (simp add: blobSidecarHandler_def resolveBlockId_def Read_eq)

text \<open>
  C7, as the handler has it. A request whose identifier is malformed is answered with
  status 400 and the message \<open>invalid block id: \<close> followed by the raw identifier, and the
  world is unchanged: the beacon client is not contacted. A position or a named alias is
  answered with status 404 and the message \<open>Block not found\<close> both when the beacon client
  has no header for it and when it has one but no record is stored under that header's
  root. A content hash is never sent to the beacon client: the only call is the read of
  the record under the root the hash spells, and the answer is 404 \<open>Block not found\<close> when
  no such record is stored and 200 with the record's blobs when one is, whatever the
  beacon client would have said.
\<close>

theorem handler_error_responses:
  "(classify (block_id req) = InvalidIdentifier \<longrightarrow>
      blobSidecarHandler w req =
        (\<lparr>status = 400,
          body = HttpErrorBody 400 (''invalid block id: '' @ block_id req)\<rparr>, w))
   \<and> ((classify (block_id req) = Position \<or> classify (block_id req) = NamedAlias) \<and>
      \<not> fault_at w 0 \<and> headers w (block_id req) = None \<longrightarrow>
        fst (blobSidecarHandler w req) =
          \<lparr>status = 404, body = HttpErrorBody 404 ''Block not found''\<rparr>)
   \<and> ((classify (block_id req) = Position \<or> classify (block_id req) = NamedAlias) \<and>
      \<not> fault_at w 0 \<and> \<not> fault_at w 1 \<and>
      headers w (block_id req) = Some h \<and> store w (Root h) = None \<longrightarrow>
        fst (blobSidecarHandler w req) =
          \<lparr>status = 404, body = HttpErrorBody 404 ''Block not found''\<rparr>)
   \<and> (classify (block_id req) = ContentHash \<and> \<not> fault_at w 0 \<and>
      store w (HexToHash (block_id req)) = None \<longrightarrow>
        blobSidecarHandler w req =
          (\<lparr>status = 404, body = HttpErrorBody 404 ''Block not found''\<rparr>,
           w\<lparr>trace := trace w @ [CallRead (HexToHash (block_id req))],
             faults := tl (faults w)\<rparr>))
   \<and> (classify (block_id req) = ContentHash \<and> \<not> fault_at w 0 \<and>
      store w (HexToHash (block_id req)) = Some d \<and> indices req = None \<longrightarrow>
        blobSidecarHandler w req =
          (\<lparr>status = 200, body = BlobSidecarsBody (negotiate (accept req)) (Data d)\<rparr>,
           w\<lparr>trace := trace w @ [CallRead (HexToHash (block_id req))],
             faults := tl (faults w)\<rparr>))"
proof (intro conjI impI)
  assume "classify (block_id req) = InvalidIdentifier"
  then show "blobSidecarHandler w req =
        (\<lparr>status = 400,
          body = HttpErrorBody 400 (''invalid block id: '' @ block_id req)\<rparr>, w)"
    by (simp add: handler_invalid httpError_def)
next
  assume "(classify (block_id req) = Position \<or> classify (block_id req) = NamedAlias) \<and>
      \<not> fault_at w 0 \<and> headers w (block_id req) = None"
  then show "fst (blobSidecarHandler w req) =
          \<lparr>status = 404, body = HttpErrorBody 404 ''Block not found''\<rparr>"
    by (simp add: handler_unresolved httpError_def)
next
  assume "(classify (block_id req) = Position \<or> classify (block_id req) = NamedAlias) \<and>
      \<not> fault_at w 0 \<and> \<not> fault_at w 1 \<and>
      headers w (block_id req) = Some h \<and> store w (Root h) = None"
  then show "fst (blobSidecarHandler w req) =
          \<lparr>status = 404, body = HttpErrorBody 404 ''Block not found''\<rparr>"
    by (simp add: handler_not_stored[where h = h] httpError_def)
next
  assume "classify (block_id req) = ContentHash \<and> \<not> fault_at w 0 \<and>
      store w (HexToHash (block_id req)) = None"
  then show "blobSidecarHandler w req =
          (\<lparr>status = 404, body = HttpErrorBody 404 ''Block not found''\<rparr>,
           w\<lparr>trace := trace w @ [CallRead (HexToHash (block_id req))],
             faults := tl (faults w)\<rparr>)"
    by (simp add: handler_hash_not_stored httpError_def)
next
  assume "classify (block_id req) = ContentHash \<and> \<not> fault_at w 0 \<and>
      store w (HexToHash (block_id req)) = Some d \<and> indices req = None"
  then show "blobSidecarHandler w req =
          (\<lparr>status = 200, body = BlobSidecarsBody (negotiate (accept req)) (Data d)\<rparr>,
           w\<lparr>trace := trace w @ [CallRead (HexToHash (block_id req))],
             faults := tl (faults w)\<rparr>)"
    by (simp add: handler_hash_found[where d = d])
qed

lemma rootOne_neq_rootTwo: "rootOne \<noteq> rootTwo"
  by (simp add: rootOne_def rootTwo_def)

lemma HexToHash_examples:
  "HexToHash ''0x1234567890abcdef1234567890abcdef1234567890abcdef1234567890abcdef'' = rootOne"
  "HexToHash ''0x1234567890abcdef1234567890abcdef1234567890abcdef1234567890222222'' = rootTwo"
  "HexToHash ''0x1234567890abcdef1234567890abcdef1234567890abcdef1234567890abc111'' =
     0x1234567890abcdef1234567890abcdef1234567890abcdef1234567890abc111"
  by (simp_all add: HexToHash_def hex_value_def rootOne_def rootTwo_def)

lemma test_world_simps:
  "faults test_world = []" "trace test_world = []"
  "headers test_world ''finalized'' = Some \<lparr>Root = rootOne, ParentRoot = 0\<rparr>"
  "headers test_world ''head'' = Some \<lparr>Root = rootTwo, ParentRoot = 0\<rparr>"
  "headers test_world ''1234'' = Some \<lparr>Root = rootTwo, ParentRoot = 0\<rparr>"
  "headers test_world ''genesis'' = None"
  "headers test_world ''4321'' = None"
  "headers test_world
     ''0x1234567890abcdef1234567890abcdef1234567890abcdef1234567890abcdef'' = None"
  "store test_world rootOne = Some blockOne"
  "store test_world rootTwo = Some blockTwo"
  "store test_world 0x1234567890abcdef1234567890abcdef1234567890abcdef1234567890abc111 = None"
  using rootOne_neq_rootTwo
  by (simp_all add: test_world_def test_headers_def rootOne_def rootTwo_def)

lemma classify_examples:
  "classify ''finalized'' = NamedAlias" "classify ''head'' = NamedAlias"
  "classify ''genesis'' = NamedAlias" "classify ''1234'' = Position"
  "classify ''4321'' = Position" "classify ''foobar'' = InvalidIdentifier"
  "classify ''0x1234567890abcdef123'' = InvalidIdentifier"
  "classify ''1234567890abcdef1234567890abcdef1234567890abcdef1234567890abcdef''
     = InvalidIdentifier"
  "classify ''0x1234567890abcdef1234567890abcdef1234567890abcdef1234567890abcdef''
     = ContentHash"
  "classify ''0x1234567890abcdef1234567890abcdef1234567890abcdef1234567890222222''
     = ContentHash"
  "classify ''0x1234567890abcdef1234567890abcdef1234567890abcdef1234567890abc111''
     = ContentHash"
  by (simp_all add: classify_def isHash_def isSlot_def isKnownIdentifier_def
      is_digit_char_def is_hex_char_def)

theorem handler_error_responses_witness:
  "blobSidecarHandler test_world
     (get ''1234567890abcdef1234567890abcdef1234567890abcdef1234567890abcdef'' None
        ''application/json'') =
     (\<lparr>status = 400,
       body = HttpErrorBody 400
         ''invalid block id: 1234567890abcdef1234567890abcdef1234567890abcdef1234567890abcdef''\<rparr>,
      test_world)
   \<and> blobSidecarHandler test_world (get ''0x1234567890abcdef123'' None ''application/json'') =
     (\<lparr>status = 400, body = HttpErrorBody 400 ''invalid block id: 0x1234567890abcdef123''\<rparr>,
      test_world)
   \<and> blobSidecarHandler test_world (get ''foobar'' None ''application/json'') =
     (\<lparr>status = 400, body = HttpErrorBody 400 ''invalid block id: foobar''\<rparr>, test_world)
   \<and> fst (blobSidecarHandler test_world (get ''4321'' None ''application/json'')) =
     \<lparr>status = 404, body = HttpErrorBody 404 ''Block not found''\<rparr>
   \<and> fst (blobSidecarHandler (test_world\<lparr>store := Map.empty\<rparr>)
            (get ''head'' None ''application/json'')) =
     \<lparr>status = 404, body = HttpErrorBody 404 ''Block not found''\<rparr>
   \<and> blobSidecarHandler test_world
       (get ''0x1234567890abcdef1234567890abcdef1234567890abcdef1234567890abc111'' None
          ''application/json'') =
     (\<lparr>status = 404, body = HttpErrorBody 404 ''Block not found''\<rparr>,
      test_world\<lparr>trace :=
        [CallRead 0x1234567890abcdef1234567890abcdef1234567890abcdef1234567890abc111]\<rparr>)
   \<and> blobSidecarHandler test_world
       (get ''0x1234567890abcdef1234567890abcdef1234567890abcdef1234567890222222'' None
          ''application/octet-stream'') =
     (\<lparr>status = 200, body = BlobSidecarsBody BinaryEncoding (blobs_of 2)\<rparr>,
      test_world\<lparr>trace := [CallRead rootTwo]\<rparr>)"
proof -
  note T = handler_error_responses
  let ?noprefix = "''1234567890abcdef1234567890abcdef1234567890abcdef1234567890abcdef''"
  let ?unknown = "''0x1234567890abcdef1234567890abcdef1234567890abcdef1234567890abc111''"
  let ?two = "''0x1234567890abcdef1234567890abcdef1234567890abcdef1234567890222222''"
  have 1: "blobSidecarHandler test_world (get ?noprefix None ''application/json'') =
     (\<lparr>status = 400, body = HttpErrorBody 400 (''invalid block id: '' @ ?noprefix)\<rparr>,
      test_world)"
    using T[of "get ?noprefix None ''application/json''" test_world, THEN conjunct1]
    by (simp add: get_def classify_examples)
  have 2: "blobSidecarHandler test_world (get ''0x1234567890abcdef123'' None ''application/json'') =
     (\<lparr>status = 400, body = HttpErrorBody 400 ''invalid block id: 0x1234567890abcdef123''\<rparr>,
      test_world)"
    using T[of "get ''0x1234567890abcdef123'' None ''application/json''" test_world,
            THEN conjunct1]
    by (simp add: get_def classify_examples)
  have 3: "blobSidecarHandler test_world (get ''foobar'' None ''application/json'') =
     (\<lparr>status = 400, body = HttpErrorBody 400 ''invalid block id: foobar''\<rparr>, test_world)"
    using T[of "get ''foobar'' None ''application/json''" test_world, THEN conjunct1]
    by (simp add: get_def classify_examples)
  have 4: "fst (blobSidecarHandler test_world (get ''4321'' None ''application/json'')) =
     \<lparr>status = 404, body = HttpErrorBody 404 ''Block not found''\<rparr>"
    using T[of "get ''4321'' None ''application/json''" test_world,
            THEN conjunct2, THEN conjunct1]
    by (simp add: get_def classify_examples test_world_simps)
  have 5: "fst (blobSidecarHandler (test_world\<lparr>store := Map.empty\<rparr>)
            (get ''head'' None ''application/json'')) =
     \<lparr>status = 404, body = HttpErrorBody 404 ''Block not found''\<rparr>"
    using T[of "get ''head'' None ''application/json''" "test_world\<lparr>store := Map.empty\<rparr>"
              "\<lparr>Root = rootTwo, ParentRoot = 0\<rparr>",
            THEN conjunct2, THEN conjunct2, THEN conjunct1]
    by (simp add: get_def classify_examples test_world_simps)
  have 6: "blobSidecarHandler test_world (get ?unknown None ''application/json'') =
     (\<lparr>status = 404, body = HttpErrorBody 404 ''Block not found''\<rparr>,
      test_world\<lparr>trace :=
        [CallRead 0x1234567890abcdef1234567890abcdef1234567890abcdef1234567890abc111]\<rparr>)"
    using T[of "get ?unknown None ''application/json''" test_world,
            THEN conjunct2, THEN conjunct2, THEN conjunct2, THEN conjunct1]
    by (simp add: get_def classify_examples test_world_simps HexToHash_examples)
  have 7: "blobSidecarHandler test_world (get ?two None ''application/octet-stream'') =
     (\<lparr>status = 200, body = BlobSidecarsBody BinaryEncoding (blobs_of 2)\<rparr>,
      test_world\<lparr>trace := [CallRead rootTwo]\<rparr>)"
    using T[of "get ?two None ''application/octet-stream''" test_world _ blockTwo,
            THEN conjunct2, THEN conjunct2, THEN conjunct2, THEN conjunct2]
    by (simp add: get_def classify_examples test_world_simps HexToHash_examples
        negotiate_def blockTwo_def)
  from 1 2 3 4 5 6 7 show ?thesis by simp
qed

text \<open>
  The first case of \<^verbatim>\<open>TestAPIService\<close>, "fetch root one": the identifier is a well-formed
  content hash, the stub beacon client has no header for it, and the answer is status 200
  with the stored blobs, not 404.
\<close>

theorem handler_hash_unresolved_counterexample:
  "classify ''0x1234567890abcdef1234567890abcdef1234567890abcdef1234567890abcdef''
     = ContentHash
   \<and> headers test_world
       ''0x1234567890abcdef1234567890abcdef1234567890abcdef1234567890abcdef'' = None
   \<and> fst (blobSidecarHandler test_world
            (get ''0x1234567890abcdef1234567890abcdef1234567890abcdef1234567890abcdef'' None
               ''application/json'')) =
     \<lparr>status = 200, body = BlobSidecarsBody TextualEncoding (blobs_of 1)\<rparr>"
  by (simp add: classify_examples test_world_simps blobSidecarHandler_def resolveBlockId_def
      Read_eq get_def HexToHash_examples negotiate_def blockOne_def)

text \<open>
  C8. For a stored record and a request that names indices, the answer has status 200
  and carries exactly the entries of the record whose index is among the requested ones,
  in the order they have in the record; requested indices that no entry has contribute
  nothing, and when no entry has a requested index the answer is the empty sequence, still
  with status 200. This holds on both routes to the record: through the beacon client for
  a position or a named alias, and directly for a content hash.
\<close>

theorem handler_filters_indices:
  "((classify (block_id req) = Position \<or> classify (block_id req) = NamedAlias) \<and>
    \<not> fault_at w 0 \<and> \<not> fault_at w 1 \<and>
    headers w (block_id req) = Some h \<and> store w (Root h) = Some d \<and>
    indices req = Some ids \<longrightarrow>
      fst (blobSidecarHandler w req) =
        \<lparr>status = 200,
         body = BlobSidecarsBody (negotiate (accept req))
                  (filter (\<lambda>b. Index b \<in> set ids) (Data d))\<rparr> \<and>
      (set ids \<inter> Index ` set (Data d) = {} \<longrightarrow>
         fst (blobSidecarHandler w req) =
           \<lparr>status = 200, body = BlobSidecarsBody (negotiate (accept req)) []\<rparr>))
   \<and> (classify (block_id req) = ContentHash \<and> \<not> fault_at w 0 \<and>
      store w (HexToHash (block_id req)) = Some d \<and> indices req = Some ids \<longrightarrow>
      fst (blobSidecarHandler w req) =
        \<lparr>status = 200,
         body = BlobSidecarsBody (negotiate (accept req))
                  (filter (\<lambda>b. Index b \<in> set ids) (Data d))\<rparr> \<and>
      (set ids \<inter> Index ` set (Data d) = {} \<longrightarrow>
         fst (blobSidecarHandler w req) =
           \<lparr>status = 200, body = BlobSidecarsBody (negotiate (accept req)) []\<rparr>))
   \<and> subseq (filter (\<lambda>b. Index b \<in> set ids) (Data d)) (Data d)"
proof -
  have empty: "set ids \<inter> Index ` set (Data d) = {} \<Longrightarrow>
    filter (\<lambda>b. Index b \<in> set ids) (Data d) = []"
    by (auto simp add: filter_empty_conv)
  have route1: "fst (blobSidecarHandler w req) =
        \<lparr>status = 200,
         body = BlobSidecarsBody (negotiate (accept req))
                  (filter (\<lambda>b. Index b \<in> set ids) (Data d))\<rparr>"
    if "(classify (block_id req) = Position \<or> classify (block_id req) = NamedAlias) \<and>
      \<not> fault_at w 0 \<and> \<not> fault_at w 1 \<and>
      headers w (block_id req) = Some h \<and> store w (Root h) = Some d \<and>
      indices req = Some ids"
    using that by (simp add: handler_found[where h = h and d = d] filterBlobs_eq)
  have route2: "fst (blobSidecarHandler w req) =
        \<lparr>status = 200,
         body = BlobSidecarsBody (negotiate (accept req))
                  (filter (\<lambda>b. Index b \<in> set ids) (Data d))\<rparr>"
    if "classify (block_id req) = ContentHash \<and> \<not> fault_at w 0 \<and>
      store w (HexToHash (block_id req)) = Some d \<and> indices req = Some ids"
    using that by (simp add: handler_hash_found[where d = d] filterBlobs_eq)
  have order: "subseq (filter (\<lambda>b. Index b \<in> set ids) (Data d)) (Data d)" by simp
  from route1 route2 empty order show ?thesis by simp
qed

theorem handler_filters_indices_witness:
  "fst (blobSidecarHandler test_world (get ''1234'' (Some [1]) ''application/json'')) =
     \<lparr>status = 200,
      body = BlobSidecarsBody TextualEncoding [\<lparr>Index = 1, Blob = [2, 1]\<rparr>]\<rparr>
   \<and> fst (blobSidecarHandler test_world (get ''1234'' (Some [1]) ''application/octet-stream'')) =
     \<lparr>status = 200,
      body = BlobSidecarsBody BinaryEncoding [\<lparr>Index = 1, Blob = [2, 1]\<rparr>]\<rparr>
   \<and> fst (blobSidecarHandler test_world (get ''1234'' (Some [3]) ''application/json'')) =
     \<lparr>status = 200, body = BlobSidecarsBody TextualEncoding []\<rparr>
   \<and> fst (blobSidecarHandler test_world (get ''1234'' (Some [1, 0, 7]) ''application/json'')) =
     \<lparr>status = 200,
      body = BlobSidecarsBody TextualEncoding
               [\<lparr>Index = 0, Blob = [2, 0]\<rparr>, \<lparr>Index = 1, Blob = [2, 1]\<rparr>]\<rparr>
   \<and> fst (blobSidecarHandler test_world
            (get ''0x1234567890abcdef1234567890abcdef1234567890abcdef1234567890abcdef''
               (Some [0]) ''application/json'')) =
     \<lparr>status = 200,
      body = BlobSidecarsBody TextualEncoding [\<lparr>Index = 0, Blob = [1, 0]\<rparr>]\<rparr>
   \<and> fst (blobSidecarHandler test_world
            (get ''0x1234567890abcdef1234567890abcdef1234567890abcdef1234567890abcdef''
               (Some [5]) ''application/json'')) =
     \<lparr>status = 200, body = BlobSidecarsBody TextualEncoding []\<rparr>"
proof -
  let ?one = "''0x1234567890abcdef1234567890abcdef1234567890abcdef1234567890abcdef''"
  note T = handler_filters_indices
    [where w = test_world and h = "\<lparr>Root = rootTwo, ParentRoot = 0\<rparr>" and d = blockTwo,
     THEN conjunct1]
  note H = handler_filters_indices
    [where w = test_world and d = blockOne, THEN conjunct2, THEN conjunct1]
  have 1: "fst (blobSidecarHandler test_world (get ''1234'' (Some [1]) ''application/json'')) =
     \<lparr>status = 200,
      body = BlobSidecarsBody TextualEncoding [\<lparr>Index = 1, Blob = [2, 1]\<rparr>]\<rparr>"
    using T[of "get ''1234'' (Some [1]) ''application/json''" "[1]"]
    by (simp add: get_def classify_examples test_world_simps blockTwo_def blobs_of_eq
        negotiate_def)
  have 2: "fst (blobSidecarHandler test_world
                  (get ''1234'' (Some [1]) ''application/octet-stream'')) =
     \<lparr>status = 200,
      body = BlobSidecarsBody BinaryEncoding [\<lparr>Index = 1, Blob = [2, 1]\<rparr>]\<rparr>"
    using T[of "get ''1234'' (Some [1]) ''application/octet-stream''" "[1]"]
    by (simp add: get_def classify_examples test_world_simps blockTwo_def blobs_of_eq
        negotiate_def)
  have 3: "fst (blobSidecarHandler test_world (get ''1234'' (Some [3]) ''application/json'')) =
     \<lparr>status = 200, body = BlobSidecarsBody TextualEncoding []\<rparr>"
    using T[of "get ''1234'' (Some [3]) ''application/json''" "[3]"]
    by (simp add: get_def classify_examples test_world_simps blockTwo_def blobs_of_eq
        negotiate_def)
  have 4: "fst (blobSidecarHandler test_world
                  (get ''1234'' (Some [1, 0, 7]) ''application/json'')) =
     \<lparr>status = 200,
      body = BlobSidecarsBody TextualEncoding
               [\<lparr>Index = 0, Blob = [2, 0]\<rparr>, \<lparr>Index = 1, Blob = [2, 1]\<rparr>]\<rparr>"
    using T[of "get ''1234'' (Some [1, 0, 7]) ''application/json''" "[1, 0, 7]"]
    by (simp add: get_def classify_examples test_world_simps blockTwo_def blobs_of_eq
        negotiate_def)
  have 5: "fst (blobSidecarHandler test_world (get ?one (Some [0]) ''application/json'')) =
     \<lparr>status = 200,
      body = BlobSidecarsBody TextualEncoding [\<lparr>Index = 0, Blob = [1, 0]\<rparr>]\<rparr>"
    using H[of "get ?one (Some [0]) ''application/json''" "[0]"]
    by (simp add: get_def classify_examples test_world_simps HexToHash_examples
        blockOne_def blobs_of_eq negotiate_def)
  have 6: "fst (blobSidecarHandler test_world (get ?one (Some [5]) ''application/json'')) =
     \<lparr>status = 200, body = BlobSidecarsBody TextualEncoding []\<rparr>"
    using H[of "get ?one (Some [5]) ''application/json''" "[5]"]
    by (simp add: get_def classify_examples test_world_simps HexToHash_examples
        blockOne_def blobs_of_eq negotiate_def)
  from 1 2 3 4 5 6 show ?thesis by simp
qed

end
